theory Spec2Isabelle
  imports Complex_Main
begin

section \<open>Buffers, coordinates and addressing\<close>

text \<open>
  The kernels of the sparse coder and of the actor work on flat buffers
  (\<open>std::vector<int>\<close>, \<open>std::vector<float>\<close>) addressed by \<open>int\<close> arithmetic.
  A buffer is modelled as the store from index to element. C++ gives no meaning to an
  index outside the allocation, so the development speaks only about the indices the
  kernels compute. Machine \<open>int\<close> is modelled as \<open>int\<close>: every index is bounded
  by a buffer size. \<open>float\<close> is modelled as \<open>real\<close>: the theorems are about which
  expression is computed, not about its rounding.
\<close>

type_synonym Int2 = "int \<times> int"
type_synonym Int3 = "int \<times> int \<times> int"
type_synonym Int4 = "int \<times> int \<times> int \<times> int"
type_synonym Float2 = "real \<times> real"
type_synonym IntBuffer = "int \<Rightarrow> int"
type_synonym FloatBuffer = "int \<Rightarrow> real"

text \<open>
  Modelled from the spec: \<open>Helpers.h\<close> is not among the sources.
  \<open>index2(pos, width) = pos.y*width + pos.x\<close>.
\<close>

fun address2 :: "Int2 \<Rightarrow> int \<Rightarrow> int" where
  "address2 (x, y) w = y * w + x"

text \<open>
  Modelled from the spec: \<open>Helpers.h\<close> is not among the sources.
  \<open>index3(pos3, size2) = pos3.z*size2.x*size2.y + index2(pos3.xy, size2.x)\<close>.
\<close>

fun address3 :: "Int3 \<Rightarrow> Int2 \<Rightarrow> int" where
  "address3 (x, y, z) (dx, dy) = z * dx * dy + address2 (x, y) dx"

text \<open>
  Modelled from the spec: \<open>Helpers.h\<close> is not among the sources. The four-dimensional
  address continues \<open>address3\<close> by one more stride; \<open>SparseCoder::forward\<close> computes
  the same address as \<open>dPartial + az * dxyz\<close>.
\<close>

fun address4 :: "Int4 \<Rightarrow> Int3 \<Rightarrow> int" where
  "address4 (x, y, z, w) (dx, dy, dz) = x + y * dx + z * dx * dy + w * dx * dy * dz"

text \<open>
  Modelled from the spec: \<open>Helpers.h\<close> is not among the sources. The \<open>C\<close> variants
  flatten a coordinate with the last component running fastest.
\<close>

fun address2C :: "Int2 \<Rightarrow> Int2 \<Rightarrow> int" where
  "address2C (x, y) (dx, dy) = y + x * dy"

fun address3C :: "Int3 \<Rightarrow> Int3 \<Rightarrow> int" where
  "address3C (x, y, z) (dx, dy, dz) = z + y * dz + x * dy * dz"

text \<open>
  Modelled from the spec: \<open>Helpers.h\<close> is not among the sources.
  \<open>project(hiddenPos, ratio)\<close> is componentwise \<open>floor(hiddenPos*ratio + ratio*0.5)\<close>.
\<close>

fun project :: "Int2 \<Rightarrow> Float2 \<Rightarrow> Int2" where
  "project (x, y) (rx, ry) =
     (\<lfloor>of_int x * rx + rx * 0.5\<rfloor>, \<lfloor>of_int y * ry + ry * 0.5\<rfloor>)"

text \<open>
  Modelled from the spec: \<open>Helpers.h\<close> is not among the sources. Containment in a
  field whose upper bound is exclusive (the callers pass \<open>center + radius + 1\<close>).
\<close>

fun inBounds :: "Int2 \<Rightarrow> Int2 \<Rightarrow> Int2 \<Rightarrow> bool" where
  "inBounds (x, y) (lx, ly) (ux, uy) = (lx \<le> x \<and> x < ux \<and> ly \<le> y \<and> y < uy)"

text \<open>
  The sequential kernel dispatch
  \<open>for (x = 0; x < size.x; x++) for (y = 0; y < size.y; y++) kernel(Int2(x, y), ...)\<close>
  visits the positions in this order.
\<close>

definition positions :: "int \<Rightarrow> int \<Rightarrow> Int2 list" where
  "positions sx sy = concat (map (\<lambda>x. map (\<lambda>y. (x, y)) [0..sy - 1]) [0..sx - 1])"

text \<open>
  What the C++ leaves undefined is a fault of the model: the read of a local that was never
  assigned, an index outside a vector, a division by zero.
\<close>

datatype fault = UninitializedRead | OutOfRange | DivisionByZero

text \<open>A loop whose body may fault; the loop stops at the first fault.\<close>

fun fold_fault :: "('a \<Rightarrow> 's \<Rightarrow> fault + 's) \<Rightarrow> 'a list \<Rightarrow> 's \<Rightarrow> fault + 's" where
  "fold_fault f [] s = Inr s"
| "fold_fault f (x # xs) s = (case f x s of Inl e \<Rightarrow> Inl e | Inr s' \<Rightarrow> fold_fault f xs s')"

text \<open>
  Modelled from the spec: \<open>Helpers.h\<close> is not among the sources. \<open>copyInt\<close> copies
  one element; run over \<open>n\<close> positions it copies the first \<open>n\<close> elements of \<open>src\<close>
  into \<open>dst\<close>. The destination is a \<open>std::vector<int>\<close>, here its store and its
  size: \<open>copyInt_checked\<close> is the copy of one element into a destination of size
  \<open>dstSize\<close>, a fault when the position is outside it, and \<open>copyInts_checked\<close> the loop
  \<open>for (int x = 0; x < n; x++) copyInt(x, rng, src, dst)\<close>.
\<close>

definition copyInt :: "int \<Rightarrow> IntBuffer \<Rightarrow> IntBuffer \<Rightarrow> IntBuffer" where
  "copyInt pos src dst = dst(pos := src pos)"

definition copyInts :: "int \<Rightarrow> IntBuffer \<Rightarrow> IntBuffer \<Rightarrow> IntBuffer" where
  "copyInts n src dst = fold (\<lambda>x d. copyInt x src d) [0..n - 1] dst"

definition copyInt_checked :: "int \<Rightarrow> IntBuffer \<Rightarrow> int \<Rightarrow> IntBuffer \<Rightarrow> fault + IntBuffer" where
  "copyInt_checked pos src dstSize dst =
     (if 0 \<le> pos \<and> pos < dstSize then Inr (copyInt pos src dst) else Inl OutOfRange)"

definition copyInts_checked :: "int \<Rightarrow> IntBuffer \<Rightarrow> int \<Rightarrow> IntBuffer \<Rightarrow> fault + IntBuffer" where
  "copyInts_checked n src dstSize dst = fold_fault (\<lambda>x. copyInt_checked x src dstSize) [0..n - 1] dst"

section \<open>The compressed weight collection\<close>

text \<open>
  Modelled from the spec: \<open>SparseMatrix\<close> is not among the sources. The compressed
  weight collection is keyed by hidden unit (row); a row connects to the visible columns
  of its receptive field and holds one weight per visible column and visible code.
  \<open>multiplyOHVs\<close> is the dot product of a row against a one-hot input CSDR,
  \<open>deltaOHVs\<close> the additive update of a row against a one-hot input CSDR; each touches,
  per visible column of the field, only the weight of the code the CSDR holds there.
\<close>

record SparseMatrix =
  field :: "int \<Rightarrow> int list"
  nonZeroValues :: "int \<Rightarrow> int \<Rightarrow> int \<Rightarrow> real"

definition multiplyOHVs :: "SparseMatrix \<Rightarrow> IntBuffer \<Rightarrow> int \<Rightarrow> int \<Rightarrow> real" where
  "multiplyOHVs m nonZeroIndices row oneHotSize =
     fold (\<lambda>c sum. sum + nonZeroValues m row c (nonZeroIndices c)) (field m row) 0"

definition deltaOHVs :: "SparseMatrix \<Rightarrow> IntBuffer \<Rightarrow> real \<Rightarrow> int \<Rightarrow> int \<Rightarrow> SparseMatrix" where
  "deltaOHVs m nonZeroIndices delta row oneHotSize =
     m\<lparr>nonZeroValues := (\<lambda>r c k.
          if r = row \<and> c \<in> set (field m row) \<and> k = nonZeroIndices c
          then nonZeroValues m r c k + delta
          else nonZeroValues m r c k)\<rparr>"

section \<open>The actor\<close>

record ActorVisibleLayerDesc =
  a_size :: Int3
  a_radius :: int

record ActorVisibleLayer =
  a_weights :: SparseMatrix

text \<open>
  A history sample. Each of its buffers is a \<open>std::vector<int>\<close>: the store of its
  elements and its size, the number of elements allocated. A buffer that was never
  allocated has size 0.
\<close>

record HistorySample =
  s_inputCs :: "IntBuffer list"
  s_hiddenCs :: IntBuffer
  s_feedBackCs :: IntBuffer
  s_inputCs_size :: "int list"
  s_hiddenCs_size :: int
  s_feedBackCs_size :: int

record Actor =
  a_hiddenSize :: Int3
  a_historySize :: int
  a_hiddenCs :: IntBuffer
  a_hiddenCounts :: IntBuffer
  a_historySamples :: "HistorySample list"
  a_visibleLayers :: "ActorVisibleLayer list"
  a_visibleLayerDescs :: "ActorVisibleLayerDesc list"
  a_alpha :: real
  a_gamma :: real
  a_gap :: real
  a_historyIters :: int

definition size_z :: "Int3 \<Rightarrow> int" where
  "size_z s = snd (snd s)"

definition size_xy :: "Int3 \<Rightarrow> Int2" where
  "size_xy s = (fst s, fst (snd s))"

text \<open>
  The inner loop over the visible layers, shared by \<open>Actor::forward\<close> and
  \<open>Actor::learn\<close>:
  \<open>sum += vl._weights.multiplyOHVs(*inputCs[vli], hiddenIndex, vld._size.z)\<close>.
\<close>

definition a_sum :: "Actor \<Rightarrow> IntBuffer list \<Rightarrow> int \<Rightarrow> real" where
  "a_sum a inputCs hiddenIndex =
     fold (\<lambda>vli sum. sum + multiplyOHVs (a_weights (a_visibleLayers a ! vli)) (inputCs ! vli)
                              hiddenIndex (size_z (a_size (a_visibleLayerDescs a ! vli))))
          [0..<length (a_visibleLayers a)] 0"

text \<open>\<open>Actor::forward\<close>: the running maximum over the action codes of one column.\<close>

definition a_forward_hc :: "Actor \<Rightarrow> IntBuffer list \<Rightarrow> Int2 \<Rightarrow> int \<Rightarrow> int \<times> real \<Rightarrow> int \<times> real" where
  "a_forward_hc a inputCs pos hc acc =
     (let hiddenIndex = address3C (fst pos, snd pos, hc) (a_hiddenSize a);
          sum = a_sum a inputCs hiddenIndex
      in if sum > snd acc then (hc, sum) else acc)"

definition a_maxIndex :: "Actor \<Rightarrow> IntBuffer list \<Rightarrow> Int2 \<Rightarrow> int" where
  "a_maxIndex a inputCs pos =
     fst (fold (a_forward_hc a inputCs pos) [0..size_z (a_hiddenSize a) - 1] (0, - 999999))"

definition a_forward :: "Int2 \<Rightarrow> 'rng \<Rightarrow> IntBuffer list \<Rightarrow> Actor \<Rightarrow> Actor" where
  "a_forward pos rng inputCs a =
     (let hiddenColumnIndex = address2C pos (size_xy (a_hiddenSize a))
      in a\<lparr>a_hiddenCs := (a_hiddenCs a)(hiddenColumnIndex := a_maxIndex a inputCs pos)\<rparr>)"

text \<open>The forward pass of \<open>Actor::step\<close>: the kernel at every hidden column.\<close>

definition a_forward_pass :: "'rng \<Rightarrow> IntBuffer list \<Rightarrow> Actor \<Rightarrow> Actor" where
  "a_forward_pass rng inputCs a =
     fold (\<lambda>pos. a_forward pos rng inputCs)
          (positions (fst (a_hiddenSize a)) (fst (snd (a_hiddenSize a)))) a"

text \<open>
  \<open>Actor::learn\<close>. The locals \<open>nextQActionPrev\<close> and \<open>qActionPrev\<close> are declared
  without an initialiser, so they are optional values here; the divisor is
  \<open>std::max(1, _hiddenCounts[hiddenColumnIndex])\<close>.
\<close>

record learn_locals =
  maxActivation :: real
  maxActivationPrev :: real
  nextQActionPrev :: "real option"
  qActionPrev :: "real option"

definition a_learn_targetC :: "Actor \<Rightarrow> IntBuffer \<Rightarrow> Int2 \<Rightarrow> int" where
  "a_learn_targetC a hiddenCsPrev pos = hiddenCsPrev (address2C pos (size_xy (a_hiddenSize a)))"

definition a_learn_divisor :: "Actor \<Rightarrow> Int2 \<Rightarrow> int" where
  "a_learn_divisor a pos = max 1 (a_hiddenCounts a (address2C pos (size_xy (a_hiddenSize a))))"

definition a_learn_sum :: "Actor \<Rightarrow> IntBuffer list \<Rightarrow> Int2 \<Rightarrow> int \<Rightarrow> real" where
  "a_learn_sum a inputCs pos hc =
     a_sum a inputCs (address3C (fst pos, snd pos, hc) (a_hiddenSize a))
       / of_int (a_learn_divisor a pos)"

definition a_learn_hc ::
  "Actor \<Rightarrow> IntBuffer list \<Rightarrow> IntBuffer list \<Rightarrow> Int2 \<Rightarrow> int \<Rightarrow> int \<Rightarrow> learn_locals \<Rightarrow> learn_locals" where
  "a_learn_hc a inputCs inputCsPrev pos targetC hc l =
     (let sum = a_learn_sum a inputCs pos hc;
          sumPrev = a_learn_sum a inputCsPrev pos hc
      in \<lparr>maxActivation = max (maxActivation l) sum,
          maxActivationPrev = max (maxActivationPrev l) sumPrev,
          nextQActionPrev = (if hc = targetC then Some sum else nextQActionPrev l),
          qActionPrev = (if hc = targetC then Some sumPrev else qActionPrev l)\<rparr>)"

definition a_learn_loop ::
  "Actor \<Rightarrow> IntBuffer list \<Rightarrow> IntBuffer list \<Rightarrow> Int2 \<Rightarrow> int \<Rightarrow> learn_locals" where
  "a_learn_loop a inputCs inputCsPrev pos targetC =
     fold (a_learn_hc a inputCs inputCsPrev pos targetC) [0..size_z (a_hiddenSize a) - 1]
       \<lparr>maxActivation = - 999999, maxActivationPrev = - 999999,
        nextQActionPrev = None, qActionPrev = None\<rparr>"

text \<open>The number of loop iterations of \<open>Actor::learn\<close> that take the branch \<open>hc == targetC\<close>.\<close>

definition a_learn_assignments :: "Actor \<Rightarrow> int \<Rightarrow> nat" where
  "a_learn_assignments a targetC =
     length (filter (\<lambda>hc. hc = targetC) [0..size_z (a_hiddenSize a) - 1])"

definition a_learn_delta :: "Actor \<Rightarrow> real \<Rightarrow> real \<Rightarrow> real \<Rightarrow> real \<Rightarrow> real \<Rightarrow> real" where
  "a_learn_delta a reward maxAct maxActPrev nextQ q =
     (let dQ = reward + a_gamma a * maxAct - q;
          dAdv = dQ - a_gap a * (maxActPrev - q);
          dPAL = max dAdv (dQ - a_gap a * (maxAct - nextQ))
      in a_alpha a * dPAL)"

definition a_learn_update :: "Actor \<Rightarrow> IntBuffer list \<Rightarrow> real \<Rightarrow> int \<Rightarrow> ActorVisibleLayer list" where
  "a_learn_update a inputCsPrev delta hiddenIndex =
     fold (\<lambda>vli vls. vls[vli := (vls ! vli)\<lparr>a_weights :=
              deltaOHVs (a_weights (vls ! vli)) (inputCsPrev ! vli) delta hiddenIndex
                (size_z (a_size (a_visibleLayerDescs a ! vli)))\<rparr>])
          [0..<length (a_visibleLayers a)] (a_visibleLayers a)"

definition a_learn ::
  "Int2 \<Rightarrow> 'rng \<Rightarrow> IntBuffer list \<Rightarrow> IntBuffer \<Rightarrow> IntBuffer \<Rightarrow> IntBuffer list \<Rightarrow> Actor \<Rightarrow> fault + Actor" where
  "a_learn pos rng inputCs hiddenCsPrev feedBackCsPrev inputCsPrev a =
     (let hiddenColumnIndex = address2C pos (size_xy (a_hiddenSize a));
          targetC = a_learn_targetC a hiddenCsPrev pos;
          l = a_learn_loop a inputCs inputCsPrev pos targetC;
          hiddenIndex = address3C (fst pos, snd pos, targetC) (a_hiddenSize a);
          reward = (if targetC = feedBackCsPrev hiddenColumnIndex then 1 else 0)
      in case (nextQActionPrev l, qActionPrev l) of
           (Some nextQ, Some q) \<Rightarrow>
             Inr (a\<lparr>a_visibleLayers :=
                    a_learn_update a inputCsPrev
                      (a_learn_delta a reward (maxActivation l) (maxActivationPrev l) nextQ q)
                      hiddenIndex\<rparr>)
         | _ \<Rightarrow> Inl UninitializedRead)"

text \<open>The learn pass of one replay iteration: the kernel at every hidden column.\<close>

fun a_learn_positions ::
  "'rng \<Rightarrow> IntBuffer list \<Rightarrow> IntBuffer \<Rightarrow> IntBuffer \<Rightarrow> IntBuffer list \<Rightarrow> Int2 list \<Rightarrow> Actor \<Rightarrow> fault + Actor" where
  "a_learn_positions rng inputCs hiddenCsPrev feedBackCsPrev inputCsPrev [] a = Inr a"
| "a_learn_positions rng inputCs hiddenCsPrev feedBackCsPrev inputCsPrev (pos # ps) a =
     (case a_learn pos rng inputCs hiddenCsPrev feedBackCsPrev inputCsPrev a of
        Inl e \<Rightarrow> Inl e
      | Inr a' \<Rightarrow> a_learn_positions rng inputCs hiddenCsPrev feedBackCsPrev inputCsPrev ps a')"

definition a_learn_pass ::
  "'rng \<Rightarrow> IntBuffer list \<Rightarrow> IntBuffer \<Rightarrow> IntBuffer \<Rightarrow> IntBuffer list \<Rightarrow> Actor \<Rightarrow> fault + Actor" where
  "a_learn_pass rng inputCs hiddenCsPrev feedBackCsPrev inputCsPrev a =
     a_learn_positions rng inputCs hiddenCsPrev feedBackCsPrev inputCsPrev
       (positions (fst (a_hiddenSize a)) (fst (snd (a_hiddenSize a)))) a"

text \<open>
  \<open>Actor::step\<close>, the history buffer. Once the buffer is full the samples are shifted
  down by one and the former front sample is reused as the last one. The step's CSDRs are
  then copied into the buffers of the sample at position \<open>_historySize - 1\<close>, one column
  at a time; a copy beyond the size of a buffer is a fault.
\<close>

definition a_shift :: "HistorySample list \<Rightarrow> HistorySample list" where
  "a_shift hs =
     (let temp = hd hs;
          hs' = fold (\<lambda>i h. h[i := h ! (i + 1)]) [0..<length hs - 1] hs
      in hs'[length hs - 1 := temp])"

definition a_write_sample ::
  "Actor \<Rightarrow> IntBuffer list \<Rightarrow> IntBuffer \<Rightarrow> IntBuffer \<Rightarrow> HistorySample \<Rightarrow> fault + HistorySample" where
  "a_write_sample a inputCs hiddenCs feedBackCs s =
     (let numHiddenColumns = fst (a_hiddenSize a) * fst (snd (a_hiddenSize a))
      in case fold_fault (\<lambda>vli ics.
                 let vld = a_visibleLayerDescs a ! vli;
                     numVisibleColumns = fst (a_size vld) * fst (snd (a_size vld))
                 in if vli < length (s_inputCs s) \<and> vli < length (s_inputCs_size s)
                    then case copyInts_checked numVisibleColumns (inputCs ! vli)
                                (s_inputCs_size s ! vli) (ics ! vli) of
                           Inl e \<Rightarrow> Inl e
                         | Inr b \<Rightarrow> Inr (ics[vli := b])
                    else Inl OutOfRange)
                [0..<length (a_visibleLayers a)] (s_inputCs s) of
           Inl e \<Rightarrow> Inl e
         | Inr ics \<Rightarrow>
             (case copyInts_checked numHiddenColumns hiddenCs (s_hiddenCs_size s) (s_hiddenCs s) of
                Inl e \<Rightarrow> Inl e
              | Inr hcs \<Rightarrow>
                  (case copyInts_checked numHiddenColumns feedBackCs (s_feedBackCs_size s)
                          (s_feedBackCs s) of
                     Inl e \<Rightarrow> Inl e
                   | Inr fcs \<Rightarrow> Inr (s\<lparr>s_inputCs := ics, s_hiddenCs := hcs, s_feedBackCs := fcs\<rparr>))))"

definition a_add_sample ::
  "IntBuffer list \<Rightarrow> IntBuffer \<Rightarrow> IntBuffer \<Rightarrow> Actor \<Rightarrow> fault + Actor" where
  "a_add_sample inputCs hiddenCs feedBackCs a =
     (if a_historySize a = int (length (a_historySamples a)) \<and> a_historySamples a = []
      then Inl OutOfRange
      else
        let a1 = (if a_historySize a = int (length (a_historySamples a))
                  then a\<lparr>a_historySamples := a_shift (a_historySamples a)\<rparr>
                  else a\<lparr>a_historySize := a_historySize a + 1\<rparr>);
            i = a_historySize a1 - 1
        in if 0 \<le> i \<and> i < int (length (a_historySamples a1))
           then case a_write_sample a1 inputCs hiddenCs feedBackCs (a_historySamples a1 ! nat i) of
                  Inl e \<Rightarrow> Inl e
                | Inr s \<Rightarrow> Inr (a1\<lparr>a_historySamples := (a_historySamples a1)[nat i := s]\<rparr>)
           else Inl OutOfRange)"

text \<open>
  \<open>Actor::initRandom\<close>. The weight matrices (built by \<open>initSMLocalRF\<close>, which is not
  among the sources, and filled from the generator) and the counts read from them are
  parameters, and so is the actor that holds the learning parameters. Every history sample
  gets \<open>_inputCs[vli] = IntBuffer(numVisibleColumns)\<close> and
  \<open>_hiddenCs = IntBuffer(numHiddenColumns)\<close>; its \<open>_feedBackCs\<close> is not assigned and
  stays the empty vector.
\<close>

definition a_initRandom ::
  "Int3 \<Rightarrow> int \<Rightarrow> ActorVisibleLayerDesc list \<Rightarrow> (nat \<Rightarrow> SparseMatrix) \<Rightarrow> IntBuffer \<Rightarrow> Actor \<Rightarrow> Actor" where
  "a_initRandom hiddenSize historyCapacity visibleLayerDescs weights hiddenCounts a =
     (let numHiddenColumns = fst hiddenSize * fst (snd hiddenSize);
          sample = \<lparr>s_inputCs = map (\<lambda>vld. (\<lambda>i. 0)) visibleLayerDescs,
                    s_hiddenCs = (\<lambda>i. 0), s_feedBackCs = (\<lambda>i. 0),
                    s_inputCs_size = map (\<lambda>vld. fst (a_size vld) * fst (snd (a_size vld))) visibleLayerDescs,
                    s_hiddenCs_size = numHiddenColumns, s_feedBackCs_size = 0\<rparr>
      in a\<lparr>a_visibleLayerDescs := visibleLayerDescs, a_hiddenSize := hiddenSize,
           a_visibleLayers := map (\<lambda>vli. \<lparr>a_weights = weights vli\<rparr>) [0..<length visibleLayerDescs],
           a_hiddenCounts := hiddenCounts, a_hiddenCs := (\<lambda>i. 0), a_historySize := 0,
           a_historySamples := replicate (nat historyCapacity) sample\<rparr>)"

text \<open>
  \<open>Actor::step\<close>, the replay. \<open>uniform_int_distribution lo hi\<close> stands for
  \<open>std::uniform_int_distribution<int>(lo, hi)\<close>: called on the generator, it returns the
  index drawn and the generator advanced. The distribution \<open>sampleDist\<close> is built once,
  before the loop. The kernel call binds \<open>inputCs\<close> to \<open>s._inputCs\<close>,
  \<open>hiddenCsPrev\<close> to \<open>&s._hiddenCs\<close>, \<open>feedBackCsPrev\<close> to \<open>&s._feedBackCs\<close> and
  \<open>inputCsPrev\<close> to \<open>sPrev._inputCs\<close>, where \<open>s\<close> is sample \<open>t + 1\<close> and
  \<open>sPrev\<close> is sample \<open>t\<close>.
\<close>

definition a_replay_args ::
  "Actor \<Rightarrow> int \<Rightarrow> IntBuffer list \<times> IntBuffer \<times> IntBuffer \<times> IntBuffer list" where
  "a_replay_args a t =
     (let s = a_historySamples a ! nat (t + 1);
          sPrev = a_historySamples a ! nat t
      in (s_inputCs s, s_hiddenCs s, s_feedBackCs s, s_inputCs sPrev))"

definition a_replay :: "'rng \<Rightarrow> int \<Rightarrow> Actor \<Rightarrow> fault + Actor" where
  "a_replay rng t a =
     (if 0 \<le> t \<and> t + 1 < int (length (a_historySamples a))
      then case a_replay_args a t of
             (inputCs, hiddenCsPrev, feedBackCsPrev, inputCsPrev) \<Rightarrow>
               a_learn_pass rng inputCs hiddenCsPrev feedBackCsPrev inputCsPrev a
      else Inl OutOfRange)"

text \<open>The target action code of the learn kernel in the replay of transition \<open>t\<close>.\<close>

definition a_replay_targetC :: "Actor \<Rightarrow> int \<Rightarrow> Int2 \<Rightarrow> int" where
  "a_replay_targetC a t pos =
     (case a_replay_args a t of
        (inputCs, hiddenCsPrev, feedBackCsPrev, inputCsPrev) \<Rightarrow>
          a_learn_targetC a hiddenCsPrev pos)"

text \<open>
  The replay loop \<open>for (int it = 0; it < _historyIters; it++)\<close>: each round draws
  \<open>t\<close> with \<open>sampleDist(rng)\<close> and runs the learn pass of transition \<open>t\<close>.
\<close>

fun a_replay_loop ::
  "('rng \<Rightarrow> int \<times> 'rng) \<Rightarrow> nat \<Rightarrow> 'rng \<Rightarrow> Actor \<Rightarrow> fault + 'rng \<times> Actor" where
  "a_replay_loop sampleDist 0 rng a = Inr (rng, a)"
| "a_replay_loop sampleDist (Suc n) rng a =
     (case sampleDist rng of
        (t, rng') \<Rightarrow>
          (case a_replay rng' t a of
             Inl e \<Rightarrow> Inl e
           | Inr a' \<Rightarrow> a_replay_loop sampleDist n rng' a'))"

definition a_step ::
  "(int \<Rightarrow> int \<Rightarrow> 'rng \<Rightarrow> int \<times> 'rng) \<Rightarrow> 'rng \<Rightarrow> IntBuffer list \<Rightarrow> IntBuffer \<Rightarrow> IntBuffer \<Rightarrow> bool
     \<Rightarrow> Actor \<Rightarrow> fault + 'rng \<times> Actor" where
  "a_step uniform_int_distribution rng inputCs hiddenCs feedBackCs learnEnabled a =
     (case a_add_sample inputCs hiddenCs feedBackCs (a_forward_pass rng inputCs a) of
        Inl e \<Rightarrow> Inl e
      | Inr a2 \<Rightarrow>
          if learnEnabled \<and> a_historySize a2 > 2
          then let sampleDist = uniform_int_distribution 0 (a_historySize a2 - 2)
               in a_replay_loop sampleDist (nat (a_historyIters a2)) rng a2
          else Inr (rng, a2))"

section \<open>The sparse coder\<close>

record CoderVisibleLayerDesc =
  sc_size :: Int3
  sc_radius :: int

record CoderVisibleLayer =
  sc_weights :: FloatBuffer
  sc_reconCs :: IntBuffer
  sc_visibleToHidden :: Float2
  sc_hiddenToVisible :: Float2
  sc_reverseRadii :: Int2

record SparseCoder =
  sc_hiddenSize :: Int3
  sc_hiddenCs :: IntBuffer
  sc_hiddenActivations :: FloatBuffer
  sc_visibleLayers :: "CoderVisibleLayer list"
  sc_visibleLayerDescs :: "CoderVisibleLayerDesc list"
  sc_alpha :: real
  sc_explainIters :: int

text \<open>
  The positions of a nested loop
  \<open>for (x = lower.x; x <= upper.x; x++) for (y = lower.y; y <= upper.y; y++)\<close>.
\<close>

definition box :: "Int2 \<Rightarrow> Int2 \<Rightarrow> Int2 list" where
  "box lower upper =
     concat (map (\<lambda>x. map (\<lambda>y. (x, y)) [snd lower..snd upper]) [fst lower..fst upper])"

text \<open>
  \<open>SparseCoder::forward\<close>. The receptive field of the hidden column \<open>pos\<close> in layer
  \<open>vli\<close>, clamped to the visible grid, and the support the weights of hidden cell
  \<open>(pos, hc)\<close> give to the codes \<open>cs\<close> found there: the kernel accumulates
  \<open>inputActivation\<close> with the input codes and \<open>reconActivation\<close> with the
  reconstruction codes in the same loops.
\<close>

definition sc_fieldLowerBound :: "SparseCoder \<Rightarrow> nat \<Rightarrow> Int2 \<Rightarrow> Int2" where
  "sc_fieldLowerBound sc vli pos =
     (let visiblePositionCenter = project pos (sc_hiddenToVisible (sc_visibleLayers sc ! vli));
          r = sc_radius (sc_visibleLayerDescs sc ! vli)
      in (fst visiblePositionCenter - r, snd visiblePositionCenter - r))"

definition sc_field :: "SparseCoder \<Rightarrow> nat \<Rightarrow> Int2 \<Rightarrow> Int2 list" where
  "sc_field sc vli pos =
     (let vld = sc_visibleLayerDescs sc ! vli;
          visiblePositionCenter = project pos (sc_hiddenToVisible (sc_visibleLayers sc ! vli));
          fieldLowerBound = sc_fieldLowerBound sc vli pos;
          iterLowerBound = (max 0 (fst fieldLowerBound), max 0 (snd fieldLowerBound));
          iterUpperBound = (min (fst (sc_size vld) - 1) (fst visiblePositionCenter + sc_radius vld),
                            min (fst (snd (sc_size vld)) - 1) (snd visiblePositionCenter + sc_radius vld))
      in box iterLowerBound iterUpperBound)"

definition sc_support :: "SparseCoder \<Rightarrow> (nat \<Rightarrow> IntBuffer) \<Rightarrow> Int2 \<Rightarrow> int \<Rightarrow> real" where
  "sc_support sc cs pos hc =
     (let dxy = fst (sc_hiddenSize sc) * fst (snd (sc_hiddenSize sc));
          dxyz = dxy * size_z (sc_hiddenSize sc);
          dPartial = fst pos + snd pos * fst (sc_hiddenSize sc) + hc * dxy
      in fold (\<lambda>vli acc.
           let vld = sc_visibleLayerDescs sc ! vli;
               fieldLowerBound = sc_fieldLowerBound sc vli pos;
               diam = sc_radius vld * 2 + 1;
               diam2 = diam * diam
           in fold (\<lambda>visiblePosition acc.
                let visibleIndex = address2 visiblePosition (fst (sc_size vld));
                    visibleC = cs vli visibleIndex;
                    az = fst visiblePosition - fst fieldLowerBound
                           + (snd visiblePosition - snd fieldLowerBound) * diam + visibleC * diam2
                in acc + sc_weights (sc_visibleLayers sc ! vli) (dPartial + az * dxyz))
              (sc_field sc vli pos) acc)
         [0..<length (sc_visibleLayers sc)] 0)"

definition sc_inputActivation :: "SparseCoder \<Rightarrow> IntBuffer list \<Rightarrow> Int2 \<Rightarrow> int \<Rightarrow> real" where
  "sc_inputActivation sc inputCs pos hc = sc_support sc (\<lambda>vli. inputCs ! vli) pos hc"

definition sc_reconActivation :: "SparseCoder \<Rightarrow> bool \<Rightarrow> Int2 \<Rightarrow> int \<Rightarrow> real" where
  "sc_reconActivation sc firstIter pos hc =
     (if firstIter then 0
      else sc_support sc (\<lambda>vli. sc_reconCs (sc_visibleLayers sc ! vli)) pos hc)"

definition sc_forward_hc ::
  "SparseCoder \<Rightarrow> IntBuffer list \<Rightarrow> Int2 \<Rightarrow> bool \<Rightarrow> int
     \<Rightarrow> FloatBuffer \<times> int \<times> real \<Rightarrow> FloatBuffer \<times> int \<times> real" where
  "sc_forward_hc sc inputCs pos firstIter hc st =
     (case st of (hiddenActivations, maxIndex, maxValue) \<Rightarrow>
        let inputActivation = sc_inputActivation sc inputCs pos hc;
            reconActivation = sc_reconActivation sc firstIter pos hc;
            hiddenIndex = address3 (fst pos, snd pos, hc) (size_xy (sc_hiddenSize sc));
            activation = (if firstIter then inputActivation
                          else hiddenActivations hiddenIndex + (inputActivation - reconActivation));
            hiddenActivations' = hiddenActivations(hiddenIndex := activation)
        in if activation > maxValue then (hiddenActivations', hc, activation)
           else (hiddenActivations', maxIndex, maxValue))"

definition sc_forward :: "Int2 \<Rightarrow> 'rng \<Rightarrow> IntBuffer list \<Rightarrow> bool \<Rightarrow> SparseCoder \<Rightarrow> SparseCoder" where
  "sc_forward pos rng inputCs firstIter sc =
     (case fold (sc_forward_hc sc inputCs pos firstIter) [0..size_z (sc_hiddenSize sc) - 1]
             (sc_hiddenActivations sc, 0, - 999999) of
        (hiddenActivations, maxIndex, maxValue) \<Rightarrow>
          sc\<lparr>sc_hiddenActivations := hiddenActivations,
             sc_hiddenCs := (sc_hiddenCs sc)(address2 pos (fst (sc_hiddenSize sc)) := maxIndex)\<rparr>)"

text \<open>
  \<open>SparseCoder::backward\<close> and \<open>SparseCoder::learn\<close> visit, for the visible column
  \<open>pos\<close> of layer \<open>vli\<close>, the hidden columns within the reverse radii whose receptive
  field contains \<open>pos\<close>; \<open>sc_wAddr\<close> is the address of the weight between the visible
  cell \<open>(pos, vc)\<close> and the active cell of the hidden column, and \<open>sc_divisor\<close> is
  \<open>std::max(1.0f, count)\<close>.
\<close>

definition sc_contains :: "SparseCoder \<Rightarrow> nat \<Rightarrow> Int2 \<Rightarrow> Int2 \<Rightarrow> bool" where
  "sc_contains sc vli pos hiddenPosition =
     (let vld = sc_visibleLayerDescs sc ! vli;
          visibleFieldCenter = project hiddenPosition (sc_hiddenToVisible (sc_visibleLayers sc ! vli));
          fieldLowerBound = (fst visibleFieldCenter - sc_radius vld, snd visibleFieldCenter - sc_radius vld);
          fieldUpperBound = (fst visibleFieldCenter + sc_radius vld + 1,
                             snd visibleFieldCenter + sc_radius vld + 1)
      in inBounds pos fieldLowerBound fieldUpperBound)"

definition sc_window :: "SparseCoder \<Rightarrow> nat \<Rightarrow> Int2 \<Rightarrow> Int2 list" where
  "sc_window sc vli pos =
     (let vl = sc_visibleLayers sc ! vli;
          hiddenPositionCenter = project pos (sc_visibleToHidden vl);
          iterLowerBound = (max 0 (fst hiddenPositionCenter - fst (sc_reverseRadii vl)),
                            max 0 (snd hiddenPositionCenter - snd (sc_reverseRadii vl)));
          iterUpperBound = (min (fst (sc_hiddenSize sc) - 1) (fst hiddenPositionCenter + fst (sc_reverseRadii vl)),
                            min (fst (snd (sc_hiddenSize sc)) - 1) (snd hiddenPositionCenter + snd (sc_reverseRadii vl)))
      in box iterLowerBound iterUpperBound)"

definition sc_covering :: "SparseCoder \<Rightarrow> nat \<Rightarrow> Int2 \<Rightarrow> Int2 list" where
  "sc_covering sc vli pos = filter (sc_contains sc vli pos) (sc_window sc vli pos)"

definition sc_wAddr :: "SparseCoder \<Rightarrow> nat \<Rightarrow> Int2 \<Rightarrow> int \<Rightarrow> Int2 \<Rightarrow> int" where
  "sc_wAddr sc vli pos vc hiddenPosition =
     (let vld = sc_visibleLayerDescs sc ! vli;
          diam = sc_radius vld * 2 + 1;
          diam2 = diam * diam;
          fieldLowerBound = sc_fieldLowerBound sc vli hiddenPosition;
          hiddenC = sc_hiddenCs sc (address2 hiddenPosition (fst (sc_hiddenSize sc)))
      in address4 (fst hiddenPosition, snd hiddenPosition, hiddenC,
                   fst pos - fst fieldLowerBound + (snd pos - snd fieldLowerBound) * diam + vc * diam2)
           (sc_hiddenSize sc))"

definition sc_sum :: "SparseCoder \<Rightarrow> nat \<Rightarrow> Int2 \<Rightarrow> int \<Rightarrow> FloatBuffer \<Rightarrow> real" where
  "sc_sum sc vli pos vc weights =
     fold (\<lambda>hiddenPosition sum. sum + weights (sc_wAddr sc vli pos vc hiddenPosition))
       (sc_covering sc vli pos) 0"

definition sc_count :: "SparseCoder \<Rightarrow> nat \<Rightarrow> Int2 \<Rightarrow> real" where
  "sc_count sc vli pos = fold (\<lambda>hiddenPosition count. count + 1) (sc_covering sc vli pos) 0"

definition sc_divisor :: "SparseCoder \<Rightarrow> nat \<Rightarrow> Int2 \<Rightarrow> real" where
  "sc_divisor sc vli pos = max 1 (sc_count sc vli pos)"

definition sc_avg :: "SparseCoder \<Rightarrow> nat \<Rightarrow> Int2 \<Rightarrow> int \<Rightarrow> FloatBuffer \<Rightarrow> real" where
  "sc_avg sc vli pos vc weights = sc_sum sc vli pos vc weights / sc_divisor sc vli pos"

definition sc_backward_vc :: "SparseCoder \<Rightarrow> nat \<Rightarrow> Int2 \<Rightarrow> int \<Rightarrow> real \<times> int \<Rightarrow> real \<times> int" where
  "sc_backward_vc sc vli pos vc st =
     (case st of (maxValue, maxIndex) \<Rightarrow>
        let sum = sc_avg sc vli pos vc (sc_weights (sc_visibleLayers sc ! vli))
        in if sum > maxValue then (sum, vc) else (maxValue, maxIndex))"

definition sc_backward :: "Int2 \<Rightarrow> 'rng \<Rightarrow> IntBuffer list \<Rightarrow> nat \<Rightarrow> SparseCoder \<Rightarrow> SparseCoder" where
  "sc_backward pos rng inputCs vli sc =
     (let vl = sc_visibleLayers sc ! vli;
          vld = sc_visibleLayerDescs sc ! vli;
          maxIndex = snd (fold (sc_backward_vc sc vli pos) [0..size_z (sc_size vld) - 1] (- 999999, 0))
      in sc\<lparr>sc_visibleLayers := (sc_visibleLayers sc)
             [vli := vl\<lparr>sc_reconCs := (sc_reconCs vl)(address2 pos (fst (sc_size vld)) := maxIndex)\<rparr>]\<rparr>)"

definition sc_learn_vc ::
  "SparseCoder \<Rightarrow> nat \<Rightarrow> Int2 \<Rightarrow> int \<Rightarrow> int \<Rightarrow> FloatBuffer \<Rightarrow> FloatBuffer" where
  "sc_learn_vc sc vli pos inputC vc weights =
     (let target = (if vc = inputC then 1 else 0);
          delta = sc_alpha sc * (target - sc_avg sc vli pos vc weights)
      in fold (\<lambda>hiddenPosition w.
                 w(sc_wAddr sc vli pos vc hiddenPosition :=
                     w (sc_wAddr sc vli pos vc hiddenPosition) + delta))
           (sc_covering sc vli pos) weights)"

definition sc_learn :: "Int2 \<Rightarrow> 'rng \<Rightarrow> IntBuffer list \<Rightarrow> nat \<Rightarrow> SparseCoder \<Rightarrow> SparseCoder" where
  "sc_learn pos rng inputCs vli sc =
     (let vl = sc_visibleLayers sc ! vli;
          vld = sc_visibleLayerDescs sc ! vli;
          visibleIndex = address2 pos (fst (sc_size vld));
          inputC = (inputCs ! vli) visibleIndex
      in sc\<lparr>sc_visibleLayers := (sc_visibleLayers sc)
             [vli := vl\<lparr>sc_weights :=
                fold (sc_learn_vc sc vli pos inputC) [0..size_z (sc_size vld) - 1] (sc_weights vl)\<rparr>]\<rparr>)"

text \<open>\<open>SparseCoder::activate\<close> and the learn pass \<open>SparseCoder::learn\<close>.\<close>

definition sc_forward_pass :: "'rng \<Rightarrow> IntBuffer list \<Rightarrow> bool \<Rightarrow> SparseCoder \<Rightarrow> SparseCoder" where
  "sc_forward_pass rng visibleCs firstIter sc =
     fold (\<lambda>pos. sc_forward pos rng visibleCs firstIter)
       (positions (fst (sc_hiddenSize sc)) (fst (snd (sc_hiddenSize sc)))) sc"

definition sc_backward_pass :: "'rng \<Rightarrow> IntBuffer list \<Rightarrow> nat \<Rightarrow> SparseCoder \<Rightarrow> SparseCoder" where
  "sc_backward_pass rng visibleCs vli sc =
     (let vld = sc_visibleLayerDescs sc ! vli
      in fold (\<lambda>pos. sc_backward pos rng visibleCs vli)
           (positions (fst (sc_size vld)) (fst (snd (sc_size vld)))) sc)"

definition sc_iteration :: "'rng \<Rightarrow> IntBuffer list \<Rightarrow> bool \<Rightarrow> SparseCoder \<Rightarrow> SparseCoder" where
  "sc_iteration rng visibleCs firstIter sc =
     fold (sc_backward_pass rng visibleCs) [0..<length (sc_visibleLayers sc)]
       (sc_forward_pass rng visibleCs firstIter sc)"

definition sc_activate :: "'rng \<Rightarrow> IntBuffer list \<Rightarrow> SparseCoder \<Rightarrow> SparseCoder" where
  "sc_activate rng visibleCs sc =
     fold (\<lambda>it. sc_iteration rng visibleCs (it = 0)) [0..sc_explainIters sc - 1] sc"

definition sc_learn_pass :: "'rng \<Rightarrow> IntBuffer list \<Rightarrow> nat \<Rightarrow> SparseCoder \<Rightarrow> SparseCoder" where
  "sc_learn_pass rng visibleCs vli sc =
     (let vld = sc_visibleLayerDescs sc ! vli
      in fold (\<lambda>pos. sc_learn pos rng visibleCs vli)
           (positions (fst (sc_size vld)) (fst (snd (sc_size vld)))) sc)"

definition sc_learn_all :: "'rng \<Rightarrow> IntBuffer list \<Rightarrow> SparseCoder \<Rightarrow> SparseCoder" where
  "sc_learn_all rng visibleCs sc =
     fold (sc_learn_pass rng visibleCs) [0..<length (sc_visibleLayers sc)] sc"

text \<open>
  The forward kernel read column by column: \<open>sc_activation\<close> is the value written for
  the cell \<open>(pos, hc)\<close> given the old one, \<open>sc_forward_acts\<close> the activation buffer the
  kernel leaves, \<open>sc_forward_maxIndex\<close> the code it writes for the column.
\<close>

definition sc_activation :: "SparseCoder \<Rightarrow> IntBuffer list \<Rightarrow> bool \<Rightarrow> Int2 \<Rightarrow> int \<Rightarrow> real \<Rightarrow> real" where
  "sc_activation sc inputCs firstIter pos hc old =
     (if firstIter then sc_inputActivation sc inputCs pos hc
      else old + (sc_inputActivation sc inputCs pos hc - sc_reconActivation sc firstIter pos hc))"

definition sc_forward_acts :: "SparseCoder \<Rightarrow> IntBuffer list \<Rightarrow> bool \<Rightarrow> Int2 \<Rightarrow> FloatBuffer \<Rightarrow> FloatBuffer" where
  "sc_forward_acts sc inputCs firstIter pos acts =
     fold (\<lambda>hc h. h(address3 (fst pos, snd pos, hc) (size_xy (sc_hiddenSize sc)) :=
                      sc_activation sc inputCs firstIter pos hc
                        (h (address3 (fst pos, snd pos, hc) (size_xy (sc_hiddenSize sc))))))
       [0..size_z (sc_hiddenSize sc) - 1] acts"

definition sc_forward_maxIndex :: "SparseCoder \<Rightarrow> IntBuffer list \<Rightarrow> bool \<Rightarrow> Int2 \<Rightarrow> int" where
  "sc_forward_maxIndex sc inputCs firstIter pos =
     fst (snd (fold (sc_forward_hc sc inputCs pos firstIter) [0..size_z (sc_hiddenSize sc) - 1]
             (sc_hiddenActivations sc, 0, - 999999)))"

text \<open>
  The geometry of the coder (fields, windows, weight addresses) does not read the weights:
  replacing the weights of a layer leaves it unchanged.
\<close>

definition sc_set_weights :: "SparseCoder \<Rightarrow> nat \<Rightarrow> FloatBuffer \<Rightarrow> SparseCoder" where
  "sc_set_weights sc vli w =
     sc\<lparr>sc_visibleLayers := (sc_visibleLayers sc)[vli := (sc_visibleLayers sc ! vli)\<lparr>sc_weights := w\<rparr>]\<rparr>"

text \<open>
  The learn kernel read on the weights of its layer: \<open>sc_learn_weights\<close> is the weight
  buffer the kernel at \<open>pos\<close> leaves, \<open>sc_learn_delta\<close> the delta of the visible cell
  \<open>k = (pos, vc)\<close> on the weights \<open>w\<close>, and \<open>sc_learn_addrs\<close> the addresses it is
  added to.
\<close>

definition sc_learn_weights :: "SparseCoder \<Rightarrow> IntBuffer list \<Rightarrow> nat \<Rightarrow> Int2 \<Rightarrow> FloatBuffer \<Rightarrow> FloatBuffer" where
  "sc_learn_weights sc inputCs vli pos w =
     fold (sc_learn_vc sc vli pos
             ((inputCs ! vli) (address2 pos (fst (sc_size (sc_visibleLayerDescs sc ! vli))))))
       [0..size_z (sc_size (sc_visibleLayerDescs sc ! vli)) - 1] w"

definition sc_learn_delta :: "SparseCoder \<Rightarrow> IntBuffer list \<Rightarrow> nat \<Rightarrow> Int2 \<times> int \<Rightarrow> FloatBuffer \<Rightarrow> real" where
  "sc_learn_delta sc inputCs vli k w =
     sc_alpha sc *
       ((if snd k = (inputCs ! vli) (address2 (fst k) (fst (sc_size (sc_visibleLayerDescs sc ! vli))))
         then 1 else 0)
        - sc_avg sc vli (fst k) (snd k) w)"

definition sc_learn_addrs :: "SparseCoder \<Rightarrow> nat \<Rightarrow> Int2 \<times> int \<Rightarrow> int list" where
  "sc_learn_addrs sc vli k = map (sc_wAddr sc vli (fst k) (snd k)) (sc_covering sc vli (fst k))"

text \<open>
  The copies of a step read on a sample: \<open>copy_fits n dstSize\<close> says that the loop
  copying \<open>n\<close> elements stays inside a buffer of size \<open>dstSize\<close>, \<open>a_sample_allocated\<close> that
  every copy of a step into the sample does, and \<open>a_written_sample\<close> is the sample the
  copies leave then.
\<close>

definition copy_fits :: "int \<Rightarrow> int \<Rightarrow> bool" where
  "copy_fits n dstSize = (n \<le> 0 \<or> n \<le> dstSize)"

definition a_sample_allocated :: "Actor \<Rightarrow> HistorySample \<Rightarrow> bool" where
  "a_sample_allocated a s =
     (length (a_visibleLayers a) \<le> length (s_inputCs s)
      \<and> length (a_visibleLayers a) \<le> length (s_inputCs_size s)
      \<and> (\<forall>vli \<in> set [0..<length (a_visibleLayers a)].
            copy_fits (fst (a_size (a_visibleLayerDescs a ! vli)) * fst (snd (a_size (a_visibleLayerDescs a ! vli))))
              (s_inputCs_size s ! vli))
      \<and> copy_fits (fst (a_hiddenSize a) * fst (snd (a_hiddenSize a))) (s_hiddenCs_size s)
      \<and> copy_fits (fst (a_hiddenSize a) * fst (snd (a_hiddenSize a))) (s_feedBackCs_size s))"

definition a_written_sample ::
  "Actor \<Rightarrow> IntBuffer list \<Rightarrow> IntBuffer \<Rightarrow> IntBuffer \<Rightarrow> HistorySample \<Rightarrow> HistorySample" where
  "a_written_sample a inputCs hiddenCs feedBackCs s =
     (let numHiddenColumns = fst (a_hiddenSize a) * fst (snd (a_hiddenSize a))
      in s\<lparr>s_inputCs :=
            fold (\<lambda>vli ics.
                    let vld = a_visibleLayerDescs a ! vli;
                        numVisibleColumns = fst (a_size vld) * fst (snd (a_size vld))
                    in ics[vli := copyInts numVisibleColumns (inputCs ! vli) (ics ! vli)])
                 [0..<length (a_visibleLayers a)] (s_inputCs s),
           s_hiddenCs := copyInts numHiddenColumns hiddenCs (s_hiddenCs s),
           s_feedBackCs := copyInts numHiddenColumns feedBackCs (s_feedBackCs s)\<rparr>)"

text \<open>
  A run of the actor: \<open>Actor::step\<close> called on each element of a list of
  \<open>(inputCs, hiddenCs, feedBackCs, learnEnabled)\<close> in turn, the generator threaded through.
\<close>

fun a_steps ::
  "(int \<Rightarrow> int \<Rightarrow> 'rng \<Rightarrow> int \<times> 'rng) \<Rightarrow> 'rng
     \<Rightarrow> (IntBuffer list \<times> IntBuffer \<times> IntBuffer \<times> bool) list \<Rightarrow> Actor \<Rightarrow> fault + 'rng \<times> Actor" where
  "a_steps uniform_int_distribution rng [] a = Inr (rng, a)"
| "a_steps uniform_int_distribution rng (st # sts) a =
     (case st of (inputCs, hiddenCs, feedBackCs, learnEnabled) \<Rightarrow>
        (case a_step uniform_int_distribution rng inputCs hiddenCs feedBackCs learnEnabled a of
           Inl e \<Rightarrow> Inl e
         | Inr (rng', a') \<Rightarrow> a_steps uniform_int_distribution rng' sts a'))"

text \<open>
  A history sample holds a step when it agrees with the step's input, hidden and
  feedback CSDRs on every column.
\<close>

definition sample_holds ::
  "Actor \<Rightarrow> HistorySample \<Rightarrow> IntBuffer list \<times> IntBuffer \<times> IntBuffer \<times> bool \<Rightarrow> bool" where
  "sample_holds a s st =
     (case st of (inputCs, hiddenCs, feedBackCs, learnEnabled) \<Rightarrow>
        (\<forall>x \<in> set [0..fst (a_hiddenSize a) * fst (snd (a_hiddenSize a)) - 1].
            s_hiddenCs s x = hiddenCs x \<and> s_feedBackCs s x = feedBackCs x)
        \<and> (\<forall>vli \<in> set [0..<length (a_visibleLayers a)].
             \<forall>x \<in> set [0..fst (a_size (a_visibleLayerDescs a ! vli))
                               * fst (snd (a_size (a_visibleLayerDescs a ! vli))) - 1].
               (s_inputCs s ! vli) x = (inputCs ! vli) x))"

text \<open>
  The invariant of a run from \<open>a0\<close> that has consumed the steps \<open>pre\<close>: sizes and
  capacity are those of \<open>a0\<close>, every sample is allocated, the number of valid samples is
  \<open>min (length pre) capacity\<close>, and valid sample \<open>j\<close> holds the \<open>j\<close>-th of the last
  steps of \<open>pre\<close>.
\<close>

definition hist_inv ::
  "Actor \<Rightarrow> Actor \<Rightarrow> (IntBuffer list \<times> IntBuffer \<times> IntBuffer \<times> bool) list \<Rightarrow> bool" where
  "hist_inv a0 a pre =
     (a_hiddenSize a = a_hiddenSize a0 \<and> a_visibleLayerDescs a = a_visibleLayerDescs a0
      \<and> length (a_visibleLayers a) = length (a_visibleLayers a0)
      \<and> length (a_historySamples a) = length (a_historySamples a0)
      \<and> (\<forall>s \<in> set (a_historySamples a). length (s_inputCs s) = length (a_visibleLayers a0))
      \<and> (\<forall>s \<in> set (a_historySamples a). a_sample_allocated a0 s)
      \<and> a_historySize a = int (min (length pre) (length (a_historySamples a0)))
      \<and> (\<forall>j < min (length pre) (length (a_historySamples a0)).
            sample_holds a0 (a_historySamples a ! j)
              (pre ! (length pre - min (length pre) (length (a_historySamples a0)) + j))))"

text \<open>
  The replay in the spec's words: repeat \<open>historyIters\<close> times, draw an index \<open>t\<close>, let
  \<open>sPrev = history[t]\<close> and \<open>s = history[t+1]\<close>, and run the learn update on the
  transition from \<open>sPrev\<close> to \<open>s\<close>. \<open>a_draws\<close> lists the successive draws with the
  generator each one leaves; \<open>a_learn_transition\<close> is the learn pass on a transition, with
  the arguments bound as \<open>Actor::step\<close> binds them.
\<close>

fun a_draws :: "('rng \<Rightarrow> int \<times> 'rng) \<Rightarrow> nat \<Rightarrow> 'rng \<Rightarrow> (int \<times> 'rng) list" where
  "a_draws sampleDist 0 rng = []"
| "a_draws sampleDist (Suc n) rng =
     (case sampleDist rng of (t, rng') \<Rightarrow> (t, rng') # a_draws sampleDist n rng')"

definition a_learn_transition :: "'rng \<Rightarrow> HistorySample \<Rightarrow> HistorySample \<Rightarrow> Actor \<Rightarrow> fault + Actor" where
  "a_learn_transition rng sPrev s a =
     a_learn_pass rng (s_inputCs s) (s_hiddenCs s) (s_feedBackCs s) (s_inputCs sPrev) a"

fun spec_replay :: "HistorySample list \<Rightarrow> (int \<times> 'rng) list \<Rightarrow> Actor \<Rightarrow> fault + Actor" where
  "spec_replay history [] a = Inr a"
| "spec_replay history ((t, rng) # draws) a =
     (case a_learn_transition rng (history ! nat t) (history ! nat (t + 1)) a of
        Inl e \<Rightarrow> Inl e
      | Inr a' \<Rightarrow> spec_replay history draws a')"

text \<open>
  A CSDR buffer is in range over a grid when every column of the grid holds a code in
  \<open>[0, depth)\<close>; \<open>addr\<close> flattens a column position.
\<close>

definition csdr_in_range :: "IntBuffer \<Rightarrow> (Int2 \<Rightarrow> int) \<Rightarrow> Int3 \<Rightarrow> bool" where
  "csdr_in_range cs addr size3 =
     (\<forall>pos \<in> set (positions (fst size3) (fst (snd size3))).
        0 \<le> cs (addr pos) \<and> cs (addr pos) < size_z size3)"

section \<open>Kernels with fallible division\<close>

text \<open>
  The kernels once more, with every division made fallible: \<open>divide_checked\<close> is the
  division of the source, a fault when the divisor is zero. The divisor of the coder's
  averages is \<open>std::max(1.0f, count)\<close> (\<open>sc_divisor\<close>), the divisor of the actor's
  learn kernel is \<open>std::max(1, _hiddenCounts[hiddenColumnIndex])\<close>
  (\<open>a_learn_divisor\<close>). The forward kernels contain no division.
\<close>

definition divide_checked :: "real \<Rightarrow> real \<Rightarrow> fault + real" where
  "divide_checked x d = (if d = 0 then Inl DivisionByZero else Inr (x / d))"

definition sc_avg_checked :: "SparseCoder \<Rightarrow> nat \<Rightarrow> Int2 \<Rightarrow> int \<Rightarrow> FloatBuffer \<Rightarrow> fault + real" where
  "sc_avg_checked sc vli pos vc weights =
     divide_checked (sc_sum sc vli pos vc weights) (sc_divisor sc vli pos)"

definition sc_backward_vc_checked ::
  "SparseCoder \<Rightarrow> nat \<Rightarrow> Int2 \<Rightarrow> int \<Rightarrow> real \<times> int \<Rightarrow> fault + real \<times> int" where
  "sc_backward_vc_checked sc vli pos vc st =
     (case st of (maxValue, maxIndex) \<Rightarrow>
        (case sc_avg_checked sc vli pos vc (sc_weights (sc_visibleLayers sc ! vli)) of
           Inl e \<Rightarrow> Inl e
         | Inr sumNow \<Rightarrow> Inr (if sumNow > maxValue then (sumNow, vc) else (maxValue, maxIndex))))"

definition sc_backward_checked ::
  "Int2 \<Rightarrow> 'rng \<Rightarrow> IntBuffer list \<Rightarrow> nat \<Rightarrow> SparseCoder \<Rightarrow> fault + SparseCoder" where
  "sc_backward_checked pos rng inputCs vli sc =
     (let vl = sc_visibleLayers sc ! vli;
          vld = sc_visibleLayerDescs sc ! vli
      in case fold_fault (sc_backward_vc_checked sc vli pos) [0..size_z (sc_size vld) - 1] (- 999999, 0) of
           Inl e \<Rightarrow> Inl e
         | Inr st \<Rightarrow>
             Inr (sc\<lparr>sc_visibleLayers := (sc_visibleLayers sc)
                    [vli := vl\<lparr>sc_reconCs := (sc_reconCs vl)(address2 pos (fst (sc_size vld)) := snd st)\<rparr>]\<rparr>))"

definition sc_backward_pass_checked ::
  "'rng \<Rightarrow> IntBuffer list \<Rightarrow> nat \<Rightarrow> SparseCoder \<Rightarrow> fault + SparseCoder" where
  "sc_backward_pass_checked rng visibleCs vli sc =
     (let vld = sc_visibleLayerDescs sc ! vli
      in fold_fault (\<lambda>pos. sc_backward_checked pos rng visibleCs vli)
           (positions (fst (sc_size vld)) (fst (snd (sc_size vld)))) sc)"

definition sc_learn_vc_checked ::
  "SparseCoder \<Rightarrow> nat \<Rightarrow> Int2 \<Rightarrow> int \<Rightarrow> int \<Rightarrow> FloatBuffer \<Rightarrow> fault + FloatBuffer" where
  "sc_learn_vc_checked sc vli pos inputC vc weights =
     (let target = (if vc = inputC then 1 else 0)
      in case sc_avg_checked sc vli pos vc weights of
           Inl e \<Rightarrow> Inl e
         | Inr avg \<Rightarrow>
             Inr (let delta = sc_alpha sc * (target - avg)
                  in fold (\<lambda>hiddenPosition w.
                             w(sc_wAddr sc vli pos vc hiddenPosition :=
                                 w (sc_wAddr sc vli pos vc hiddenPosition) + delta))
                       (sc_covering sc vli pos) weights))"

definition sc_learn_checked ::
  "Int2 \<Rightarrow> 'rng \<Rightarrow> IntBuffer list \<Rightarrow> nat \<Rightarrow> SparseCoder \<Rightarrow> fault + SparseCoder" where
  "sc_learn_checked pos rng inputCs vli sc =
     (let vl = sc_visibleLayers sc ! vli;
          vld = sc_visibleLayerDescs sc ! vli;
          visibleIndex = address2 pos (fst (sc_size vld));
          inputC = (inputCs ! vli) visibleIndex
      in case fold_fault (sc_learn_vc_checked sc vli pos inputC) [0..size_z (sc_size vld) - 1]
                (sc_weights vl) of
           Inl e \<Rightarrow> Inl e
         | Inr w \<Rightarrow> Inr (sc\<lparr>sc_visibleLayers := (sc_visibleLayers sc)[vli := vl\<lparr>sc_weights := w\<rparr>]\<rparr>))"

definition sc_learn_pass_checked ::
  "'rng \<Rightarrow> IntBuffer list \<Rightarrow> nat \<Rightarrow> SparseCoder \<Rightarrow> fault + SparseCoder" where
  "sc_learn_pass_checked rng visibleCs vli sc =
     (let vld = sc_visibleLayerDescs sc ! vli
      in fold_fault (\<lambda>pos. sc_learn_checked pos rng visibleCs vli)
           (positions (fst (sc_size vld)) (fst (snd (sc_size vld)))) sc)"

definition a_learn_sum_checked :: "Actor \<Rightarrow> IntBuffer list \<Rightarrow> Int2 \<Rightarrow> int \<Rightarrow> fault + real" where
  "a_learn_sum_checked a inputCs pos hc =
     divide_checked (a_sum a inputCs (address3C (fst pos, snd pos, hc) (a_hiddenSize a)))
       (of_int (a_learn_divisor a pos))"

definition a_learn_hc_checked ::
  "Actor \<Rightarrow> IntBuffer list \<Rightarrow> IntBuffer list \<Rightarrow> Int2 \<Rightarrow> int \<Rightarrow> int \<Rightarrow> learn_locals
     \<Rightarrow> fault + learn_locals" where
  "a_learn_hc_checked a inputCs inputCsPrev pos targetC hc l =
     (case a_learn_sum_checked a inputCs pos hc of
        Inl e \<Rightarrow> Inl e
      | Inr sumNow \<Rightarrow>
          (case a_learn_sum_checked a inputCsPrev pos hc of
             Inl e \<Rightarrow> Inl e
           | Inr sumPrev \<Rightarrow>
               Inr \<lparr>maxActivation = max (maxActivation l) sumNow,
                    maxActivationPrev = max (maxActivationPrev l) sumPrev,
                    nextQActionPrev = (if hc = targetC then Some sumNow else nextQActionPrev l),
                    qActionPrev = (if hc = targetC then Some sumPrev else qActionPrev l)\<rparr>))"

definition a_learn_checked ::
  "Int2 \<Rightarrow> 'rng \<Rightarrow> IntBuffer list \<Rightarrow> IntBuffer \<Rightarrow> IntBuffer \<Rightarrow> IntBuffer list \<Rightarrow> Actor \<Rightarrow> fault + Actor" where
  "a_learn_checked pos rng inputCs hiddenCsPrev feedBackCsPrev inputCsPrev a =
     (let hiddenColumnIndex = address2C pos (size_xy (a_hiddenSize a));
          targetC = a_learn_targetC a hiddenCsPrev pos
      in case fold_fault (a_learn_hc_checked a inputCs inputCsPrev pos targetC)
                [0..size_z (a_hiddenSize a) - 1]
                \<lparr>maxActivation = - 999999, maxActivationPrev = - 999999,
                 nextQActionPrev = None, qActionPrev = None\<rparr> of
           Inl e \<Rightarrow> Inl e
         | Inr l \<Rightarrow>
             let hiddenIndex = address3C (fst pos, snd pos, targetC) (a_hiddenSize a);
                 reward = (if targetC = feedBackCsPrev hiddenColumnIndex then 1 else 0)
             in case (nextQActionPrev l, qActionPrev l) of
                  (Some nextQ, Some q) \<Rightarrow>
                    Inr (a\<lparr>a_visibleLayers :=
                           a_learn_update a inputCsPrev
                             (a_learn_delta a reward (maxActivation l) (maxActivationPrev l) nextQ q)
                             hiddenIndex\<rparr>)
                | _ \<Rightarrow> Inl UninitializedRead)"

definition a_learn_pass_checked ::
  "'rng \<Rightarrow> IntBuffer list \<Rightarrow> IntBuffer \<Rightarrow> IntBuffer \<Rightarrow> IntBuffer list \<Rightarrow> Actor \<Rightarrow> fault + Actor" where
  "a_learn_pass_checked rng inputCs hiddenCsPrev feedBackCsPrev inputCsPrev a =
     fold_fault (\<lambda>pos. a_learn_checked pos rng inputCs hiddenCsPrev feedBackCsPrev inputCsPrev)
       (positions (fst (a_hiddenSize a)) (fst (snd (a_hiddenSize a)))) a"

section \<open>Example states\<close>

definition ex_matrix :: SparseMatrix where
  "ex_matrix = \<lparr>field = (\<lambda>r. [0]), nonZeroValues = (\<lambda>r c k. if r = 1 \<and> k = 1 then 1 else 0)\<rparr>"

definition ex_s0 :: HistorySample where
  "ex_s0 = \<lparr>s_inputCs = [\<lambda>i. 0], s_hiddenCs = (\<lambda>i. 0), s_feedBackCs = (\<lambda>i. 0),
            s_inputCs_size = [1], s_hiddenCs_size = 1, s_feedBackCs_size = 1\<rparr>"

definition ex_s1 :: HistorySample where
  "ex_s1 = \<lparr>s_inputCs = [\<lambda>i. 1], s_hiddenCs = (\<lambda>i. 1), s_feedBackCs = (\<lambda>i. 1),
            s_inputCs_size = [1], s_hiddenCs_size = 1, s_feedBackCs_size = 1\<rparr>"

definition ex_actor :: Actor where
  "ex_actor =
     \<lparr>a_hiddenSize = (1, 1, 2), a_historySize = 3, a_hiddenCs = (\<lambda>i. 0),
      a_hiddenCounts = (\<lambda>i. 1), a_historySamples = [ex_s0, ex_s1, ex_s0],
      a_visibleLayers = [\<lparr>a_weights = ex_matrix\<rparr>],
      a_visibleLayerDescs = [\<lparr>a_size = (1, 1, 2), a_radius = 0\<rparr>],
      a_alpha = 1 / 2, a_gamma = 1 / 2, a_gap = 1 / 4, a_historyIters = 1\<rparr>"

definition ex_coder :: SparseCoder where
  "ex_coder =
     \<lparr>sc_hiddenSize = (1, 1, 2), sc_hiddenCs = (\<lambda>i. 0), sc_hiddenActivations = (\<lambda>i. 0),
      sc_visibleLayers =
        [\<lparr>sc_weights = (\<lambda>i. if i = 3 then 1 else 1 / 2), sc_reconCs = (\<lambda>i. 0),
          sc_visibleToHidden = (1, 1), sc_hiddenToVisible = (1, 1), sc_reverseRadii = (1, 1)\<rparr>],
      sc_visibleLayerDescs = [\<lparr>sc_size = (1, 1, 2), sc_radius = 0\<rparr>],
      sc_alpha = 1 / 2, sc_explainIters = 2\<rparr>"

text \<open>
  A coder with the projections and reverse radii \<open>SparseCoder::createRandom\<close> computes
  for hidden size \<open>(16, 1, 1)\<close> and one visible layer of size \<open>(4, 1, 1)\<close> with radius 1.
\<close>

definition ex_coder_wide :: SparseCoder where
  "ex_coder_wide =
     \<lparr>sc_hiddenSize = (16, 1, 1), sc_hiddenCs = (\<lambda>i. 0), sc_hiddenActivations = (\<lambda>i. 0),
      sc_visibleLayers =
        [\<lparr>sc_weights = (\<lambda>i. 1 / 2), sc_reconCs = (\<lambda>i. 0),
          sc_visibleToHidden = (4, 1), sc_hiddenToVisible = (1 / 4, 1), sc_reverseRadii = (5, 2)\<rparr>],
      sc_visibleLayerDescs = [\<lparr>sc_size = (4, 1, 1), sc_radius = 1\<rparr>],
      sc_alpha = 1 / 2, sc_explainIters = 1\<rparr>"

definition ex_actor0 :: Actor where
  "ex_actor0 = ex_actor\<lparr>a_historySize := 0, a_historySamples := [ex_s0, ex_s0]\<rparr>"

definition ex_steps :: "(IntBuffer list \<times> IntBuffer \<times> IntBuffer \<times> bool) list" where
  "ex_steps = [([\<lambda>i. 0], (\<lambda>i. 0), (\<lambda>i. 0), False),
               ([\<lambda>i. 1], (\<lambda>i. 1), (\<lambda>i. 1), False),
               ([\<lambda>i. 0], (\<lambda>i. 1), (\<lambda>i. 0), False)]"

definition ex_coder_empty :: SparseCoder where
  "ex_coder_empty =
     \<lparr>sc_hiddenSize = (1, 1, 2), sc_hiddenCs = (\<lambda>i. 0), sc_hiddenActivations = (\<lambda>i. 0),
      sc_visibleLayers =
        [\<lparr>sc_weights = (\<lambda>i. 1 / 2), sc_reconCs = (\<lambda>i. 0),
          sc_visibleToHidden = (1, 1), sc_hiddenToVisible = (1, 1), sc_reverseRadii = (0, 0)\<rparr>],
      sc_visibleLayerDescs = [\<lparr>sc_size = (1, 1, 2), sc_radius = - 1\<rparr>],
      sc_alpha = 1 / 2, sc_explainIters = 1\<rparr>"

section \<open>The learn kernel of the actor\<close>

lemma a_learn_hc_next: "nextQActionPrev (a_learn_hc a i ip pos tc hc l) = (if hc = tc then Some (a_learn_sum a i pos hc) else nextQActionPrev l)"
  by (simp add: a_learn_hc_def Let_def)

lemma fold_learn_next:
  "nextQActionPrev (fold (a_learn_hc a i ip pos tc) hcs l) =
     (if tc \<in> set hcs then Some (a_learn_sum a i pos tc) else nextQActionPrev l)"
  by (induction hcs arbitrary: l) (auto simp: a_learn_hc_next)

lemma a_learn_hc_q: "qActionPrev (a_learn_hc a i ip pos tc hc l) = (if hc = tc then Some (a_learn_sum a ip pos hc) else qActionPrev l)"
  by (simp add: a_learn_hc_def Let_def)

lemma fold_learn_q:
  "qActionPrev (fold (a_learn_hc a i ip pos tc) hcs l) =
     (if tc \<in> set hcs then Some (a_learn_sum a ip pos tc) else qActionPrev l)"
  by (induction hcs arbitrary: l) (auto simp: a_learn_hc_q)

lemma fold_learn_max:
  "maxActivation (fold (a_learn_hc a i ip pos tc) hcs l) =
     fold (\<lambda>hc m. max m (a_learn_sum a i pos hc)) hcs (maxActivation l)"
  by (induction hcs arbitrary: l) (auto simp: a_learn_hc_def Let_def)

lemma fold_learn_maxPrev:
  "maxActivationPrev (fold (a_learn_hc a i ip pos tc) hcs l) =
     fold (\<lambda>hc m. max m (a_learn_sum a ip pos hc)) hcs (maxActivationPrev l)"
  by (induction hcs arbitrary: l) (auto simp: a_learn_hc_def Let_def)

lemma count_upto: "length (filter (\<lambda>hc. hc = c) [lo..hi]) = (if lo \<le> c \<and> c \<le> hi then 1 else 0)"
proof (induction lo hi rule: upto.induct)
  case (1 i j)
  show ?case
  proof (cases "i \<le> j")
    case True
    then have "[i..j] = i # [i+1..j]" by (simp add: upto_rec1)
    with 1 True show ?thesis by auto
  next
    case False then show ?thesis by simp
  qed
qed

lemma fold_update_nth:
  "n \<le> length xs \<Longrightarrow>
   fold (\<lambda>i ys. ys[i := f i (ys ! i)]) [0..<n] xs =
     map (\<lambda>i. if i < n then f i (xs ! i) else xs ! i) [0..<length xs]"
proof (induction n)
  case 0
  then show ?case by (simp add: map_nth)
next
  case (Suc n)
  let ?g = "\<lambda>m i. if i < m then f i (xs ! i) else xs ! i"
  have n: "n < length xs" using Suc.prems by simp
  have ih: "fold (\<lambda>i ys. ys[i := f i (ys ! i)]) [0..<n] xs = map (?g n) [0..<length xs]"
    by (rule Suc.IH) (use n in arith)
  have "fold (\<lambda>i ys. ys[i := f i (ys ! i)]) [0..<Suc n] xs =
        (map (?g n) [0..<length xs])[n := f n (map (?g n) [0..<length xs] ! n)]"
    by (simp only: upt_Suc_append [OF le0] fold_append fold_simps o_apply ih)
  also have "\<dots> = map (?g (Suc n)) [0..<length xs]"
  proof (rule nth_equalityI)
    show "length ((map (?g n) [0..<length xs])[n := f n (map (?g n) [0..<length xs] ! n)]) =
          length (map (?g (Suc n)) [0..<length xs])" by simp
  next
    fix i assume "i < length ((map (?g n) [0..<length xs])[n := f n (map (?g n) [0..<length xs] ! n)])"
    then have i: "i < length xs" by simp
    show "(map (?g n) [0..<length xs])[n := f n (map (?g n) [0..<length xs] ! n)] ! i =
          map (?g (Suc n)) [0..<length xs] ! i"
      using i n by (cases "i = n") (simp_all add: nth_list_update)
  qed
  finally show ?case .
qed

lemma a_learn_update_nth:
  "vli < length (a_visibleLayers a) \<Longrightarrow>
   a_learn_update a inputCsPrev delta hiddenIndex ! vli =
     (a_visibleLayers a ! vli)\<lparr>a_weights :=
        deltaOHVs (a_weights (a_visibleLayers a ! vli)) (inputCsPrev ! vli) delta hiddenIndex
          (size_z (a_size (a_visibleLayerDescs a ! vli)))\<rparr>"
  unfolding a_learn_update_def
  by (subst fold_update_nth) simp_all

lemma a_learn_update_length:
  "length (a_learn_update a inputCsPrev delta hiddenIndex) = length (a_visibleLayers a)"
  unfolding a_learn_update_def
  by (subst fold_update_nth) simp_all

lemma a_learn_in_range:
  assumes "0 \<le> a_learn_targetC a hcp pos" "a_learn_targetC a hcp pos < size_z (a_hiddenSize a)"
  shows "a_learn pos rng i hcp fb ip a =
     Inr (a\<lparr>a_visibleLayers :=
            a_learn_update a ip
              (a_learn_delta a
                 (if a_learn_targetC a hcp pos = fb (address2C pos (size_xy (a_hiddenSize a))) then 1 else 0)
                 (fold (\<lambda>hc m. max m (a_learn_sum a i pos hc)) [0..size_z (a_hiddenSize a) - 1] (- 999999))
                 (fold (\<lambda>hc m. max m (a_learn_sum a ip pos hc)) [0..size_z (a_hiddenSize a) - 1] (- 999999))
                 (a_learn_sum a i pos (a_learn_targetC a hcp pos))
                 (a_learn_sum a ip pos (a_learn_targetC a hcp pos)))
              (address3C (fst pos, snd pos, a_learn_targetC a hcp pos) (a_hiddenSize a))\<rparr>)"
proof -
  have mem: "a_learn_targetC a hcp pos \<in> set [0..size_z (a_hiddenSize a) - 1]"
    using assms by simp
  show ?thesis
    unfolding a_learn_def Let_def a_learn_loop_def
    using mem by (simp add: fold_learn_next fold_learn_q fold_learn_max fold_learn_maxPrev)
qed

lemma a_learn_out_of_range:
  assumes "\<not> (0 \<le> a_learn_targetC a hcp pos \<and> a_learn_targetC a hcp pos < size_z (a_hiddenSize a))"
  shows "a_learn pos rng i hcp fb ip a = Inl UninitializedRead"
proof -
  have mem: "a_learn_targetC a hcp pos \<notin> set [0..size_z (a_hiddenSize a) - 1]"
    using assms by auto
  show ?thesis
    unfolding a_learn_def Let_def a_learn_loop_def
    using mem by (simp add: fold_learn_next fold_learn_q)
qed


text \<open>
  C10. In \<open>Actor::learn\<close>, when \<open>hiddenSize.z \<ge> 1\<close> and the target action code
  \<open>targetC\<close> lies in \<open>[0, hiddenSize.z)\<close>, exactly one loop iteration (the one with
  \<open>hc == targetC\<close>) assigns \<open>nextQActionPrev\<close> and \<open>qActionPrev\<close>, so both hold a
  value when the update reads them and the kernel does not read an uninitialised local.
  When \<open>targetC\<close> lies outside \<open>[0, hiddenSize.z)\<close> no iteration assigns them and the
  kernel reads them uninitialised.
\<close>

theorem a_learn_locals_assigned_once:
  "(1 \<le> size_z (a_hiddenSize a) \<and> 0 \<le> a_learn_targetC a hiddenCsPrev pos
      \<and> a_learn_targetC a hiddenCsPrev pos < size_z (a_hiddenSize a) \<longrightarrow>
      a_learn_assignments a (a_learn_targetC a hiddenCsPrev pos) = 1
      \<and> nextQActionPrev (a_learn_loop a inputCs inputCsPrev pos (a_learn_targetC a hiddenCsPrev pos))
          = Some (a_learn_sum a inputCs pos (a_learn_targetC a hiddenCsPrev pos))
      \<and> qActionPrev (a_learn_loop a inputCs inputCsPrev pos (a_learn_targetC a hiddenCsPrev pos))
          = Some (a_learn_sum a inputCsPrev pos (a_learn_targetC a hiddenCsPrev pos))
      \<and> (\<exists>a'. a_learn pos rng inputCs hiddenCsPrev feedBackCsPrev inputCsPrev a = Inr a'))
   \<and> (\<not> (0 \<le> a_learn_targetC a hiddenCsPrev pos
           \<and> a_learn_targetC a hiddenCsPrev pos < size_z (a_hiddenSize a)) \<longrightarrow>
      a_learn_assignments a (a_learn_targetC a hiddenCsPrev pos) = 0
      \<and> a_learn pos rng inputCs hiddenCsPrev feedBackCsPrev inputCsPrev a = Inl UninitializedRead)"
proof (intro conjI impI)
  assume h: "1 \<le> size_z (a_hiddenSize a) \<and> 0 \<le> a_learn_targetC a hiddenCsPrev pos
      \<and> a_learn_targetC a hiddenCsPrev pos < size_z (a_hiddenSize a)"
  then have mem: "a_learn_targetC a hiddenCsPrev pos \<in> set [0..size_z (a_hiddenSize a) - 1]"
    by simp
  show "a_learn_assignments a (a_learn_targetC a hiddenCsPrev pos) = 1"
    using h by (simp add: a_learn_assignments_def count_upto)
  show "nextQActionPrev (a_learn_loop a inputCs inputCsPrev pos (a_learn_targetC a hiddenCsPrev pos))
          = Some (a_learn_sum a inputCs pos (a_learn_targetC a hiddenCsPrev pos))"
    unfolding a_learn_loop_def using mem by (simp add: fold_learn_next)
  show "qActionPrev (a_learn_loop a inputCs inputCsPrev pos (a_learn_targetC a hiddenCsPrev pos))
          = Some (a_learn_sum a inputCsPrev pos (a_learn_targetC a hiddenCsPrev pos))"
    unfolding a_learn_loop_def using mem by (simp add: fold_learn_q)
  show "\<exists>a'. a_learn pos rng inputCs hiddenCsPrev feedBackCsPrev inputCsPrev a = Inr a'"
    using h by (simp add: a_learn_in_range)
next
  assume h: "\<not> (0 \<le> a_learn_targetC a hiddenCsPrev pos
           \<and> a_learn_targetC a hiddenCsPrev pos < size_z (a_hiddenSize a))"
  show "a_learn_assignments a (a_learn_targetC a hiddenCsPrev pos) = 0"
    using h by (auto simp add: a_learn_assignments_def count_upto)
  show "a_learn pos rng inputCs hiddenCsPrev feedBackCsPrev inputCsPrev a = Inl UninitializedRead"
    using h by (rule a_learn_out_of_range)
qed

theorem a_learn_locals_assigned_once_witness:
  "(\<exists>a'. a_learn (0, 0) () [\<lambda>i. 1] (\<lambda>i. 1) (\<lambda>i. 1) [\<lambda>i. 0] ex_actor = Inr a')
   \<and> a_learn_assignments ex_actor 1 = 1
   \<and> a_learn (0, 0) () [\<lambda>i. 1] (\<lambda>i. 2) (\<lambda>i. 1) [\<lambda>i. 0] ex_actor = Inl UninitializedRead"
proof -
  have t1: "a_learn_targetC ex_actor (\<lambda>i. 1) (0, 0) = 1"
    and t2: "a_learn_targetC ex_actor (\<lambda>i. 2) (0, 0) = 2"
    and z: "size_z (a_hiddenSize ex_actor) = 2"
    by (simp_all add: a_learn_targetC_def ex_actor_def size_z_def)
  show ?thesis
    using a_learn_locals_assigned_once
            [of ex_actor "\<lambda>i. 1" "(0, 0)" "[\<lambda>i. 1]" "[\<lambda>i. 0]" "()" "\<lambda>i. 1"]
          a_learn_locals_assigned_once
            [of ex_actor "\<lambda>i. 2" "(0, 0)" "[\<lambda>i. 1]" "[\<lambda>i. 0]" "()" "\<lambda>i. 1"]
    by (simp add: t1 t2 z)
qed

text \<open>The example actor, evaluated.\<close>

lemma upto_0_1: "[0..1::int] = [0, 1]"
  by (simp add: upto.simps)

lemma positions_1_1: "positions 1 1 = [(0, 0)]"
  by (simp add: positions_def upto.simps)

lemma ex_sums:
  "a_learn_sum ex_actor [\<lambda>i. 1] (0, 0) 0 = 0"
  "a_learn_sum ex_actor [\<lambda>i. 1] (0, 0) 1 = 1"
  "a_learn_sum ex_actor [\<lambda>i. 0] (0, 0) 0 = 0"
  "a_learn_sum ex_actor [\<lambda>i. 0] (0, 0) 1 = 0"
  by (simp_all add: a_learn_sum_def a_sum_def a_learn_divisor_def multiplyOHVs_def
        ex_actor_def ex_matrix_def size_xy_def size_z_def)

lemma ex_actor_fields:
  "a_hiddenSize ex_actor = (1, 1, 2)"
  "a_historySamples ex_actor = [ex_s0, ex_s1, ex_s0]"
  "a_visibleLayers ex_actor = [\<lparr>a_weights = ex_matrix\<rparr>]"
  "a_visibleLayerDescs ex_actor = [\<lparr>a_size = (1, 1, 2), a_radius = 0\<rparr>]"
  "a_alpha ex_actor = 1 / 2" "a_gamma ex_actor = 1 / 2" "a_gap ex_actor = 1 / 4"
  "a_historySize ex_actor = 3" "a_historyIters ex_actor = 1"
  by (simp_all add: ex_actor_def)

lemma ex_sample_fields:
  "s_inputCs ex_s0 = [\<lambda>i. 0]" "s_hiddenCs ex_s0 = (\<lambda>i. 0)" "s_feedBackCs ex_s0 = (\<lambda>i. 0)"
  "s_inputCs ex_s1 = [\<lambda>i. 1]" "s_hiddenCs ex_s1 = (\<lambda>i. 1)" "s_feedBackCs ex_s1 = (\<lambda>i. 1)"
  by (simp_all add: ex_s0_def ex_s1_def)

lemma ex_targetC: "a_learn_targetC ex_actor (\<lambda>i. 1) (0, 0) = 1"
  by (simp add: a_learn_targetC_def ex_actor_def size_xy_def)

lemma ex_size_z: "size_z (a_hiddenSize ex_actor) = 2"
  by (simp add: ex_actor_def size_z_def)

lemma ex_learn:
  "a_learn (0, 0) () [\<lambda>i. 1] (\<lambda>i. 1) (\<lambda>i. 1) [\<lambda>i. 0] ex_actor =
     Inr (ex_actor\<lparr>a_visibleLayers := a_learn_update ex_actor [\<lambda>i. 0] (3 / 4) 1\<rparr>)"
  by (subst a_learn_in_range)
     (simp_all add: ex_targetC ex_size_z ex_sums upto_0_1 a_learn_delta_def Let_def,
      simp_all add: ex_actor_def size_xy_def)

lemma ex_update:
  "a_learn_update ex_actor [\<lambda>i. 0] (3 / 4) 1 =
     [\<lparr>a_weights = deltaOHVs ex_matrix (\<lambda>i. 0) (3 / 4) 1 2\<rparr>]"
  by (simp add: a_learn_update_def ex_actor_def size_z_def)

lemma ex_replay:
  "a_replay () 0 ex_actor =
     Inr (ex_actor\<lparr>a_visibleLayers := [\<lparr>a_weights = deltaOHVs ex_matrix (\<lambda>i. 0) (3 / 4) 1 2\<rparr>]\<rparr>)"
  by (simp add: a_replay_def a_replay_args_def a_learn_pass_def ex_actor_fields positions_1_1
        ex_sample_fields ex_learn ex_update)

text \<open>
  C2. For a hidden column whose target action code \<open>targetC\<close> is in range, the learn
  kernel called on the transition \<open>(sPrev, s)\<close> returns normally, and in every visible
  layer the weights of unit \<open>(column, targetC)\<close> are updated by \<open>deltaOHVs\<close> against
  \<open>sPrev\<close>'s input codes with \<open>delta = alpha * dPAL\<close>, where
  \<open>dPAL = max (dQ - gap * (maxActivationPrev - qActionPrev))
              (dQ - gap * (maxActivation - nextQActionPrev))\<close>,
  \<open>dQ = reward + gamma * maxActivation - qActionPrev\<close>, and \<open>reward\<close> is 1 exactly when
  \<open>targetC\<close> equals the code of \<open>s\<close>'s feedback CSDR at the column and 0 otherwise.
\<close>

theorem a_learn_applies_pal_delta:
  assumes "0 \<le> a_learn_targetC a (s_hiddenCs s) pos"
      and "a_learn_targetC a (s_hiddenCs s) pos < size_z (a_hiddenSize a)"
  shows "let targetC = a_learn_targetC a (s_hiddenCs s) pos;
             hiddenColumnIndex = address2C pos (size_xy (a_hiddenSize a));
             reward = (if targetC = s_feedBackCs s hiddenColumnIndex then 1 else 0);
             maxAct = fold (\<lambda>hc m. max m (a_learn_sum a (s_inputCs s) pos hc))
                        [0..size_z (a_hiddenSize a) - 1] (- 999999);
             maxActPrev = fold (\<lambda>hc m. max m (a_learn_sum a (s_inputCs sPrev) pos hc))
                        [0..size_z (a_hiddenSize a) - 1] (- 999999);
             nextQ = a_learn_sum a (s_inputCs s) pos targetC;
             q = a_learn_sum a (s_inputCs sPrev) pos targetC;
             dQ = reward + a_gamma a * maxAct - q;
             dPAL = max (dQ - a_gap a * (maxActPrev - q)) (dQ - a_gap a * (maxAct - nextQ));
             delta = a_alpha a * dPAL
         in \<exists>a'. a_learn pos rng (s_inputCs s) (s_hiddenCs s) (s_feedBackCs s) (s_inputCs sPrev) a = Inr a'
              \<and> length (a_visibleLayers a') = length (a_visibleLayers a)
              \<and> (\<forall>vli < length (a_visibleLayers a).
                    a_weights (a_visibleLayers a' ! vli) =
                      deltaOHVs (a_weights (a_visibleLayers a ! vli)) (s_inputCs sPrev ! vli) delta
                        (address3C (fst pos, snd pos, targetC) (a_hiddenSize a))
                        (size_z (a_size (a_visibleLayerDescs a ! vli))))"
  unfolding Let_def a_learn_in_range [OF assms]
  by (simp add: a_learn_update_length a_learn_update_nth a_learn_delta_def Let_def)

theorem a_learn_applies_pal_delta_witness:
  "0 \<le> a_learn_targetC ex_actor (s_hiddenCs ex_s1) (0, 0)
   \<and> a_learn_targetC ex_actor (s_hiddenCs ex_s1) (0, 0) < size_z (a_hiddenSize ex_actor)
   \<and> (\<exists>a'. a_learn (0, 0) () (s_inputCs ex_s1) (s_hiddenCs ex_s1) (s_feedBackCs ex_s1)
               (s_inputCs ex_s0) ex_actor = Inr a'
          \<and> a_weights (a_visibleLayers a' ! 0) = deltaOHVs ex_matrix (\<lambda>i. 0) (3 / 4) 1 2)"
proof -
  have t: "a_learn_targetC ex_actor (s_hiddenCs ex_s1) (0, 0) = 1"
    by (simp add: ex_sample_fields ex_targetC)
  have h1: "0 \<le> a_learn_targetC ex_actor (s_hiddenCs ex_s1) (0, 0)"
    and h2: "a_learn_targetC ex_actor (s_hiddenCs ex_s1) (0, 0) < size_z (a_hiddenSize ex_actor)"
    by (simp_all add: t ex_size_z)
  show ?thesis
    using a_learn_applies_pal_delta [OF h1 h2, of ex_s0 "()"]
    unfolding Let_def t ex_size_z
    by (auto simp add: ex_actor_fields ex_sample_fields size_z_def ex_sums upto_0_1)
qed

section \<open>The replayed transition\<close>

text \<open>
  C1 (as amended). In the replay of the transition \<open>(sPrev = history[t], s = history[t+1])\<close>
  the learn kernel is called with \<open>hiddenCsPrev\<close> bound to \<open>s\<close>'s hidden CSDR, so for
  every hidden column the target action code \<open>targetC\<close> is the action code recorded in
  \<open>s = history[t+1]\<close> at that column (the sample added at a step records the action passed
  to that step).
\<close>

theorem a_replay_targetC_from_next_sample:
  assumes "0 \<le> t" and "t + 1 < int (length (a_historySamples a))"
  shows "a_replay rng t a =
           a_learn_pass rng (s_inputCs (a_historySamples a ! nat (t + 1)))
             (s_hiddenCs (a_historySamples a ! nat (t + 1)))
             (s_feedBackCs (a_historySamples a ! nat (t + 1)))
             (s_inputCs (a_historySamples a ! nat t)) a
         \<and> a_replay_targetC a t pos =
             s_hiddenCs (a_historySamples a ! nat (t + 1)) (address2C pos (size_xy (a_hiddenSize a)))"
  using assms
  by (simp add: a_replay_def a_replay_targetC_def a_replay_args_def a_learn_targetC_def Let_def)

theorem a_replay_targetC_from_next_sample_witness:
  "(0::int) \<le> 0 \<and> (0::int) + 1 < int (length (a_historySamples ex_actor))
   \<and> a_replay_targetC ex_actor 0 (0, 0) = 1"
proof -
  have h1: "(0::int) \<le> 0" by simp
  have h2: "(0::int) + 1 < int (length (a_historySamples ex_actor))"
    by (simp add: ex_actor_fields)
  show ?thesis
    using a_replay_targetC_from_next_sample [OF h1 h2, of "()" "(0, 0)"]
    by (simp add: ex_actor_fields ex_sample_fields size_xy_def)
qed

text \<open>
  The claim as stated, with \<open>targetC\<close> read from \<open>sPrev = history[t]\<close>, fails: in the
  example history \<open>sPrev\<close> records action 0 and \<open>s\<close> records action 1 at the column;
  the replay of \<open>t = 0\<close> uses \<open>targetC = 1\<close> and moves a weight of unit 1, none of unit 0.
\<close>

theorem a_replay_targetC_counterexample:
  "a_replay_targetC ex_actor 0 (0, 0) = 1
   \<and> s_hiddenCs (a_historySamples ex_actor ! 0) (address2C (0, 0) (size_xy (a_hiddenSize ex_actor))) = 0
   \<and> a_replay () 0 ex_actor =
       Inr (ex_actor\<lparr>a_visibleLayers := [\<lparr>a_weights = deltaOHVs ex_matrix (\<lambda>i. 0) (3 / 4) 1 2\<rparr>]\<rparr>)
   \<and> nonZeroValues (deltaOHVs ex_matrix (\<lambda>i. 0) (3 / 4) 1 2) 1 0 0 = 3 / 4
   \<and> nonZeroValues (deltaOHVs ex_matrix (\<lambda>i. 0) (3 / 4) 1 2) 0 0 0 = nonZeroValues ex_matrix 0 0 0"
  unfolding ex_replay
  by (simp add: a_replay_targetC_def a_replay_args_def a_learn_targetC_def ex_actor_fields
        ex_sample_fields size_xy_def deltaOHVs_def ex_matrix_def)

section \<open>The forward pass of the actor\<close>

lemma a_sum_hiddenCs:
  "a_sum (a\<lparr>a_hiddenCs := h\<rparr>) = a_sum a"
  by (intro ext) (simp add: a_sum_def)

lemma a_forward_hc_hiddenCs:
  "a_forward_hc (a\<lparr>a_hiddenCs := h\<rparr>) = a_forward_hc a"
  by (intro ext) (simp add: a_forward_hc_def a_sum_hiddenCs)

lemma a_maxIndex_hiddenCs:
  "a_maxIndex (a\<lparr>a_hiddenCs := h\<rparr>) = a_maxIndex a"
  by (intro ext) (simp add: a_maxIndex_def a_forward_hc_hiddenCs)

lemma a_forward_eq:
  "a_forward pos rng inputCs a =
     a\<lparr>a_hiddenCs := (a_hiddenCs a)(address2C pos (size_xy (a_hiddenSize a)) := a_maxIndex a inputCs pos)\<rparr>"
  by (simp add: a_forward_def Let_def)

lemma a_forward_fold:
  "fold (\<lambda>pos. a_forward pos rng inputCs) ps a =
     a\<lparr>a_hiddenCs :=
         fold (\<lambda>pos h. h(address2C pos (size_xy (a_hiddenSize a)) := a_maxIndex a inputCs pos))
           ps (a_hiddenCs a)\<rparr>"
proof (induction ps arbitrary: a)
  case Nil
  show ?case by simp
next
  case (Cons p ps)
  define h1 where "h1 = (a_hiddenCs a)(address2C p (size_xy (a_hiddenSize a)) := a_maxIndex a inputCs p)"
  have a1: "a_forward p rng inputCs a = a\<lparr>a_hiddenCs := h1\<rparr>"
    by (simp only: a_forward_eq h1_def)
  have "fold (\<lambda>pos. a_forward pos rng inputCs) (p # ps) a =
        fold (\<lambda>pos. a_forward pos rng inputCs) ps (a\<lparr>a_hiddenCs := h1\<rparr>)"
    by (simp only: fold_simps a1)
  also have "\<dots> = (a\<lparr>a_hiddenCs := h1\<rparr>)\<lparr>a_hiddenCs :=
         fold (\<lambda>pos h. h(address2C pos (size_xy (a_hiddenSize (a\<lparr>a_hiddenCs := h1\<rparr>)))
                  := a_maxIndex (a\<lparr>a_hiddenCs := h1\<rparr>) inputCs pos))
           ps (a_hiddenCs (a\<lparr>a_hiddenCs := h1\<rparr>))\<rparr>"
    by (rule Cons.IH)
  also have "\<dots> = a\<lparr>a_hiddenCs :=
         fold (\<lambda>pos h. h(address2C pos (size_xy (a_hiddenSize a)) := a_maxIndex a inputCs pos))
           ps h1\<rparr>"
    by (simp add: a_maxIndex_hiddenCs)
  finally show ?case
    by (simp only: fold_simps h1_def)
qed

lemma a_forward_pass_eq:
  "a_forward_pass rng inputCs a =
     a\<lparr>a_hiddenCs :=
         fold (\<lambda>pos h. h(address2C pos (size_xy (a_hiddenSize a)) := a_maxIndex a inputCs pos))
           (positions (fst (a_hiddenSize a)) (fst (snd (a_hiddenSize a)))) (a_hiddenCs a)\<rparr>"
  by (simp add: a_forward_pass_def a_forward_fold)

lemma fold_upd_absorb:
  "(fold (\<lambda>p h. h(f p := m p)) ps (h(k := v)))(k := w) = (fold (\<lambda>p h. h(f p := m p)) ps h)(k := w)"
proof (induction ps arbitrary: h)
  case Nil
  show ?case by (simp only: fold_simps id_apply fun_upd_upd)
next
  case (Cons p ps)
  show ?case
  proof (cases "f p = k")
    case True
    then have "(h(k := v))(f p := m p) = h(f p := m p)"
      by (simp only: fun_upd_upd)
    then show ?thesis by (simp only: fold_simps)
  next
    case False
    then have "(h(k := v))(f p := m p) = (h(f p := m p))(k := v)"
      by (rule fun_upd_twist [OF not_sym])
    then show ?thesis using Cons.IH [of "h(f p := m p)"] by (simp only: fold_simps)
  qed
qed

lemma fold_upd_idem:
  "fold (\<lambda>p h. h(f p := m p)) ps (fold (\<lambda>p h. h(f p := m p)) ps h) =
     fold (\<lambda>p h. h(f p := m p)) ps h"
proof (induction ps rule: rev_induct)
  case Nil
  show ?case by simp
next
  case (snoc p ps)
  show ?case
    by (simp only: fold_append fold_simps o_apply fold_upd_absorb snoc.IH)
qed

lemma fold_upd_outside:
  "i \<notin> f ` set ps \<Longrightarrow> fold (\<lambda>p h. h(f p := m p)) ps h i = h i"
  by (induction ps arbitrary: h) auto

lemma fold_upd_inside:
  "i \<in> f ` set ps \<Longrightarrow> \<exists>p \<in> set ps. f p = i \<and> fold (\<lambda>p h. h(f p := m p)) ps h i = m p"
proof (induction ps arbitrary: h rule: rev_induct)
  case Nil
  then show ?case by simp
next
  case (snoc q qs)
  show ?case
  proof (cases "f q = i")
    case True
    then show ?thesis by auto
  next
    case False
    with snoc.prems have "i \<in> f ` set qs" by auto
    from snoc.IH [OF this, of h] False show ?thesis by auto
  qed
qed

text \<open>
  C9. The forward (policy) pass of the actor changes no field but the hidden action
  codes: in particular no weight buffer. It writes the hidden codes only at the column
  indices. Run again on its own result with the same input CSDRs, it returns the same
  state, and it does not depend on the generator it is given.
\<close>

theorem a_forward_pass_pure:
  "a_forward_pass rng inputCs a = a\<lparr>a_hiddenCs := a_hiddenCs (a_forward_pass rng inputCs a)\<rparr>
   \<and> a_visibleLayers (a_forward_pass rng inputCs a) = a_visibleLayers a
   \<and> (\<forall>i. i \<notin> (\<lambda>pos. address2C pos (size_xy (a_hiddenSize a)))
                 ` set (positions (fst (a_hiddenSize a)) (fst (snd (a_hiddenSize a))))
          \<longrightarrow> a_hiddenCs (a_forward_pass rng inputCs a) i = a_hiddenCs a i)
   \<and> a_forward_pass rng' inputCs (a_forward_pass rng inputCs a) = a_forward_pass rng inputCs a
   \<and> a_forward_pass rng' inputCs a = a_forward_pass rng inputCs a"
proof (intro conjI allI impI)
  show "a_forward_pass rng inputCs a = a\<lparr>a_hiddenCs := a_hiddenCs (a_forward_pass rng inputCs a)\<rparr>"
    by (simp add: a_forward_pass_eq)
  show "a_visibleLayers (a_forward_pass rng inputCs a) = a_visibleLayers a"
    by (simp add: a_forward_pass_eq)
  show "a_forward_pass rng' inputCs (a_forward_pass rng inputCs a) = a_forward_pass rng inputCs a"
    by (simp add: a_forward_pass_eq fold_upd_idem a_maxIndex_hiddenCs)
  show "a_forward_pass rng' inputCs a = a_forward_pass rng inputCs a"
    by (simp add: a_forward_pass_eq)
next
  fix i
  assume "i \<notin> (\<lambda>pos. address2C pos (size_xy (a_hiddenSize a)))
                 ` set (positions (fst (a_hiddenSize a)) (fst (snd (a_hiddenSize a))))"
  then show "a_hiddenCs (a_forward_pass rng inputCs a) i = a_hiddenCs a i"
    by (simp add: a_forward_pass_eq fold_upd_outside)
qed


theorem a_forward_pass_pure_witness:
  "a_visibleLayers (a_forward_pass () [\<lambda>i. 1] ex_actor) = a_visibleLayers ex_actor
   \<and> a_hiddenCs (a_forward_pass () [\<lambda>i. 1] ex_actor) 5 = a_hiddenCs ex_actor 5
   \<and> a_forward_pass True [\<lambda>i. 1] (a_forward_pass () [\<lambda>i. 1] ex_actor) =
       a_forward_pass () [\<lambda>i. 1] ex_actor"
proof -
  note t = a_forward_pass_pure [of "()" "[\<lambda>i. 1]" ex_actor True]
  have out: "5 \<notin> (\<lambda>pos. address2C pos (size_xy (a_hiddenSize ex_actor)))
                 ` set (positions (fst (a_hiddenSize ex_actor)) (fst (snd (a_hiddenSize ex_actor))))"
    by (simp add: ex_actor_fields positions_1_1 size_xy_def)
  from t have "\<forall>i. i \<notin> (\<lambda>pos. address2C pos (size_xy (a_hiddenSize ex_actor)))
                 ` set (positions (fst (a_hiddenSize ex_actor)) (fst (snd (a_hiddenSize ex_actor))))
          \<longrightarrow> a_hiddenCs (a_forward_pass () [\<lambda>i. 1] ex_actor) i = a_hiddenCs ex_actor i"
    by (elim conjE)
  with out have "a_hiddenCs (a_forward_pass () [\<lambda>i. 1] ex_actor) 5 = a_hiddenCs ex_actor 5"
    by (elim allE [of _ 5] impE)
  with t show ?thesis by (elim conjE) (intro conjI)
qed

section \<open>Counting the covering columns\<close>

lemma fold_count: "fold (\<lambda>p (count::real). count + 1) ps c = c + real (length ps)"
  by (induction ps arbitrary: c) simp_all

lemma sc_count_length: "sc_count sc vli pos = real (length (sc_covering sc vli pos))"
  by (simp add: sc_count_def fold_count)

section \<open>The forward pass of the sparse coder\<close>

lemma fold_point_updates_other:
  "a \<notin> key ` set ks \<Longrightarrow> fold (\<lambda>k h. h(key k := val k (h (key k)))) ks h a = h a"
  by (induction ks arbitrary: h) auto

lemma fold_point_updates:
  assumes "distinct (map key ks)" and "k \<in> set ks"
  shows "fold (\<lambda>k h. h(key k := val k (h (key k)))) ks h (key k) = val k (h (key k))"
  using assms
proof (induction ks arbitrary: h)
  case Nil
  then show ?case by simp
next
  case (Cons k' ks)
  show ?case
  proof (cases "k = k'")
    case True
    from Cons.prems(1) have "key k' \<notin> key ` set ks" by simp
    then have "fold (\<lambda>k h. h(key k := val k (h (key k)))) ks (h(key k' := val k' (h (key k')))) (key k')
                 = (h(key k' := val k' (h (key k')))) (key k')"
      by (rule fold_point_updates_other)
    then show ?thesis using True by (simp del: fun_upd_apply) simp
  next
    case False
    with Cons.prems have k: "k \<in> set ks" and d: "distinct (map key ks)"
      and nin: "key k' \<notin> key ` set ks"
      by auto
    from k nin have ne: "key k \<noteq> key k'" by (metis imageI)
    have "fold (\<lambda>k h. h(key k := val k (h (key k)))) ks (h(key k' := val k' (h (key k')))) (key k)
            = val k ((h(key k' := val k' (h (key k')))) (key k))"
      by (rule Cons.IH [OF d k])
    then show ?thesis using ne by (simp del: fun_upd_apply) simp
  qed
qed

text \<open>
  The support reads the weights, the sizes and the projections, never the hidden
  activations or the hidden codes.
\<close>

lemma sc_support_frame:
  "sc_support (sc\<lparr>sc_hiddenActivations := acts, sc_hiddenCs := hcs\<rparr>) cs pos hc = sc_support sc cs pos hc"
  by (simp add: sc_support_def sc_fieldLowerBound_def sc_field_def)

lemma sc_activation_frame:
  "sc_activation (sc\<lparr>sc_hiddenActivations := acts, sc_hiddenCs := hcs\<rparr>) = sc_activation sc"
  by (intro ext) (simp add: sc_activation_def sc_inputActivation_def sc_reconActivation_def sc_support_frame)

lemma sc_forward_hc_fst:
  "fst (fold (sc_forward_hc sc inputCs pos firstIter) hcs st) =
     fold (\<lambda>hc h. h(address3 (fst pos, snd pos, hc) (size_xy (sc_hiddenSize sc)) :=
                      sc_activation sc inputCs firstIter pos hc
                        (h (address3 (fst pos, snd pos, hc) (size_xy (sc_hiddenSize sc))))))
       hcs (fst st)"
proof (induction hcs arbitrary: st)
  case Nil
  show ?case by simp
next
  case (Cons hc hcs)
  obtain acts mi mv where st: "st = (acts, mi, mv)" by (cases st)
  have "fst (sc_forward_hc sc inputCs pos firstIter hc st) =
          (fst st)(address3 (fst pos, snd pos, hc) (size_xy (sc_hiddenSize sc)) :=
                      sc_activation sc inputCs firstIter pos hc
                        (fst st (address3 (fst pos, snd pos, hc) (size_xy (sc_hiddenSize sc)))))"
    by (simp add: st sc_forward_hc_def sc_activation_def Let_def)
  then show ?case
    by (simp del: fun_upd_apply add: Cons.IH)
qed

lemma sc_forward_acts_frame:
  "sc_forward_acts (sc\<lparr>sc_hiddenActivations := acts, sc_hiddenCs := hcs\<rparr>) = sc_forward_acts sc"
  by (intro ext) (simp add: sc_forward_acts_def sc_activation_frame)

lemma sc_forward_eq:
  "sc_forward pos rng inputCs firstIter sc =
     sc\<lparr>sc_hiddenActivations := sc_forward_acts sc inputCs firstIter pos (sc_hiddenActivations sc),
        sc_hiddenCs := (sc_hiddenCs sc)(address2 pos (fst (sc_hiddenSize sc)) :=
                          sc_forward_maxIndex sc inputCs firstIter pos)\<rparr>"
proof -
  obtain acts mi mv where f: "fold (sc_forward_hc sc inputCs pos firstIter) [0..size_z (sc_hiddenSize sc) - 1]
             (sc_hiddenActivations sc, 0, - 999999) = (acts, mi, mv)"
    by (cases "fold (sc_forward_hc sc inputCs pos firstIter) [0..size_z (sc_hiddenSize sc) - 1]
             (sc_hiddenActivations sc, 0, - 999999)")
  have "acts = sc_forward_acts sc inputCs firstIter pos (sc_hiddenActivations sc)"
    using sc_forward_hc_fst [of sc inputCs pos firstIter "[0..size_z (sc_hiddenSize sc) - 1]"
            "(sc_hiddenActivations sc, 0, - 999999)"]
    by (simp add: f sc_forward_acts_def)
  then show ?thesis
    by (simp add: sc_forward_def sc_forward_maxIndex_def f)
qed

lemma sc_forward_fold_acts:
  "sc_hiddenActivations (fold (\<lambda>pos. sc_forward pos rng inputCs firstIter) ps sc) =
     fold (sc_forward_acts sc inputCs firstIter) ps (sc_hiddenActivations sc)
   \<and> (\<exists>hcs. fold (\<lambda>pos. sc_forward pos rng inputCs firstIter) ps sc =
          sc\<lparr>sc_hiddenActivations := sc_hiddenActivations (fold (\<lambda>pos. sc_forward pos rng inputCs firstIter) ps sc),
             sc_hiddenCs := hcs\<rparr>)"
proof (induction ps arbitrary: sc)
  case Nil
  have "sc = sc\<lparr>sc_hiddenActivations := sc_hiddenActivations sc, sc_hiddenCs := sc_hiddenCs sc\<rparr>"
    by simp
  then show ?case by (simp only: fold_simps id_apply) blast
next
  case (Cons p ps)
  define sc1 where "sc1 = sc_forward p rng inputCs firstIter sc"
  define h1 where "h1 = (sc_hiddenCs sc)(address2 p (fst (sc_hiddenSize sc)) :=
                          sc_forward_maxIndex sc inputCs firstIter p)"
  have s1: "sc1 = sc\<lparr>sc_hiddenActivations := sc_forward_acts sc inputCs firstIter p (sc_hiddenActivations sc),
        sc_hiddenCs := h1\<rparr>"
    unfolding sc1_def h1_def by (rule sc_forward_eq)
  have fr: "sc_forward_acts sc1 = sc_forward_acts sc"
    unfolding s1 by (rule sc_forward_acts_frame)
  have a1: "sc_hiddenActivations sc1 = sc_forward_acts sc inputCs firstIter p (sc_hiddenActivations sc)"
    unfolding s1 by simp
  from Cons.IH [of sc1] obtain h2 where
    i1: "sc_hiddenActivations (fold (\<lambda>pos. sc_forward pos rng inputCs firstIter) ps sc1) =
         fold (sc_forward_acts sc1 inputCs firstIter) ps (sc_hiddenActivations sc1)"
    and i2: "fold (\<lambda>pos. sc_forward pos rng inputCs firstIter) ps sc1 =
          sc1\<lparr>sc_hiddenActivations := sc_hiddenActivations (fold (\<lambda>pos. sc_forward pos rng inputCs firstIter) ps sc1),
             sc_hiddenCs := h2\<rparr>"
    by blast
  have unf: "fold (\<lambda>pos. sc_forward pos rng inputCs firstIter) (p # ps) sc =
             fold (\<lambda>pos. sc_forward pos rng inputCs firstIter) ps sc1"
    by (simp only: fold_simps o_apply sc1_def)
  have c1: "sc_hiddenActivations (fold (\<lambda>pos. sc_forward pos rng inputCs firstIter) (p # ps) sc) =
     fold (sc_forward_acts sc inputCs firstIter) (p # ps) (sc_hiddenActivations sc)"
  proof -
    have "sc_hiddenActivations (fold (\<lambda>pos. sc_forward pos rng inputCs firstIter) (p # ps) sc) =
          fold (sc_forward_acts sc1 inputCs firstIter) ps (sc_hiddenActivations sc1)"
      by (simp only: unf i1)
    also have "\<dots> = fold (sc_forward_acts sc inputCs firstIter) ps
                       (sc_forward_acts sc inputCs firstIter p (sc_hiddenActivations sc))"
      by (simp only: fr a1)
    also have "\<dots> = fold (sc_forward_acts sc inputCs firstIter) (p # ps) (sc_hiddenActivations sc)"
      by (simp only: fold_simps o_apply)
    finally show ?thesis .
  qed
  have "fold (\<lambda>pos. sc_forward pos rng inputCs firstIter) ps sc1 =
        sc\<lparr>sc_hiddenActivations := sc_hiddenActivations (fold (\<lambda>pos. sc_forward pos rng inputCs firstIter) ps sc1),
             sc_hiddenCs := h2\<rparr>"
    by (subst i2) (simp add: s1)
  then have c2: "\<exists>hcs. fold (\<lambda>pos. sc_forward pos rng inputCs firstIter) (p # ps) sc =
          sc\<lparr>sc_hiddenActivations := sc_hiddenActivations (fold (\<lambda>pos. sc_forward pos rng inputCs firstIter) (p # ps) sc),
             sc_hiddenCs := hcs\<rparr>"
    unfolding unf by blast
  from c1 c2 show ?case by blast
qed


lemma digit_unique:
  fixes x x' d q q' :: int
  assumes "0 \<le> x" "x < d" "0 \<le> x'" "x' < d" "x + d * q = x' + d * q'"
  shows "x = x' \<and> q = q'"
proof -
  have "(x + d * q) mod d = x" using assms(1,2) by simp
  moreover have "(x' + d * q') mod d = x'" using assms(3,4) by simp
  ultimately have x: "x = x'" using assms(5) by simp
  with assms(5) have "d * q = d * q'" by simp
  moreover have "d \<noteq> 0" using assms(1,2) by simp
  ultimately have "q = q'" by simp
  with x show ?thesis by simp
qed

lemma address3_inj:
  assumes "0 \<le> x" "x < dx" "0 \<le> y" "y < dy" "0 \<le> x'" "x' < dx" "0 \<le> y'" "y' < dy"
    and "address3 (x, y, z) (dx, dy) = address3 (x', y', z') (dx, dy)"
  shows "x = x' \<and> y = y' \<and> z = z'"
proof -
  from assms(9) have "x + dx * (y + dy * z) = x' + dx * (y' + dy * z')"
    by (simp add: algebra_simps)
  from digit_unique [OF assms(1,2,5,6) this] have x: "x = x'" and "y + dy * z = y' + dy * z'"
    by simp_all
  from digit_unique [OF assms(3,4,7,8) this(2)] x show ?thesis by simp
qed

lemma positions_product: "positions sx sy = List.product [0..sx - 1] [0..sy - 1]"
  by (simp add: positions_def product_concat_map)

lemma set_positions: "set (positions sx sy) = {(x, y). 0 \<le> x \<and> x < sx \<and> 0 \<le> y \<and> y < sy}"
  by (auto simp add: positions_product)

lemma distinct_positions: "distinct (positions sx sy)"
  by (simp add: positions_product distinct_product)

lemma fold_concat_map: "fold g (concat (map F ps)) = fold (\<lambda>p. fold g (F p)) ps"
  by (induction ps) (simp_all add: fun_eq_iff)

lemma sc_forward_acts_pairs:
  "fold (sc_forward_acts sc inputCs firstIter) ps acts =
     fold (\<lambda>k h. h((\<lambda>(pos, hc). address3 (fst pos, snd pos, hc) (size_xy (sc_hiddenSize sc))) k :=
                     (\<lambda>(pos, hc). sc_activation sc inputCs firstIter pos hc) k
                       (h ((\<lambda>(pos, hc). address3 (fst pos, snd pos, hc) (size_xy (sc_hiddenSize sc))) k))))
       (List.product ps [0..size_z (sc_hiddenSize sc) - 1]) acts"
proof -
  let ?g = "\<lambda>k h. h((\<lambda>(pos, hc). address3 (fst pos, snd pos, hc) (size_xy (sc_hiddenSize sc))) k :=
                     (\<lambda>(pos, hc). sc_activation sc inputCs firstIter pos hc) k
                       (h ((\<lambda>(pos, hc). address3 (fst pos, snd pos, hc) (size_xy (sc_hiddenSize sc))) k))) :: FloatBuffer"
  have one: "sc_forward_acts sc inputCs firstIter pos = fold ?g (map (Pair pos) [0..size_z (sc_hiddenSize sc) - 1])" for pos
    by (intro ext) (simp only: sc_forward_acts_def fold_map o_def prod.case)
  have "fold ?g (List.product ps [0..size_z (sc_hiddenSize sc) - 1]) =
        fold (\<lambda>pos. fold ?g (map (Pair pos) [0..size_z (sc_hiddenSize sc) - 1])) ps"
    by (simp only: product_concat_map fold_concat_map)
  moreover have "(\<lambda>pos. fold ?g (map (Pair pos) [0..size_z (sc_hiddenSize sc) - 1])) =
                 sc_forward_acts sc inputCs firstIter"
    by (intro ext) (simp only: one)
  ultimately show ?thesis by simp
qed

lemma sc_forward_pass_activation:
  assumes "0 \<le> x" "x < fst (sc_hiddenSize sc)" "0 \<le> y" "y < fst (snd (sc_hiddenSize sc))"
      and "0 \<le> hc" "hc < size_z (sc_hiddenSize sc)"
  shows "sc_hiddenActivations (sc_forward_pass rng inputCs firstIter sc)
           (address3 (x, y, hc) (size_xy (sc_hiddenSize sc))) =
         sc_activation sc inputCs firstIter (x, y) hc
           (sc_hiddenActivations sc (address3 (x, y, hc) (size_xy (sc_hiddenSize sc))))"
proof -
  let ?hx = "fst (sc_hiddenSize sc)" and ?hy = "fst (snd (sc_hiddenSize sc))"
  let ?ks = "List.product (positions ?hx ?hy) [0..size_z (sc_hiddenSize sc) - 1]"
  let ?key = "\<lambda>(pos, hc). address3 (fst pos, snd pos, hc) (size_xy (sc_hiddenSize sc))"
  let ?val = "\<lambda>(pos, hc). sc_activation sc inputCs firstIter pos hc"
  have mem: "((x, y), hc) \<in> set ?ks"
    using assms by (simp add: set_positions)
  have inj: "inj_on ?key (set ?ks)"
  proof (rule inj_onI)
    fix k k' assume k: "k \<in> set ?ks" and k': "k' \<in> set ?ks" and e: "?key k = ?key k'"
    obtain a b c where kk: "k = ((a, b), c)" by (metis prod.exhaust)
    obtain a' b' c' where kk': "k' = ((a', b'), c')" by (metis prod.exhaust)
    from k kk have r: "0 \<le> a" "a < ?hx" "0 \<le> b" "b < ?hy" by (simp_all add: set_positions)
    from k' kk' have r': "0 \<le> a'" "a' < ?hx" "0 \<le> b'" "b' < ?hy" by (simp_all add: set_positions)
    from e have "address3 (a, b, c) (?hx, ?hy) = address3 (a', b', c') (?hx, ?hy)"
      by (simp add: kk kk' size_xy_def)
    from address3_inj [OF r r' this] show "k = k'" by (simp add: kk kk')
  qed
  have dist: "distinct (map ?key ?ks)"
    using inj by (simp add: distinct_map distinct_product distinct_positions)
  have "sc_hiddenActivations (sc_forward_pass rng inputCs firstIter sc) =
        fold (\<lambda>k h. h(?key k := ?val k (h (?key k)))) ?ks (sc_hiddenActivations sc)"
    unfolding sc_forward_pass_def
    by (simp only: sc_forward_fold_acts [THEN conjunct1] sc_forward_acts_pairs)
  then have "sc_hiddenActivations (sc_forward_pass rng inputCs firstIter sc) (?key ((x, y), hc)) =
             ?val ((x, y), hc) (sc_hiddenActivations sc (?key ((x, y), hc)))"
    by (simp only: fold_point_updates [OF dist mem])
  then show ?thesis by simp
qed

section \<open>Iterations of the sparse coder\<close>

lemma sc_backward_frame:
  "sc_hiddenActivations (sc_backward pos rng inputCs vli sc) = sc_hiddenActivations sc"
  "sc_hiddenCs (sc_backward pos rng inputCs vli sc) = sc_hiddenCs sc"
  "sc_hiddenSize (sc_backward pos rng inputCs vli sc) = sc_hiddenSize sc"
  "sc_visibleLayerDescs (sc_backward pos rng inputCs vli sc) = sc_visibleLayerDescs sc"
  "length (sc_visibleLayers (sc_backward pos rng inputCs vli sc)) = length (sc_visibleLayers sc)"
  "sc_explainIters (sc_backward pos rng inputCs vli sc) = sc_explainIters sc"
  by (simp_all add: sc_backward_def Let_def)

lemma sc_backward_fold_frame:
  "sc_hiddenActivations (fold (\<lambda>pos. sc_backward pos rng inputCs vli) ps sc) = sc_hiddenActivations sc
   \<and> sc_hiddenCs (fold (\<lambda>pos. sc_backward pos rng inputCs vli) ps sc) = sc_hiddenCs sc
   \<and> sc_hiddenSize (fold (\<lambda>pos. sc_backward pos rng inputCs vli) ps sc) = sc_hiddenSize sc
   \<and> sc_visibleLayerDescs (fold (\<lambda>pos. sc_backward pos rng inputCs vli) ps sc) = sc_visibleLayerDescs sc
   \<and> length (sc_visibleLayers (fold (\<lambda>pos. sc_backward pos rng inputCs vli) ps sc)) = length (sc_visibleLayers sc)"
  by (induction ps arbitrary: sc) (simp_all add: sc_backward_frame)

lemma sc_backward_pass_frame:
  "sc_hiddenActivations (sc_backward_pass rng inputCs vli sc) = sc_hiddenActivations sc"
  "sc_hiddenCs (sc_backward_pass rng inputCs vli sc) = sc_hiddenCs sc"
  "sc_hiddenSize (sc_backward_pass rng inputCs vli sc) = sc_hiddenSize sc"
  "sc_visibleLayerDescs (sc_backward_pass rng inputCs vli sc) = sc_visibleLayerDescs sc"
  "length (sc_visibleLayers (sc_backward_pass rng inputCs vli sc)) = length (sc_visibleLayers sc)"
  by (simp_all add: sc_backward_pass_def Let_def sc_backward_fold_frame)

lemma sc_backward_passes_frame:
  "sc_hiddenActivations (fold (sc_backward_pass rng inputCs) vlis sc) = sc_hiddenActivations sc
   \<and> sc_hiddenCs (fold (sc_backward_pass rng inputCs) vlis sc) = sc_hiddenCs sc
   \<and> sc_hiddenSize (fold (sc_backward_pass rng inputCs) vlis sc) = sc_hiddenSize sc
   \<and> sc_visibleLayerDescs (fold (sc_backward_pass rng inputCs) vlis sc) = sc_visibleLayerDescs sc
   \<and> length (sc_visibleLayers (fold (sc_backward_pass rng inputCs) vlis sc)) = length (sc_visibleLayers sc)"
  by (induction vlis arbitrary: sc) (simp_all add: sc_backward_pass_frame)

lemma sc_iteration_activations:
  "sc_hiddenActivations (sc_iteration rng inputCs firstIter sc) =
     sc_hiddenActivations (sc_forward_pass rng inputCs firstIter sc)"
  by (simp add: sc_iteration_def sc_backward_passes_frame)

lemma fold_const_funpow: "fold (\<lambda>x. f) xs s = (f ^^ length xs) s"
  by (induction xs arbitrary: s) (simp_all add: funpow_swap1)

lemma sc_activate_iterations:
  "sc_activate rng visibleCs sc =
     (if sc_explainIters sc \<le> 0 then sc
      else ((sc_iteration rng visibleCs False) ^^ nat (sc_explainIters sc - 1))
             (sc_iteration rng visibleCs True sc))"
proof (cases "sc_explainIters sc \<le> 0")
  case True
  then show ?thesis by (simp add: sc_activate_def)
next
  case False
  then have u: "[0..sc_explainIters sc - 1] = 0 # [1..sc_explainIters sc - 1]"
    by (simp add: upto_rec1)
  have "fold (\<lambda>it. sc_iteration rng visibleCs (it = 0)) [1..sc_explainIters sc - 1] s =
        fold (\<lambda>it. sc_iteration rng visibleCs False) [1..sc_explainIters sc - 1] s" for s
    by (rule fold_cong) auto
  then show ?thesis
    using False by (simp add: sc_activate_def u fold_const_funpow)
qed


lemma ex_coder_fields:
  "sc_hiddenSize ex_coder = (1, 1, 2)"
  "sc_hiddenCs ex_coder = (\<lambda>i. 0)"
  "sc_hiddenActivations ex_coder = (\<lambda>i. 0)"
  "sc_visibleLayers ex_coder =
        [\<lparr>sc_weights = (\<lambda>i. if i = 3 then 1 else 1 / 2), sc_reconCs = (\<lambda>i. 0),
          sc_visibleToHidden = (1, 1), sc_hiddenToVisible = (1, 1), sc_reverseRadii = (1, 1)\<rparr>]"
  "sc_visibleLayerDescs ex_coder = [\<lparr>sc_size = (1, 1, 2), sc_radius = 0\<rparr>]"
  "sc_alpha ex_coder = 1 / 2" "sc_explainIters ex_coder = 2"
  by (simp_all add: ex_coder_def)

lemma ex_coder_field: "sc_field ex_coder 0 (0, 0) = [(0, 0)]"
  by (simp add: sc_field_def sc_fieldLowerBound_def box_def ex_coder_fields Let_def)

lemma ex_coder_support:
  "sc_support ex_coder cs (0, 0) hc =
     sc_weights (sc_visibleLayers ex_coder ! 0) (hc + cs 0 0 * 2)"
  by (simp add: sc_support_def ex_coder_field Let_def ex_coder_fields sc_fieldLowerBound_def size_z_def)

text \<open>
  C3. In an iteration of \<open>SparseCoder::activate\<close>, for every hidden column and every
  candidate code: on the first iteration the activation is set to the summed feed-forward
  weight support of the input codes; on a later iteration it is incremented by the input
  support minus the support of the current reconstruction codes. An iteration runs the
  forward kernel over all hidden columns and then the backward pass for every visible
  layer, and \<open>activate\<close> runs \<open>explainIters\<close> iterations, the first one with
  \<open>firstIter\<close> set.
\<close>

theorem sc_activate_explaining_away:
  assumes "0 \<le> x" "x < fst (sc_hiddenSize sc)" "0 \<le> y" "y < fst (snd (sc_hiddenSize sc))"
      and "0 \<le> hc" "hc < size_z (sc_hiddenSize sc)"
  shows "sc_hiddenActivations (sc_iteration rng visibleCs True sc)
             (address3 (x, y, hc) (size_xy (sc_hiddenSize sc))) =
           sc_support sc (\<lambda>vli. visibleCs ! vli) (x, y) hc
         \<and> sc_hiddenActivations (sc_iteration rng visibleCs False sc)
             (address3 (x, y, hc) (size_xy (sc_hiddenSize sc))) =
           sc_hiddenActivations sc (address3 (x, y, hc) (size_xy (sc_hiddenSize sc)))
             + (sc_support sc (\<lambda>vli. visibleCs ! vli) (x, y) hc
                - sc_support sc (\<lambda>vli. sc_reconCs (sc_visibleLayers sc ! vli)) (x, y) hc)
         \<and> sc_iteration rng visibleCs firstIter sc =
             fold (sc_backward_pass rng visibleCs) [0..<length (sc_visibleLayers sc)]
               (fold (\<lambda>pos. sc_forward pos rng visibleCs firstIter)
                  (positions (fst (sc_hiddenSize sc)) (fst (snd (sc_hiddenSize sc)))) sc)
         \<and> sc_activate rng visibleCs sc =
             (if sc_explainIters sc \<le> 0 then sc
              else ((sc_iteration rng visibleCs False) ^^ nat (sc_explainIters sc - 1))
                     (sc_iteration rng visibleCs True sc))"
proof (intro conjI)
  show "sc_hiddenActivations (sc_iteration rng visibleCs True sc)
             (address3 (x, y, hc) (size_xy (sc_hiddenSize sc))) =
           sc_support sc (\<lambda>vli. visibleCs ! vli) (x, y) hc"
    by (simp add: sc_iteration_activations sc_forward_pass_activation [OF assms]
          sc_activation_def sc_inputActivation_def)
  show "sc_hiddenActivations (sc_iteration rng visibleCs False sc)
             (address3 (x, y, hc) (size_xy (sc_hiddenSize sc))) =
           sc_hiddenActivations sc (address3 (x, y, hc) (size_xy (sc_hiddenSize sc)))
             + (sc_support sc (\<lambda>vli. visibleCs ! vli) (x, y) hc
                - sc_support sc (\<lambda>vli. sc_reconCs (sc_visibleLayers sc ! vli)) (x, y) hc)"
    by (simp add: sc_iteration_activations sc_forward_pass_activation [OF assms]
          sc_activation_def sc_inputActivation_def sc_reconActivation_def)
  show "sc_iteration rng visibleCs firstIter sc =
             fold (sc_backward_pass rng visibleCs) [0..<length (sc_visibleLayers sc)]
               (fold (\<lambda>pos. sc_forward pos rng visibleCs firstIter)
                  (positions (fst (sc_hiddenSize sc)) (fst (snd (sc_hiddenSize sc)))) sc)"
    by (simp add: sc_iteration_def sc_forward_pass_def)
  show "sc_activate rng visibleCs sc =
             (if sc_explainIters sc \<le> 0 then sc
              else ((sc_iteration rng visibleCs False) ^^ nat (sc_explainIters sc - 1))
                     (sc_iteration rng visibleCs True sc))"
    by (rule sc_activate_iterations)
qed

theorem sc_activate_explaining_away_witness:
  "(0::int) \<le> 0 \<and> 0 < fst (sc_hiddenSize ex_coder) \<and> 0 < fst (snd (sc_hiddenSize ex_coder))
   \<and> (0::int) \<le> 1 \<and> 1 < size_z (sc_hiddenSize ex_coder)
   \<and> sc_hiddenActivations (sc_iteration () [\<lambda>i. 1] True ex_coder)
        (address3 (0, 0, 1) (size_xy (sc_hiddenSize ex_coder))) = 1
   \<and> sc_hiddenActivations (sc_iteration () [\<lambda>i. 1] False ex_coder)
        (address3 (0, 0, 1) (size_xy (sc_hiddenSize ex_coder))) = 1 / 2"
proof -
  have h: "(0::int) \<le> 0" "0 < fst (sc_hiddenSize ex_coder)" "(0::int) \<le> 0"
    "0 < fst (snd (sc_hiddenSize ex_coder))" "(0::int) \<le> 1" "1 < size_z (sc_hiddenSize ex_coder)"
    by (simp_all add: ex_coder_fields size_z_def)
  note t = sc_activate_explaining_away [OF h, of "()" "[\<lambda>i. 1]" True]
  from t have a: "sc_hiddenActivations (sc_iteration () [\<lambda>i. 1] True ex_coder)
             (address3 (0, 0, 1) (size_xy (sc_hiddenSize ex_coder))) =
           sc_support ex_coder (\<lambda>vli. [\<lambda>i. 1] ! vli) (0, 0) 1"
    by (elim conjE)
  from t have b: "sc_hiddenActivations (sc_iteration () [\<lambda>i. 1] False ex_coder)
             (address3 (0, 0, 1) (size_xy (sc_hiddenSize ex_coder))) =
           sc_hiddenActivations ex_coder (address3 (0, 0, 1) (size_xy (sc_hiddenSize ex_coder)))
             + (sc_support ex_coder (\<lambda>vli. [\<lambda>i. 1] ! vli) (0, 0) 1
                - sc_support ex_coder (\<lambda>vli. sc_reconCs (sc_visibleLayers ex_coder ! vli)) (0, 0) 1)"
    by (elim conjE)
  show ?thesis
    unfolding a b using h
    by (simp add: ex_coder_support) (simp add: ex_coder_fields)
qed

section \<open>Folded point updates\<close>

lemma fold_add_other:
  "a \<notin> set as \<Longrightarrow> fold (\<lambda>a (w::'a \<Rightarrow> real). w(a := w a + d)) as w a = w a"
  by (induction as arbitrary: w) auto

lemma fold_add_member:
  assumes "distinct as" and "a \<in> set as"
  shows "fold (\<lambda>a (w::'a \<Rightarrow> real). w(a := w a + d)) as w a = w a + d"
  using fold_point_updates [of "\<lambda>a. a" as a "\<lambda>a old. old + d" w] assms
  by simp

lemma fold_steps_other:
  "a \<notin> set (concat (map A js)) \<Longrightarrow>
   fold (\<lambda>i w. fold (\<lambda>a (w'::'a \<Rightarrow> real). w'(a := w' a + D i w)) (A i) w) js w0 a = w0 a"
proof (induction js arbitrary: w0)
  case Nil
  show ?case by simp
next
  case (Cons j js)
  from Cons.prems have 1: "a \<notin> set (A j)" and 2: "a \<notin> set (concat (map A js))" by auto
  have "fold (\<lambda>i w. fold (\<lambda>a w'. w'(a := w' a + D i w)) (A i) w) (j # js) w0 a =
        fold (\<lambda>i w. fold (\<lambda>a w'. w'(a := w' a + D i w)) (A i) w) js
          (fold (\<lambda>a w'. w'(a := w' a + D j w0)) (A j) w0) a"
    by (simp only: fold_simps o_apply)
  also have "\<dots> = fold (\<lambda>a w'. w'(a := w' a + D j w0)) (A j) w0 a"
    by (rule Cons.IH [OF 2])
  also have "\<dots> = w0 a"
    by (rule fold_add_other [OF 1])
  finally show ?case .
qed

lemma fold_steps_member:
  fixes D :: "'i \<Rightarrow> ('a \<Rightarrow> real) \<Rightarrow> real"
  assumes "distinct (concat (map A js))"
      and "\<And>i w w'. i \<in> set js \<Longrightarrow> (\<forall>a \<in> set (A i). w a = w' a) \<Longrightarrow> D i w = D i w'"
      and "i \<in> set js" and "a \<in> set (A i)"
  shows "fold (\<lambda>i w. fold (\<lambda>a w'. w'(a := w' a + D i w)) (A i) w) js w0 a = w0 a + D i w0"
  using assms
proof (induction js arbitrary: w0)
  case Nil
  then show ?case by simp
next
  case (Cons j js)
  let ?step = "\<lambda>i w. fold (\<lambda>a (w'::'a \<Rightarrow> real). w'(a := w' a + D i w)) (A i) w"
  define w1 where "w1 = ?step j w0"
  from Cons.prems(1) have dj: "distinct (A j)" and djs: "distinct (concat (map A js))"
    and disj: "set (A j) \<inter> set (concat (map A js)) = {}"
    by simp_all
  have unf: "fold ?step (j # js) w0 a = fold ?step js w1 a"
    by (simp only: fold_simps o_apply w1_def)
  show ?case
  proof (cases "a \<in> set (A j)")
    case True
    then have out: "a \<notin> set (concat (map A js))" using disj by auto
    have ij: "i = j"
    proof (rule ccontr)
      assume "i \<noteq> j"
      with Cons.prems(3) have "i \<in> set js" by simp
      with Cons.prems(4) have "a \<in> set (concat (map A js))" by auto
      with out show False by simp
    qed
    have "fold ?step js w1 a = w1 a" by (rule fold_steps_other [OF out])
    also have "\<dots> = w0 a + D j w0" unfolding w1_def by (rule fold_add_member [OF dj True])
    finally have "fold ?step js w1 a = w0 a + D j w0" .
    then show ?thesis by (simp only: unf ij)
  next
    case False
    with Cons.prems(3,4) have i: "i \<in> set js" by auto
    have agree: "\<forall>b \<in> set (A i). w1 b = w0 b"
    proof
      fix b assume "b \<in> set (A i)"
      with i have "b \<in> set (concat (map A js))" by auto
      with disj have "b \<notin> set (A j)" by auto
      then show "w1 b = w0 b" unfolding w1_def by (rule fold_add_other)
    qed
    have "fold ?step js w1 a = w1 a + D i w1"
      by (rule Cons.IH [OF djs _ i Cons.prems(4)]) (rule Cons.prems(2), simp_all)
    also have "w1 a = w0 a" unfolding w1_def by (rule fold_add_other [OF False])
    also have "D i w1 = D i w0"
      by (rule Cons.prems(2)) (use i agree in simp_all)
    finally have "fold ?step js w1 a = w0 a + D i w0" .
    then show ?thesis by (simp only: unf)
  qed
qed

lemma distinct_dependent_pairs:
  "distinct xs \<Longrightarrow> (\<And>x. x \<in> set xs \<Longrightarrow> distinct (g x)) \<Longrightarrow>
   distinct (concat (map (\<lambda>x. map (Pair x) (g x)) xs))"
  by (induction xs) (auto simp add: distinct_map inj_on_def)

section \<open>The learn pass of the sparse coder\<close>

lemma sc_set_weights_layer:
  "sc_hiddenToVisible (sc_visibleLayers (sc_set_weights sc vli w) ! v) = sc_hiddenToVisible (sc_visibleLayers sc ! v)"
  "sc_visibleToHidden (sc_visibleLayers (sc_set_weights sc vli w) ! v) = sc_visibleToHidden (sc_visibleLayers sc ! v)"
  "sc_reverseRadii (sc_visibleLayers (sc_set_weights sc vli w) ! v) = sc_reverseRadii (sc_visibleLayers sc ! v)"
  "sc_reconCs (sc_visibleLayers (sc_set_weights sc vli w) ! v) = sc_reconCs (sc_visibleLayers sc ! v)"
  by (cases "vli < length (sc_visibleLayers sc)"; cases "v = vli";
      simp add: sc_set_weights_def list_update_beyond)+

lemma sc_set_weights_fields:
  "sc_hiddenSize (sc_set_weights sc vli w) = sc_hiddenSize sc"
  "sc_hiddenCs (sc_set_weights sc vli w) = sc_hiddenCs sc"
  "sc_hiddenActivations (sc_set_weights sc vli w) = sc_hiddenActivations sc"
  "sc_visibleLayerDescs (sc_set_weights sc vli w) = sc_visibleLayerDescs sc"
  "sc_alpha (sc_set_weights sc vli w) = sc_alpha sc"
  "sc_explainIters (sc_set_weights sc vli w) = sc_explainIters sc"
  "length (sc_visibleLayers (sc_set_weights sc vli w)) = length (sc_visibleLayers sc)"
  by (simp_all add: sc_set_weights_def)

lemma sc_set_weights_weights:
  "vli < length (sc_visibleLayers sc) \<Longrightarrow>
   sc_weights (sc_visibleLayers (sc_set_weights sc vli w) ! vli) = w"
  by (simp add: sc_set_weights_def)

lemma sc_set_weights_twice:
  "sc_set_weights (sc_set_weights sc vli w) vli w' = sc_set_weights sc vli w'"
  by (cases "vli < length (sc_visibleLayers sc)") (simp_all add: sc_set_weights_def list_update_beyond)

lemma sc_fieldLowerBound_frame:
  "sc_fieldLowerBound (sc_set_weights sc vli w) = sc_fieldLowerBound sc"
  by (intro ext) (simp add: sc_fieldLowerBound_def sc_set_weights_layer sc_set_weights_fields)

lemma sc_contains_frame:
  "sc_contains (sc_set_weights sc vli w) = sc_contains sc"
  by (intro ext) (simp add: sc_contains_def sc_set_weights_layer sc_set_weights_fields)

lemma sc_window_frame:
  "sc_window (sc_set_weights sc vli w) = sc_window sc"
  by (intro ext) (simp add: sc_window_def Let_def sc_set_weights_layer sc_set_weights_fields)

lemmas sc_geometry_frame = sc_fieldLowerBound_frame sc_contains_frame sc_window_frame

lemma sc_covering_frame: "sc_covering (sc_set_weights sc vli w) = sc_covering sc"
  by (intro ext) (simp add: sc_covering_def sc_geometry_frame)

lemma sc_wAddr_frame: "sc_wAddr (sc_set_weights sc vli w) = sc_wAddr sc"
  by (intro ext) (simp add: sc_wAddr_def sc_geometry_frame sc_set_weights_fields)

lemma sc_learn_vc_frame: "sc_learn_vc (sc_set_weights sc vli w) = sc_learn_vc sc"
  by (intro ext)
     (simp add: sc_learn_vc_def sc_avg_def sc_sum_def sc_divisor_def sc_count_def
        sc_covering_frame sc_wAddr_frame sc_set_weights_fields)

lemma sc_learn_weights_frame:
  "sc_learn_weights (sc_set_weights sc vli w) = sc_learn_weights sc"
  by (intro ext) (simp add: sc_learn_weights_def sc_learn_vc_frame sc_set_weights_fields)

lemma sc_learn_eq:
  "sc_learn pos rng inputCs vli sc =
     sc_set_weights sc vli (sc_learn_weights sc inputCs vli pos (sc_weights (sc_visibleLayers sc ! vli)))"
  by (simp add: sc_learn_def sc_set_weights_def sc_learn_weights_def Let_def)

lemma sc_learn_fold:
  assumes "vli < length (sc_visibleLayers sc)"
  shows "fold (\<lambda>pos. sc_learn pos rng inputCs vli) ps sc =
     sc_set_weights sc vli
       (fold (sc_learn_weights sc inputCs vli) ps (sc_weights (sc_visibleLayers sc ! vli)))"
  using assms
proof (induction ps arbitrary: sc)
  case Nil
  show ?case by (simp add: sc_set_weights_def)
next
  case (Cons p ps)
  define w1 where "w1 = sc_learn_weights sc inputCs vli p (sc_weights (sc_visibleLayers sc ! vli))"
  define sc1 where "sc1 = sc_set_weights sc vli w1"
  have s1: "sc_learn p rng inputCs vli sc = sc1"
    unfolding sc1_def w1_def by (rule sc_learn_eq)
  have l1: "vli < length (sc_visibleLayers sc1)"
    unfolding sc1_def using Cons.prems by (simp add: sc_set_weights_fields)
  have "fold (\<lambda>pos. sc_learn pos rng inputCs vli) (p # ps) sc =
        fold (\<lambda>pos. sc_learn pos rng inputCs vli) ps sc1"
    by (simp only: fold_simps o_apply s1)
  also have "\<dots> = sc_set_weights sc1 vli
       (fold (sc_learn_weights sc1 inputCs vli) ps (sc_weights (sc_visibleLayers sc1 ! vli)))"
    by (rule Cons.IH [OF l1])
  also have "\<dots> = sc_set_weights sc vli
       (fold (sc_learn_weights sc inputCs vli) ps w1)"
    unfolding sc1_def
    by (simp only: sc_learn_weights_frame sc_set_weights_twice sc_set_weights_weights [OF Cons.prems])
  also have "\<dots> = sc_set_weights sc vli
       (fold (sc_learn_weights sc inputCs vli) (p # ps) (sc_weights (sc_visibleLayers sc ! vli)))"
    by (simp only: fold_simps o_apply w1_def)
  finally show ?case .
qed

lemma box_product: "box lower upper = List.product [fst lower..fst upper] [snd lower..snd upper]"
  by (simp add: box_def product_concat_map)

lemma set_box:
  "set (box lower upper) = {(x, y). fst lower \<le> x \<and> x \<le> fst upper \<and> snd lower \<le> y \<and> y \<le> snd upper}"
  by (auto simp add: box_product)

lemma distinct_box: "distinct (box lower upper)"
  by (simp add: box_product distinct_product)

lemma distinct_sc_covering: "distinct (sc_covering sc vli pos)"
  by (simp add: sc_covering_def sc_window_def Let_def distinct_box)

lemma sc_window_in_grid:
  assumes "hp \<in> set (sc_window sc vli pos)"
  shows "0 \<le> fst hp \<and> fst hp < fst (sc_hiddenSize sc) \<and> 0 \<le> snd hp \<and> snd hp < fst (snd (sc_hiddenSize sc))"
proof -
  obtain a b where h: "hp = (a, b)" by (cases hp)
  from assms show ?thesis
    unfolding h by (auto simp add: sc_window_def Let_def set_box)
qed

lemma sc_contains_offsets:
  assumes "sc_contains sc vli pos hp"
  shows "0 \<le> fst pos - fst (sc_fieldLowerBound sc vli hp)
       \<and> fst pos - fst (sc_fieldLowerBound sc vli hp) < sc_radius (sc_visibleLayerDescs sc ! vli) * 2 + 1
       \<and> 0 \<le> snd pos - snd (sc_fieldLowerBound sc vli hp)
       \<and> snd pos - snd (sc_fieldLowerBound sc vli hp) < sc_radius (sc_visibleLayerDescs sc ! vli) * 2 + 1"
proof -
  obtain px py where p: "pos = (px, py)" by (cases pos)
  obtain cx cy where c: "project hp (sc_hiddenToVisible (sc_visibleLayers sc ! vli)) = (cx, cy)"
    by (cases "project hp (sc_hiddenToVisible (sc_visibleLayers sc ! vli))")
  from assms show ?thesis
    by (simp add: sc_contains_def sc_fieldLowerBound_def Let_def p c)
qed

lemma address4_inj_xy:
  assumes "0 \<le> x" "x < dx" "0 \<le> y" "y < dy" "0 \<le> x'" "x' < dx" "0 \<le> y'" "y' < dy"
      and "address4 (x, y, z, w) (dx, dy, dz) = address4 (x', y', z', w') (dx, dy, dz)"
  shows "x = x' \<and> y = y' \<and> z + dz * w = z' + dz * w'"
proof -
  from assms(9) have "x + dx * (y + dy * (z + dz * w)) = x' + dx * (y' + dy * (z' + dz * w'))"
    by (simp add: algebra_simps)
  from digit_unique [OF assms(1,2,5,6) this] have x: "x = x'"
    and "y + dy * (z + dz * w) = y' + dy * (z' + dz * w')"
    by simp_all
  from digit_unique [OF assms(3,4,7,8) this(2)] x show ?thesis by simp
qed

lemma sc_wAddr_inj:
  assumes dims: "0 < size_z (sc_hiddenSize sc)"
      and hp: "hp \<in> set (sc_covering sc vli pos)" and hp': "hp' \<in> set (sc_covering sc vli pos')"
      and eq: "sc_wAddr sc vli pos vc hp = sc_wAddr sc vli pos' vc' hp'"
  shows "pos = pos' \<and> vc = vc' \<and> hp = hp'"
proof -
  obtain hx hy hz where hs: "sc_hiddenSize sc = (hx, hy, hz)" by (metis prod.exhaust)
  let ?diam = "sc_radius (sc_visibleLayerDescs sc ! vli) * 2 + 1"
  let ?flb = "sc_fieldLowerBound sc vli"
  let ?hc = "\<lambda>h. sc_hiddenCs sc (address2 h hx)"
  let ?d = "\<lambda>p c h. fst p - fst (?flb h) + (snd p - snd (?flb h)) * ?diam + c * (?diam * ?diam)"
  from hp have w: "hp \<in> set (sc_window sc vli pos)" and c: "sc_contains sc vli pos hp"
    by (simp_all add: sc_covering_def)
  from hp' have w': "hp' \<in> set (sc_window sc vli pos')" and c': "sc_contains sc vli pos' hp'"
    by (simp_all add: sc_covering_def)
  from sc_window_in_grid [OF w] have g: "0 \<le> fst hp" "fst hp < hx" "0 \<le> snd hp" "snd hp < hy"
    by (simp_all add: hs)
  from sc_window_in_grid [OF w'] have g': "0 \<le> fst hp'" "fst hp' < hx" "0 \<le> snd hp'" "snd hp' < hy"
    by (simp_all add: hs)
  from eq have "address4 (fst hp, snd hp, ?hc hp, ?d pos vc hp) (hx, hy, hz) =
                address4 (fst hp', snd hp', ?hc hp', ?d pos' vc' hp') (hx, hy, hz)"
    by (simp only: sc_wAddr_def Let_def hs fst_conv)
  from address4_inj_xy [OF g g' this]
  have e1: "fst hp = fst hp'" and e2: "snd hp = snd hp'"
    and e3: "?hc hp + hz * ?d pos vc hp = ?hc hp' + hz * ?d pos' vc' hp'"
    by simp_all
  from e1 e2 have h: "hp = hp'" by (simp add: prod_eq_iff)
  from dims hs have "hz \<noteq> 0" by (simp add: size_z_def)
  with e3 h have d: "?d pos vc hp = ?d pos' vc' hp" by simp
  from sc_contains_offsets [OF c] have o: "0 \<le> fst pos - fst (?flb hp)" "fst pos - fst (?flb hp) < ?diam"
    "0 \<le> snd pos - snd (?flb hp)" "snd pos - snd (?flb hp) < ?diam" by simp_all
  from sc_contains_offsets [OF c'] h
  have o': "0 \<le> fst pos' - fst (?flb hp)" "fst pos' - fst (?flb hp) < ?diam"
    "0 \<le> snd pos' - snd (?flb hp)" "snd pos' - snd (?flb hp) < ?diam" by simp_all
  from d have "fst pos - fst (?flb hp) + ?diam * (snd pos - snd (?flb hp) + ?diam * vc) =
               fst pos' - fst (?flb hp) + ?diam * (snd pos' - snd (?flb hp) + ?diam * vc')"
    by (simp add: algebra_simps)
  from digit_unique [OF o(1,2) o'(1,2) this]
  have f1: "fst pos = fst pos'"
    and "snd pos - snd (?flb hp) + ?diam * vc = snd pos' - snd (?flb hp) + ?diam * vc'"
    by simp_all
  from digit_unique [OF o(3,4) o'(3,4) this(2)] have f2: "snd pos = snd pos'" and f3: "vc = vc'"
    by simp_all
  from f1 f2 f3 h show ?thesis by (simp add: prod_eq_iff)
qed

lemma fold_sum_cong:
  "(\<And>x. x \<in> set xs \<Longrightarrow> f x = g x) \<Longrightarrow>
   fold (\<lambda>x (s::real). s + f x) xs s0 = fold (\<lambda>x s. s + g x) xs s0"
  by (rule fold_cong) simp_all

lemma sc_avg_cong:
  assumes "\<forall>a \<in> set (map (sc_wAddr sc vli pos vc) (sc_covering sc vli pos)). w a = w' a"
  shows "sc_avg sc vli pos vc w = sc_avg sc vli pos vc w'"
proof -
  have "sc_sum sc vli pos vc w = sc_sum sc vli pos vc w'"
    unfolding sc_sum_def by (rule fold_sum_cong) (use assms in simp)
  then show ?thesis by (simp add: sc_avg_def)
qed

lemma sc_learn_vc_step:
  "sc_learn_vc sc vli pos ((inputCs ! vli) (address2 pos (fst (sc_size (sc_visibleLayerDescs sc ! vli))))) vc w =
     fold (\<lambda>a w'. w'(a := w' a + sc_learn_delta sc inputCs vli (pos, vc) w))
       (sc_learn_addrs sc vli (pos, vc)) w"
  by (simp only: sc_learn_vc_def Let_def sc_learn_delta_def sc_learn_addrs_def fold_map o_def
        fst_conv snd_conv)

lemma sc_learn_vc_step_fn:
  "sc_learn_vc sc vli pos ((inputCs ! vli) (address2 pos (fst (sc_size (sc_visibleLayerDescs sc ! vli))))) =
     (\<lambda>vc w. fold (\<lambda>a w'. w'(a := w' a + sc_learn_delta sc inputCs vli (pos, vc) w))
       (sc_learn_addrs sc vli (pos, vc)) w)"
  by (intro ext) (simp only: sc_learn_vc_step)

lemma sc_learn_addrs_fn:
  "sc_learn_addrs sc vli = (\<lambda>k. map (sc_wAddr sc vli (fst k) (snd k)) (sc_covering sc vli (fst k)))"
  by (intro ext) (simp only: sc_learn_addrs_def)

lemma sc_learn_weights_steps:
  "fold (sc_learn_weights sc inputCs vli) ps w =
     fold (\<lambda>k w. fold (\<lambda>a w'. w'(a := w' a + sc_learn_delta sc inputCs vli k w))
                    (sc_learn_addrs sc vli k) w)
       (List.product ps [0..size_z (sc_size (sc_visibleLayerDescs sc ! vli)) - 1]) w"
proof -
  let ?step = "\<lambda>k w. fold (\<lambda>a w'. w'(a := w' a + sc_learn_delta sc inputCs vli k w))
                    (sc_learn_addrs sc vli k) w"
  let ?vcs = "[0..size_z (sc_size (sc_visibleLayerDescs sc ! vli)) - 1]"
  have one: "sc_learn_weights sc inputCs vli pos = fold ?step (map (Pair pos) ?vcs)" for pos
    by (rule ext) (simp only: sc_learn_weights_def sc_learn_vc_step_fn fold_map o_def)
  have "fold ?step (List.product ps ?vcs) = fold (\<lambda>pos. fold ?step (map (Pair pos) ?vcs)) ps"
    by (simp only: product_concat_map fold_concat_map)
  moreover have "(\<lambda>pos. fold ?step (map (Pair pos) ?vcs)) = sc_learn_weights sc inputCs vli"
    by (intro ext) (simp only: one)
  ultimately show ?thesis by simp
qed

lemma sc_learn_addrs_distinct:
  assumes "0 < size_z (sc_hiddenSize sc)" and "distinct ks"
  shows "distinct (concat (map (sc_learn_addrs sc vli) ks))"
proof -
  let ?ts = "concat (map (\<lambda>k. map (Pair k) (sc_covering sc vli (fst k))) ks)"
  let ?F = "\<lambda>(k, hp). sc_wAddr sc vli (fst k) (snd k) hp"
  have c: "concat (map (sc_learn_addrs sc vli) ks) = map ?F ?ts"
    by (simp add: sc_learn_addrs_fn map_concat o_def)
  have d: "distinct ?ts"
    by (rule distinct_dependent_pairs [OF assms(2)]) (rule distinct_sc_covering)
  have i: "inj_on ?F (set ?ts)"
  proof (rule inj_onI)
    fix t t' assume t: "t \<in> set ?ts" and t': "t' \<in> set ?ts" and e: "?F t = ?F t'"
    obtain pos vc hp where tt: "t = ((pos, vc), hp)" by (metis prod.exhaust)
    obtain pos' vc' hp' where tt': "t' = ((pos', vc'), hp')" by (metis prod.exhaust)
    from t tt have m: "hp \<in> set (sc_covering sc vli pos)" by auto
    from t' tt' have m': "hp' \<in> set (sc_covering sc vli pos')" by auto
    from e have "sc_wAddr sc vli pos vc hp = sc_wAddr sc vli pos' vc' hp'"
      by (simp add: tt tt')
    from sc_wAddr_inj [OF assms(1) m m' this] show "t = t'" by (simp add: tt tt')
  qed
  show ?thesis unfolding c by (simp only: distinct_map d i simp_thms)
qed

lemma sc_learn_pass_weights:
  assumes vli: "vli < length (sc_visibleLayers sc)"
      and hz: "0 < size_z (sc_hiddenSize sc)"
      and pos: "pos \<in> set (positions (fst (sc_size (sc_visibleLayerDescs sc ! vli)))
                              (fst (snd (sc_size (sc_visibleLayerDescs sc ! vli)))))"
      and vc: "0 \<le> vc" "vc < size_z (sc_size (sc_visibleLayerDescs sc ! vli))"
      and hp: "hp \<in> set (sc_covering sc vli pos)"
  shows "sc_weights (sc_visibleLayers (sc_learn_pass rng inputCs vli sc) ! vli)
           (sc_wAddr sc vli pos vc hp) =
         sc_weights (sc_visibleLayers sc ! vli) (sc_wAddr sc vli pos vc hp)
           + sc_learn_delta sc inputCs vli (pos, vc) (sc_weights (sc_visibleLayers sc ! vli))"
proof -
  let ?vld = "sc_visibleLayerDescs sc ! vli"
  let ?ps = "positions (fst (sc_size ?vld)) (fst (snd (sc_size ?vld)))"
  let ?ks = "List.product ?ps [0..size_z (sc_size ?vld) - 1]"
  let ?w0 = "sc_weights (sc_visibleLayers sc ! vli)"
  have k: "(pos, vc) \<in> set ?ks" using pos vc by simp
  have a: "sc_wAddr sc vli pos vc hp \<in> set (sc_learn_addrs sc vli (pos, vc))"
    using hp by (simp add: sc_learn_addrs_def)
  have d: "distinct (concat (map (sc_learn_addrs sc vli) ?ks))"
    by (rule sc_learn_addrs_distinct [OF hz]) (simp add: distinct_product distinct_positions)
  have dep: "sc_learn_delta sc inputCs vli i w = sc_learn_delta sc inputCs vli i w'"
    if "i \<in> set ?ks" "\<forall>a \<in> set (sc_learn_addrs sc vli i). w a = w' a" for i w w'
    using that(2) sc_avg_cong [of sc vli "fst i" "snd i" w w']
    by (simp add: sc_learn_delta_def sc_learn_addrs_def)
  have "sc_learn_pass rng inputCs vli sc =
        sc_set_weights sc vli (fold (sc_learn_weights sc inputCs vli) ?ps ?w0)"
    by (simp add: sc_learn_pass_def Let_def sc_learn_fold [OF vli])
  then have "sc_weights (sc_visibleLayers (sc_learn_pass rng inputCs vli sc) ! vli) =
             fold (sc_learn_weights sc inputCs vli) ?ps ?w0"
    by (simp add: sc_set_weights_weights [OF vli])
  also have "\<dots> = fold (\<lambda>k w. fold (\<lambda>a w'. w'(a := w' a + sc_learn_delta sc inputCs vli k w))
                    (sc_learn_addrs sc vli k) w) ?ks ?w0"
    by (rule sc_learn_weights_steps)
  finally show ?thesis
    by (simp only: fold_steps_member [OF d dep k a])
qed

lemma ex_coder_window: "sc_window ex_coder 0 (0, 0) = [(0, 0)]"
  by (simp add: sc_window_def box_def ex_coder_fields Let_def)

lemma ex_coder_contains: "sc_contains ex_coder 0 (0, 0) (0, 0)"
  by (simp add: sc_contains_def ex_coder_fields Let_def)

lemma ex_coder_covering: "sc_covering ex_coder 0 (0, 0) = [(0, 0)]"
  by (simp add: sc_covering_def ex_coder_window ex_coder_contains)

lemma ex_coder_wAddr: "sc_wAddr ex_coder 0 (0, 0) vc (0, 0) = vc * 2"
  by (simp add: sc_wAddr_def sc_fieldLowerBound_def ex_coder_fields Let_def)

lemma ex_coder_avg: "sc_avg ex_coder 0 (0, 0) vc w = w (vc * 2)"
  by (simp add: sc_avg_def sc_sum_def sc_divisor_def sc_count_def ex_coder_covering ex_coder_wAddr)

lemma sc_learn_pass_other:
  assumes vli: "vli < length (sc_visibleLayers sc)"
      and out: "a \<notin> set (concat (map (sc_learn_addrs sc vli)
                  (List.product (positions (fst (sc_size (sc_visibleLayerDescs sc ! vli)))
                                   (fst (snd (sc_size (sc_visibleLayerDescs sc ! vli)))))
                     [0..size_z (sc_size (sc_visibleLayerDescs sc ! vli)) - 1])))"
  shows "sc_weights (sc_visibleLayers (sc_learn_pass rng inputCs vli sc) ! vli) a =
         sc_weights (sc_visibleLayers sc ! vli) a"
proof -
  let ?vld = "sc_visibleLayerDescs sc ! vli"
  let ?ps = "positions (fst (sc_size ?vld)) (fst (snd (sc_size ?vld)))"
  let ?ks = "List.product ?ps [0..size_z (sc_size ?vld) - 1]"
  let ?w0 = "sc_weights (sc_visibleLayers sc ! vli)"
  have "sc_learn_pass rng inputCs vli sc =
        sc_set_weights sc vli (fold (sc_learn_weights sc inputCs vli) ?ps ?w0)"
    by (simp add: sc_learn_pass_def Let_def sc_learn_fold [OF vli])
  then have "sc_weights (sc_visibleLayers (sc_learn_pass rng inputCs vli sc) ! vli) =
             fold (sc_learn_weights sc inputCs vli) ?ps ?w0"
    by (simp add: sc_set_weights_weights [OF vli])
  also have "\<dots> = fold (\<lambda>k w. fold (\<lambda>a w'. w'(a := w' a + sc_learn_delta sc inputCs vli k w))
                    (sc_learn_addrs sc vli k) w) ?ks ?w0"
    by (rule sc_learn_weights_steps)
  finally show ?thesis
    by (simp only: fold_steps_other [OF out])
qed

lemma sc_wAddr_inj_contains:
  assumes dims: "0 < size_z (sc_hiddenSize sc)"
      and g: "0 \<le> fst hp" "fst hp < fst (sc_hiddenSize sc)" "0 \<le> snd hp" "snd hp < fst (snd (sc_hiddenSize sc))"
      and c: "sc_contains sc vli pos hp"
      and hp': "hp' \<in> set (sc_covering sc vli pos')"
      and eq: "sc_wAddr sc vli pos vc hp = sc_wAddr sc vli pos' vc' hp'"
  shows "pos = pos' \<and> vc = vc' \<and> hp = hp'"
proof -
  obtain hx hy hz where hs: "sc_hiddenSize sc = (hx, hy, hz)" by (metis prod.exhaust)
  let ?diam = "sc_radius (sc_visibleLayerDescs sc ! vli) * 2 + 1"
  let ?flb = "sc_fieldLowerBound sc vli"
  let ?hc = "\<lambda>h. sc_hiddenCs sc (address2 h hx)"
  let ?d = "\<lambda>p c h. fst p - fst (?flb h) + (snd p - snd (?flb h)) * ?diam + c * (?diam * ?diam)"
  from hp' have w': "hp' \<in> set (sc_window sc vli pos')" and c': "sc_contains sc vli pos' hp'"
    by (simp_all add: sc_covering_def)
  from g have g0: "0 \<le> fst hp" "fst hp < hx" "0 \<le> snd hp" "snd hp < hy"
    by (simp_all add: hs)
  from sc_window_in_grid [OF w'] have g': "0 \<le> fst hp'" "fst hp' < hx" "0 \<le> snd hp'" "snd hp' < hy"
    by (simp_all add: hs)
  from eq have "address4 (fst hp, snd hp, ?hc hp, ?d pos vc hp) (hx, hy, hz) =
                address4 (fst hp', snd hp', ?hc hp', ?d pos' vc' hp') (hx, hy, hz)"
    by (simp only: sc_wAddr_def Let_def hs fst_conv)
  from address4_inj_xy [OF g0 g' this]
  have e1: "fst hp = fst hp'" and e2: "snd hp = snd hp'"
    and e3: "?hc hp + hz * ?d pos vc hp = ?hc hp' + hz * ?d pos' vc' hp'"
    by simp_all
  from e1 e2 have h: "hp = hp'" by (simp add: prod_eq_iff)
  from dims hs have "hz \<noteq> 0" by (simp add: size_z_def)
  with e3 h have d: "?d pos vc hp = ?d pos' vc' hp" by simp
  from sc_contains_offsets [OF c] have o: "0 \<le> fst pos - fst (?flb hp)" "fst pos - fst (?flb hp) < ?diam"
    "0 \<le> snd pos - snd (?flb hp)" "snd pos - snd (?flb hp) < ?diam" by simp_all
  from sc_contains_offsets [OF c'] h
  have o': "0 \<le> fst pos' - fst (?flb hp)" "fst pos' - fst (?flb hp) < ?diam"
    "0 \<le> snd pos' - snd (?flb hp)" "snd pos' - snd (?flb hp) < ?diam" by simp_all
  from d have "fst pos - fst (?flb hp) + ?diam * (snd pos - snd (?flb hp) + ?diam * vc) =
               fst pos' - fst (?flb hp) + ?diam * (snd pos' - snd (?flb hp) + ?diam * vc')"
    by (simp add: algebra_simps)
  from digit_unique [OF o(1,2) o'(1,2) this]
  have f1: "fst pos = fst pos'"
    and "snd pos - snd (?flb hp) + ?diam * vc = snd pos' - snd (?flb hp) + ?diam * vc'"
    by simp_all
  from digit_unique [OF o(3,4) o'(3,4) this(2)] have f2: "snd pos = snd pos'" and f3: "vc = vc'"
    by simp_all
  from f1 f2 f3 h show ?thesis by (simp add: prod_eq_iff)
qed

lemma sc_learn_pass_unvisited:
  assumes vli: "vli < length (sc_visibleLayers sc)"
      and dims: "0 < size_z (sc_hiddenSize sc)"
      and g: "0 \<le> fst hp" "fst hp < fst (sc_hiddenSize sc)" "0 \<le> snd hp" "snd hp < fst (snd (sc_hiddenSize sc))"
      and c: "sc_contains sc vli pos hp"
      and out: "hp \<notin> set (sc_window sc vli pos)"
  shows "sc_weights (sc_visibleLayers (sc_learn_pass rng inputCs vli sc) ! vli) (sc_wAddr sc vli pos vc hp) =
         sc_weights (sc_visibleLayers sc ! vli) (sc_wAddr sc vli pos vc hp)"
proof (rule sc_learn_pass_other [OF vli])
  show "sc_wAddr sc vli pos vc hp \<notin> set (concat (map (sc_learn_addrs sc vli)
                  (List.product (positions (fst (sc_size (sc_visibleLayerDescs sc ! vli)))
                                   (fst (snd (sc_size (sc_visibleLayerDescs sc ! vli)))))
                     [0..size_z (sc_size (sc_visibleLayerDescs sc ! vli)) - 1])))"
  proof
    assume "sc_wAddr sc vli pos vc hp \<in> set (concat (map (sc_learn_addrs sc vli)
                  (List.product (positions (fst (sc_size (sc_visibleLayerDescs sc ! vli)))
                                   (fst (snd (sc_size (sc_visibleLayerDescs sc ! vli)))))
                     [0..size_z (sc_size (sc_visibleLayerDescs sc ! vli)) - 1])))"
    then obtain pos' vc' hp' where o:
      "hp' \<in> set (sc_covering sc vli pos')" "sc_wAddr sc vli pos vc hp = sc_wAddr sc vli pos' vc' hp'"
      by (auto simp add: sc_learn_addrs_def)
    from sc_wAddr_inj_contains [OF dims g c o] have "pos = pos'" "hp = hp'" by simp_all
    with o(1) have "hp \<in> set (sc_window sc vli pos)" by (simp add: sc_covering_def)
    with out show False by simp
  qed
qed

lemma ex_wide_fields:
  "sc_hiddenSize ex_coder_wide = (16, 1, 1)"
  "sc_hiddenCs ex_coder_wide = (\<lambda>i. 0)"
  "sc_visibleLayers ex_coder_wide =
        [\<lparr>sc_weights = (\<lambda>i. 1 / 2), sc_reconCs = (\<lambda>i. 0),
          sc_visibleToHidden = (4, 1), sc_hiddenToVisible = (1 / 4, 1), sc_reverseRadii = (5, 2)\<rparr>]"
  "sc_visibleLayerDescs ex_coder_wide = [\<lparr>sc_size = (4, 1, 1), sc_radius = 1\<rparr>]"
  "sc_alpha ex_coder_wide = 1 / 2"
  by (simp_all add: ex_coder_wide_def)

lemma ex_wide_contains: "sc_contains ex_coder_wide 0 (1, 0) (0, 0)" "sc_contains ex_coder_wide 0 (1, 0) (1, 0)"
  by (simp_all add: sc_contains_def ex_wide_fields Let_def)

lemma ex_wide_window: "set (sc_window ex_coder_wide 0 (1, 0)) = {(x, y). 1 \<le> x \<and> x \<le> 11 \<and> y = 0}"
  by (auto simp add: sc_window_def ex_wide_fields Let_def set_box)

lemma ex_wide_wAddr: "sc_wAddr ex_coder_wide 0 (1, 0) 0 (0, 0) = 80" "sc_wAddr ex_coder_wide 0 (1, 0) 0 (1, 0) = 81"
  by (simp_all add: sc_wAddr_def sc_fieldLowerBound_def ex_wide_fields Let_def)


lemma sc_avg_constant:
  "sc_avg sc vli pos vc (\<lambda>i. c) = (if sc_covering sc vli pos = [] then 0 else c)"
proof -
  have "fold (\<lambda>hp (s::real). s + c) xs s0 = s0 + real (length xs) * c" for xs :: "Int2 list" and s0
    by (induction xs arbitrary: s0) (simp_all add: algebra_simps)
  then have "sc_sum sc vli pos vc (\<lambda>i. c) = real (length (sc_covering sc vli pos)) * c"
    by (simp add: sc_sum_def)
  moreover have "1 \<le> real (length (sc_covering sc vli pos))" if "sc_covering sc vli pos \<noteq> []"
    using that by (cases "sc_covering sc vli pos") simp_all
  ultimately show ?thesis
    by (auto simp add: sc_avg_def sc_divisor_def sc_count_length max_def)
qed

lemma ex_wide_covering: "(1, 0) \<in> set (sc_covering ex_coder_wide 0 (1, 0))"
  by (simp add: sc_covering_def ex_wide_window ex_wide_contains)

lemma ex_wide_avg: "sc_avg ex_coder_wide 0 (1, 0) 0 (sc_weights (sc_visibleLayers ex_coder_wide ! 0)) = 1 / 2"
  using ex_wide_covering by (auto simp add: ex_wide_fields sc_avg_constant)

lemma ex_wide_unvisited:
  "sc_weights (sc_visibleLayers (sc_learn_pass () [\<lambda>i. 0] 0 ex_coder_wide) ! 0) 80 =
     sc_weights (sc_visibleLayers ex_coder_wide ! 0) 80"
  using sc_learn_pass_unvisited [of 0 ex_coder_wide "(0, 0)" "(1, 0)" "()" "[\<lambda>i. 0]" 0]
  by (simp add: ex_wide_fields size_z_def ex_wide_contains ex_wide_window ex_wide_wAddr)

lemma ex_wide_visited:
  "sc_weights (sc_visibleLayers (sc_learn_pass () [\<lambda>i. 0] 0 ex_coder_wide) ! 0) 81 =
     sc_weights (sc_visibleLayers ex_coder_wide ! 0) 81 + 1 / 4"
proof -
  have p: "(1, 0) \<in> set (positions (fst (sc_size (sc_visibleLayerDescs ex_coder_wide ! 0)))
                              (fst (snd (sc_size (sc_visibleLayerDescs ex_coder_wide ! 0)))))"
    by (simp add: set_positions ex_wide_fields)
  have "sc_weights (sc_visibleLayers (sc_learn_pass () [\<lambda>i. 0] 0 ex_coder_wide) ! 0)
           (sc_wAddr ex_coder_wide 0 (1, 0) 0 (1, 0)) =
         sc_weights (sc_visibleLayers ex_coder_wide ! 0) (sc_wAddr ex_coder_wide 0 (1, 0) 0 (1, 0))
           + sc_learn_delta ex_coder_wide [\<lambda>i. 0] 0 ((1, 0), 0) (sc_weights (sc_visibleLayers ex_coder_wide ! 0))"
    by (rule sc_learn_pass_weights [OF _ _ p _ _ ex_wide_covering]) (simp_all add: ex_wide_fields size_z_def)
  then show ?thesis
    by (simp add: ex_wide_wAddr sc_learn_delta_def ex_wide_avg) (simp add: ex_wide_fields)
qed

text \<open>
  C6 (as amended). In the learn pass of the sparse coder over a visible layer, for every
  visible column \<open>pos\<close>, every candidate code \<open>vc\<close> and every hidden column \<open>hp\<close> the
  kernel visits (within the reverse radii) whose receptive field contains \<open>pos\<close>, the
  weight between \<open>(pos, vc)\<close> and the active cell of \<open>hp\<close> (the cell of its current
  hidden code) is moved by \<open>delta = alpha * (target - avgSupport)\<close>: \<open>target\<close> is 1 if
  \<open>vc\<close> is the input code at \<open>pos\<close> and 0 otherwise, \<open>avgSupport\<close> is the average the
  backward kernel computes, taken on the weights before the pass; the delta does not
  depend on \<open>hp\<close>. A weight at any other address, such as the weight between \<open>(pos, vc)\<close>
  and a cell of \<open>hp\<close> that is not active, is not moved.
\<close>

theorem sc_learn_pass_moves_weights:
  assumes "vli < length (sc_visibleLayers sc)"
      and "0 < size_z (sc_hiddenSize sc)"
      and "0 \<le> fst pos" "fst pos < fst (sc_size (sc_visibleLayerDescs sc ! vli))"
      and "0 \<le> snd pos" "snd pos < fst (snd (sc_size (sc_visibleLayerDescs sc ! vli)))"
      and "0 \<le> vc" "vc < size_z (sc_size (sc_visibleLayerDescs sc ! vli))"
      and "hp \<in> set (sc_window sc vli pos)" and "sc_contains sc vli pos hp"
  shows "(let weights = sc_weights (sc_visibleLayers sc ! vli);
              inputC = (inputCs ! vli) (address2 pos (fst (sc_size (sc_visibleLayerDescs sc ! vli))));
              target = (if vc = inputC then 1 else 0);
              delta = sc_alpha sc * (target - sc_avg sc vli pos vc weights)
          in sc_weights (sc_visibleLayers (sc_learn_pass rng inputCs vli sc) ! vli)
               (sc_wAddr sc vli pos vc hp) =
             weights (sc_wAddr sc vli pos vc hp) + delta)
         \<and> (\<forall>a. (\<forall>pos' vc' hp'.
                    0 \<le> fst pos' \<and> fst pos' < fst (sc_size (sc_visibleLayerDescs sc ! vli))
                    \<and> 0 \<le> snd pos' \<and> snd pos' < fst (snd (sc_size (sc_visibleLayerDescs sc ! vli)))
                    \<and> 0 \<le> vc' \<and> vc' < size_z (sc_size (sc_visibleLayerDescs sc ! vli))
                    \<and> hp' \<in> set (sc_window sc vli pos') \<and> sc_contains sc vli pos' hp'
                    \<longrightarrow> a \<noteq> sc_wAddr sc vli pos' vc' hp')
                \<longrightarrow> sc_weights (sc_visibleLayers (sc_learn_pass rng inputCs vli sc) ! vli) a =
                    sc_weights (sc_visibleLayers sc ! vli) a)"
proof (intro conjI allI impI)
  have p: "pos \<in> set (positions (fst (sc_size (sc_visibleLayerDescs sc ! vli)))
                              (fst (snd (sc_size (sc_visibleLayerDescs sc ! vli)))))"
    using assms(3-6) by (cases pos) (simp add: set_positions)
  have h: "hp \<in> set (sc_covering sc vli pos)"
    using assms(9,10) by (simp add: sc_covering_def)
  show "let weights = sc_weights (sc_visibleLayers sc ! vli);
              inputC = (inputCs ! vli) (address2 pos (fst (sc_size (sc_visibleLayerDescs sc ! vli))));
              target = (if vc = inputC then 1 else 0);
              delta = sc_alpha sc * (target - sc_avg sc vli pos vc weights)
          in sc_weights (sc_visibleLayers (sc_learn_pass rng inputCs vli sc) ! vli)
               (sc_wAddr sc vli pos vc hp) =
             weights (sc_wAddr sc vli pos vc hp) + delta"
    unfolding Let_def
    by (simp only: sc_learn_pass_weights [OF assms(1,2) p assms(7,8) h] sc_learn_delta_def
          fst_conv snd_conv)
next
  fix a
  assume out: "\<forall>pos' vc' hp'.
                    0 \<le> fst pos' \<and> fst pos' < fst (sc_size (sc_visibleLayerDescs sc ! vli))
                    \<and> 0 \<le> snd pos' \<and> snd pos' < fst (snd (sc_size (sc_visibleLayerDescs sc ! vli)))
                    \<and> 0 \<le> vc' \<and> vc' < size_z (sc_size (sc_visibleLayerDescs sc ! vli))
                    \<and> hp' \<in> set (sc_window sc vli pos') \<and> sc_contains sc vli pos' hp'
                    \<longrightarrow> a \<noteq> sc_wAddr sc vli pos' vc' hp'"
  have "a \<notin> set (concat (map (sc_learn_addrs sc vli)
                  (List.product (positions (fst (sc_size (sc_visibleLayerDescs sc ! vli)))
                                   (fst (snd (sc_size (sc_visibleLayerDescs sc ! vli)))))
                     [0..size_z (sc_size (sc_visibleLayerDescs sc ! vli)) - 1])))"
  proof
    assume "a \<in> set (concat (map (sc_learn_addrs sc vli)
                  (List.product (positions (fst (sc_size (sc_visibleLayerDescs sc ! vli)))
                                   (fst (snd (sc_size (sc_visibleLayerDescs sc ! vli)))))
                     [0..size_z (sc_size (sc_visibleLayerDescs sc ! vli)) - 1])))"
    then obtain pos' vc' hp' where o:
      "pos' \<in> set (positions (fst (sc_size (sc_visibleLayerDescs sc ! vli)))
                                   (fst (snd (sc_size (sc_visibleLayerDescs sc ! vli)))))"
      "0 \<le> vc'" "vc' < size_z (sc_size (sc_visibleLayerDescs sc ! vli))"
      "hp' \<in> set (sc_covering sc vli pos')" "a = sc_wAddr sc vli pos' vc' hp'"
      by (auto simp add: sc_learn_addrs_def)
    have "0 \<le> fst pos' \<and> fst pos' < fst (sc_size (sc_visibleLayerDescs sc ! vli))
                    \<and> 0 \<le> snd pos' \<and> snd pos' < fst (snd (sc_size (sc_visibleLayerDescs sc ! vli)))
                    \<and> 0 \<le> vc' \<and> vc' < size_z (sc_size (sc_visibleLayerDescs sc ! vli))
                    \<and> hp' \<in> set (sc_window sc vli pos') \<and> sc_contains sc vli pos' hp'"
      using o by (simp add: set_positions sc_covering_def case_prod_beta)
    with out have "a \<noteq> sc_wAddr sc vli pos' vc' hp'" by blast
    with o(5) show False by simp
  qed
  with assms(1) show "sc_weights (sc_visibleLayers (sc_learn_pass rng inputCs vli sc) ! vli) a =
                    sc_weights (sc_visibleLayers sc ! vli) a"
    by (rule sc_learn_pass_other)
qed

theorem sc_learn_pass_moves_weights_witness:
  "(0::nat) < length (sc_visibleLayers ex_coder) \<and> 0 < size_z (sc_hiddenSize ex_coder)
   \<and> (0, 0) \<in> set (sc_window ex_coder 0 (0, 0)) \<and> sc_contains ex_coder 0 (0, 0) (0, 0)
   \<and> sc_weights (sc_visibleLayers ex_coder ! 0) 2 = 1 / 2
   \<and> sc_weights (sc_visibleLayers (sc_learn_pass () [\<lambda>i. 1] 0 ex_coder) ! 0) 2 = 3 / 4"
proof -
  have h: "(0::nat) < length (sc_visibleLayers ex_coder)" "0 < size_z (sc_hiddenSize ex_coder)"
    "0 \<le> fst ((0, 0) :: Int2)" "fst ((0, 0) :: Int2) < fst (sc_size (sc_visibleLayerDescs ex_coder ! 0))"
    "0 \<le> snd ((0, 0) :: Int2)" "snd ((0, 0) :: Int2) < fst (snd (sc_size (sc_visibleLayerDescs ex_coder ! 0)))"
    "(0::int) \<le> 1" "1 < size_z (sc_size (sc_visibleLayerDescs ex_coder ! 0))"
    "(0, 0) \<in> set (sc_window ex_coder 0 (0, 0))" "sc_contains ex_coder 0 (0, 0) (0, 0)"
    by (simp_all add: ex_coder_fields size_z_def ex_coder_window ex_coder_contains)
  note t = sc_learn_pass_moves_weights [OF h, of "[\<lambda>i. 1]" "()"]
  show ?thesis
    using t [THEN conjunct1] h(1,2,9,10)
    by (simp add: Let_def ex_coder_wAddr ex_coder_avg) (simp add: ex_coder_fields)
qed

text \<open>
  The claim as stated, for every weight between \<open>(pos, vc)\<close> and a hidden column whose
  receptive field contains \<open>pos\<close>, fails in two ways. In the first example the hidden
  column \<open>(0, 0)\<close> has the active code 0 and its receptive field contains the visible column
  \<open>(0, 0)\<close>; the pass moves the weight between \<open>((0, 0), vc = 1)\<close> and cell 0 (address 2)
  by \<open>delta = 1/4\<close> and leaves the weight between \<open>((0, 0), vc = 1)\<close> and cell 1
  (address 3) as it was. In the second example the receptive field of the hidden column
  \<open>(0, 0)\<close> contains the visible column \<open>(1, 0)\<close>, but the column lies outside the
  window of the reverse radii around \<open>(1, 0)\<close>, which is the columns 1 to 11: the pass
  leaves the weight between \<open>((1, 0), vc = 0)\<close> and its active cell (address 80) as it
  was, while \<open>delta = 1/4\<close> and the weight to the active cell of the visited column
  \<open>(1, 0)\<close> (address 81) moves by it.
\<close>

theorem sc_learn_pass_counterexample:
  "sc_hiddenCs ex_coder (address2 (0, 0) (fst (sc_hiddenSize ex_coder))) = 0
   \<and> address4 (0, 0, 0, 1) (sc_hiddenSize ex_coder) = 2
   \<and> address4 (0, 0, 1, 1) (sc_hiddenSize ex_coder) = 3
   \<and> sc_alpha ex_coder * (1 - sc_avg ex_coder 0 (0, 0) 1 (sc_weights (sc_visibleLayers ex_coder ! 0))) = 1 / 4
   \<and> sc_weights (sc_visibleLayers (sc_learn_pass () [\<lambda>i. 1] 0 ex_coder) ! 0) 2 =
       sc_weights (sc_visibleLayers ex_coder ! 0) 2 + 1 / 4
   \<and> sc_weights (sc_visibleLayers (sc_learn_pass () [\<lambda>i. 1] 0 ex_coder) ! 0) 3 =
       sc_weights (sc_visibleLayers ex_coder ! 0) 3
   \<and> sc_contains ex_coder_wide 0 (1, 0) (0, 0)
   \<and> (0, 0) \<notin> set (sc_window ex_coder_wide 0 (1, 0))
   \<and> sc_wAddr ex_coder_wide 0 (1, 0) 0 (0, 0) = 80
   \<and> sc_wAddr ex_coder_wide 0 (1, 0) 0 (1, 0) = 81
   \<and> sc_alpha ex_coder_wide
        * (1 - sc_avg ex_coder_wide 0 (1, 0) 0 (sc_weights (sc_visibleLayers ex_coder_wide ! 0))) = 1 / 4
   \<and> sc_weights (sc_visibleLayers (sc_learn_pass () [\<lambda>i. 0] 0 ex_coder_wide) ! 0) 80 =
       sc_weights (sc_visibleLayers ex_coder_wide ! 0) 80
   \<and> sc_weights (sc_visibleLayers (sc_learn_pass () [\<lambda>i. 0] 0 ex_coder_wide) ! 0) 81 =
       sc_weights (sc_visibleLayers ex_coder_wide ! 0) 81 + 1 / 4"
proof -
  have w: "sc_weights (sc_visibleLayers (sc_learn_pass () [\<lambda>i. 1] 0 ex_coder) ! 0) =
           (\<lambda>i. if i = 3 then 1 else if i = 2 then 3 / 4 else if i = 0 then 1 / 4 else 1 / 2)"
    by (simp add: sc_learn_pass_def sc_learn_def sc_learn_vc_def Let_def positions_1_1 upto_0_1
          ex_coder_covering ex_coder_wAddr ex_coder_avg ex_coder_fields size_z_def fun_eq_iff)
  have narrow:
    "sc_hiddenCs ex_coder (address2 (0, 0) (fst (sc_hiddenSize ex_coder))) = 0
     \<and> address4 (0, 0, 0, 1) (sc_hiddenSize ex_coder) = 2
     \<and> address4 (0, 0, 1, 1) (sc_hiddenSize ex_coder) = 3
     \<and> sc_alpha ex_coder * (1 - sc_avg ex_coder 0 (0, 0) 1 (sc_weights (sc_visibleLayers ex_coder ! 0))) = 1 / 4
     \<and> sc_weights (sc_visibleLayers (sc_learn_pass () [\<lambda>i. 1] 0 ex_coder) ! 0) 2 =
         sc_weights (sc_visibleLayers ex_coder ! 0) 2 + 1 / 4
     \<and> sc_weights (sc_visibleLayers (sc_learn_pass () [\<lambda>i. 1] 0 ex_coder) ! 0) 3 =
         sc_weights (sc_visibleLayers ex_coder ! 0) 3"
    unfolding w by (simp add: ex_coder_avg) (simp add: ex_coder_fields)
  have out: "(0, 0) \<notin> set (sc_window ex_coder_wide 0 (1, 0))"
    by (simp add: ex_wide_window)
  have delta: "sc_alpha ex_coder_wide
        * (1 - sc_avg ex_coder_wide 0 (1, 0) 0 (sc_weights (sc_visibleLayers ex_coder_wide ! 0))) = 1 / 4"
    by (simp add: ex_wide_avg) (simp add: ex_wide_fields)
  from narrow ex_wide_contains(1) out ex_wide_wAddr delta ex_wide_unvisited ex_wide_visited
  show ?thesis by blast
qed

section \<open>The history buffer of the actor\<close>

text \<open>What the learn kernel and the replay leave alone.\<close>

lemma a_learn_frame:
  assumes "a_learn pos rng inputCs hiddenCsPrev feedBackCsPrev inputCsPrev a = Inr a'"
  shows "a' = a\<lparr>a_visibleLayers := a_visibleLayers a'\<rparr>
         \<and> length (a_visibleLayers a') = length (a_visibleLayers a)"
  using assms
  by (auto simp add: a_learn_def Let_def a_learn_update_length split: option.splits)

lemma a_learn_positions_frame:
  assumes "a_learn_positions rng inputCs hiddenCsPrev feedBackCsPrev inputCsPrev ps a = Inr a'"
  shows "a' = a\<lparr>a_visibleLayers := a_visibleLayers a'\<rparr>
         \<and> length (a_visibleLayers a') = length (a_visibleLayers a)"
  using assms
proof (induction ps arbitrary: a)
  case Nil
  then show ?case by simp
next
  case (Cons p ps)
  from Cons.prems obtain a1 where
    1: "a_learn p rng inputCs hiddenCsPrev feedBackCsPrev inputCsPrev a = Inr a1"
    and 2: "a_learn_positions rng inputCs hiddenCsPrev feedBackCsPrev inputCsPrev ps a1 = Inr a'"
    by (auto split: sum.splits)
  from a_learn_frame [OF 1] Cons.IH [OF 2] show ?case
    by (metis (no_types, lifting) Actor.surjective Actor.update_convs(6))
qed


lemma a_weights_only_fields:
  assumes "a' = a\<lparr>a_visibleLayers := v\<rparr>"
  shows "a_historySize a' = a_historySize a" "a_historySamples a' = a_historySamples a"
    "a_hiddenSize a' = a_hiddenSize a" "a_visibleLayerDescs a' = a_visibleLayerDescs a"
    "a_hiddenCs a' = a_hiddenCs a" "a_hiddenCounts a' = a_hiddenCounts a"
    "a_historyIters a' = a_historyIters a"
  using assms by simp_all

lemma a_replay_frame:
  assumes "a_replay rng t a = Inr a'"
  shows "a' = a\<lparr>a_visibleLayers := a_visibleLayers a'\<rparr>
         \<and> length (a_visibleLayers a') = length (a_visibleLayers a)"
  using assms
  by (auto simp add: a_replay_def a_learn_pass_def a_replay_args_def Let_def
        split: if_splits dest: a_learn_positions_frame)

lemma a_replay_loop_frame:
  assumes "a_replay_loop sampleDist n rng a = Inr (rng', a')"
  shows "a' = a\<lparr>a_visibleLayers := a_visibleLayers a'\<rparr>
         \<and> length (a_visibleLayers a') = length (a_visibleLayers a)"
  using assms
proof (induction n arbitrary: rng a)
  case 0
  then show ?case by simp
next
  case (Suc n)
  obtain t r1 where d: "sampleDist rng = (t, r1)"
    by (cases "sampleDist rng")
  from Suc.prems d obtain a1 where
    1: "a_replay r1 t a = Inr a1"
    and 2: "a_replay_loop sampleDist n r1 a1 = Inr (rng', a')"
    by (auto split: sum.splits)
  from a_replay_frame [OF 1] Suc.IH [OF 2] show ?case
    by (metis (no_types, lifting) Actor.surjective Actor.update_convs(6))
qed

lemma copyInts_apply:
  "copyInts n src dst x = (if 0 \<le> x \<and> x < n then src x else dst x)"
proof -
  have "fold (\<lambda>x d. copyInt x src d) xs dst x = (if x \<in> set xs then src x else dst x)" for xs
    by (induction xs arbitrary: dst) (auto simp add: copyInt_def)
  then show ?thesis by (auto simp add: copyInts_def)
qed

lemma a_shift_rotate:
  assumes "hs \<noteq> []"
  shows "a_shift hs = tl hs @ [hd hs]"
proof -
  have f: "n \<le> length hs - 1 \<Longrightarrow>
        fold (\<lambda>i h. h[i := h ! (i + 1)]) [0..<n] hs =
          map (\<lambda>i. if i < n then hs ! (i + 1) else hs ! i) [0..<length hs]" for n
  proof (induction n)
    case 0
    show ?case by (simp add: map_nth)
  next
    case (Suc n)
    let ?g = "\<lambda>m i. if i < m then hs ! (i + 1) else hs ! i"
    from Suc.prems have n: "n < length hs - 1" by simp
    have ih: "fold (\<lambda>i h. h[i := h ! (i + 1)]) [0..<n] hs = map (?g n) [0..<length hs]"
      by (rule Suc.IH) (use n in arith)
    have "fold (\<lambda>i h. h[i := h ! (i + 1)]) [0..<Suc n] hs =
          (map (?g n) [0..<length hs])[n := map (?g n) [0..<length hs] ! (n + 1)]"
      by (simp only: upt_Suc_append [OF le0] fold_append fold_simps o_apply ih)
    also have "\<dots> = map (?g (Suc n)) [0..<length hs]"
    proof (rule nth_equalityI)
      show "length ((map (?g n) [0..<length hs])[n := map (?g n) [0..<length hs] ! (n + 1)]) =
            length (map (?g (Suc n)) [0..<length hs])" by simp
    next
      fix i assume "i < length ((map (?g n) [0..<length hs])[n := map (?g n) [0..<length hs] ! (n + 1)])"
      then have i: "i < length hs" by simp
      show "(map (?g n) [0..<length hs])[n := map (?g n) [0..<length hs] ! (n + 1)] ! i =
            map (?g (Suc n)) [0..<length hs] ! i"
        using i n by (cases "i = n") (simp_all add: nth_list_update)
    qed
    finally show ?case .
  qed
  have sh: "a_shift hs =
        (map (\<lambda>i. if i < length hs - 1 then hs ! (i + 1) else hs ! i) [0..<length hs])
          [length hs - 1 := hd hs]"
    unfolding a_shift_def Let_def by (subst f) simp_all
  show ?thesis
  proof (rule nth_equalityI)
    show "length (a_shift hs) = length (tl hs @ [hd hs])"
      using assms by (simp add: sh)
  next
    fix i assume "i < length (a_shift hs)"
    then have i: "i < length hs" by (simp add: sh)
    show "a_shift hs ! i = (tl hs @ [hd hs]) ! i"
      using i assms
      by (cases "i = length hs - 1")
         (simp_all add: sh nth_list_update nth_append nth_tl)
  qed
qed

lemma fold_fault_guard:
  "fold_fault (\<lambda>x s. if ok x then Inr (g x s) else Inl e) xs s =
     (if \<forall>x \<in> set xs. ok x then Inr (fold g xs s) else Inl e)"
  by (induction xs arbitrary: s) simp_all

lemma copy_fits_upto: "(\<forall>x \<in> set [0..n - 1]. 0 \<le> x \<and> x < dstSize) = copy_fits n dstSize"
proof (cases "n \<le> 0")
  case True
  then show ?thesis by (simp add: copy_fits_def)
next
  case False
  have "(\<forall>x \<in> set [0..n - 1]. 0 \<le> x \<and> x < dstSize) = (n - 1 < dstSize)"
  proof
    assume a: "\<forall>x \<in> set [0..n - 1]. 0 \<le> x \<and> x < dstSize"
    from False have "n - 1 \<in> set [0..n - 1]" by simp
    with a show "n - 1 < dstSize" by blast
  next
    assume "n - 1 < dstSize"
    then show "\<forall>x \<in> set [0..n - 1]. 0 \<le> x \<and> x < dstSize" by auto
  qed
  then show ?thesis using False by (simp add: copy_fits_def) arith
qed

lemma copyInts_checked_eq:
  "copyInts_checked n src dstSize dst =
     (if copy_fits n dstSize then Inr (copyInts n src dst) else Inl OutOfRange)"
proof -
  have "copyInts_checked n src dstSize dst =
        fold_fault (\<lambda>x s. if 0 \<le> x \<and> x < dstSize then Inr (copyInt x src s) else Inl OutOfRange)
          [0..n - 1] dst"
    unfolding copyInts_checked_def
    by (rule arg_cong [where f = "\<lambda>f. fold_fault f [0..n - 1] dst"])
       (intro ext, simp add: copyInt_checked_def)
  also have "\<dots> = (if \<forall>x \<in> set [0..n - 1]. 0 \<le> x \<and> x < dstSize
                    then Inr (fold (\<lambda>x. copyInt x src) [0..n - 1] dst) else Inl OutOfRange)"
    by (rule fold_fault_guard)
  finally show ?thesis
    by (simp only: copy_fits_upto copyInts_def)
qed

lemma all_below: "(\<forall>i \<in> set [0..<n]. i < m \<and> i < k \<and> P i) = (n \<le> m \<and> n \<le> k \<and> (\<forall>i \<in> set [0..<n]. P i))"
proof (cases n)
  case 0
  then show ?thesis by simp
next
  case (Suc n')
  then have "n' \<in> set [0..<n]" by simp
  then show ?thesis using Suc by (auto simp add: less_Suc_eq_le)
qed

lemma a_write_sample_eq:
  "a_write_sample a inputCs hiddenCs feedBackCs s =
     (if a_sample_allocated a s then Inr (a_written_sample a inputCs hiddenCs feedBackCs s)
      else Inl OutOfRange)"
proof -
  let ?n = "\<lambda>vli. fst (a_size (a_visibleLayerDescs a ! vli)) * fst (snd (a_size (a_visibleLayerDescs a ! vli)))"
  let ?ok = "\<lambda>vli. vli < length (s_inputCs s) \<and> vli < length (s_inputCs_size s)
                    \<and> copy_fits (?n vli) (s_inputCs_size s ! vli)"
  let ?g = "\<lambda>vli ics. ics[vli := copyInts (?n vli) (inputCs ! vli) (ics ! vli)]"
  have step: "(\<lambda>vli ics.
                 let vld = a_visibleLayerDescs a ! vli;
                     numVisibleColumns = fst (a_size vld) * fst (snd (a_size vld))
                 in if vli < length (s_inputCs s) \<and> vli < length (s_inputCs_size s)
                    then case copyInts_checked numVisibleColumns (inputCs ! vli)
                                (s_inputCs_size s ! vli) (ics ! vli) of
                           Inl e \<Rightarrow> Inl e
                         | Inr b \<Rightarrow> Inr (ics[vli := b])
                    else Inl OutOfRange) =
              (\<lambda>vli ics. if ?ok vli then Inr (?g vli ics) else Inl OutOfRange)"
    by (intro ext) (simp add: Let_def copyInts_checked_eq)
  have ok: "(\<forall>vli \<in> set [0..<length (a_visibleLayers a)]. ?ok vli) =
            (length (a_visibleLayers a) \<le> length (s_inputCs s)
             \<and> length (a_visibleLayers a) \<le> length (s_inputCs_size s)
             \<and> (\<forall>vli \<in> set [0..<length (a_visibleLayers a)]. copy_fits (?n vli) (s_inputCs_size s ! vli)))"
    by (rule all_below)
  show ?thesis
    unfolding a_write_sample_def step fold_fault_guard ok
    by (simp add: Let_def copyInts_checked_eq a_sample_allocated_def a_written_sample_def)
qed


lemma a_written_sample_holds:
  assumes "length (s_inputCs s) = length (a_visibleLayers a)"
  shows "sample_holds a (a_written_sample a inputCs hiddenCs feedBackCs s)
           (inputCs, hiddenCs, feedBackCs, learnEnabled)"
    and "length (s_inputCs (a_written_sample a inputCs hiddenCs feedBackCs s)) = length (a_visibleLayers a)"
proof -
  have le: "length (a_visibleLayers a) \<le> length (s_inputCs s)" using assms by simp
  have i: "s_inputCs (a_written_sample a inputCs hiddenCs feedBackCs s) =
        map (\<lambda>vli. if vli < length (a_visibleLayers a)
                    then copyInts (fst (a_size (a_visibleLayerDescs a ! vli))
                                    * fst (snd (a_size (a_visibleLayerDescs a ! vli))))
                           (inputCs ! vli) (s_inputCs s ! vli)
                    else s_inputCs s ! vli) [0..<length (s_inputCs s)]"
    unfolding a_written_sample_def Let_def
    using fold_update_nth [OF le, of "\<lambda>vli old. copyInts (fst (a_size (a_visibleLayerDescs a ! vli))
                                    * fst (snd (a_size (a_visibleLayerDescs a ! vli))))
                           (inputCs ! vli) old"]
    by simp
  show "length (s_inputCs (a_written_sample a inputCs hiddenCs feedBackCs s)) = length (a_visibleLayers a)"
    unfolding i using assms by simp
  show "sample_holds a (a_written_sample a inputCs hiddenCs feedBackCs s)
           (inputCs, hiddenCs, feedBackCs, learnEnabled)"
    unfolding sample_holds_def prod.case i
    using assms by (simp add: a_written_sample_def Let_def copyInts_apply)
qed

lemma sample_holds_cong:
  assumes "a_hiddenSize a = a_hiddenSize a0" "a_visibleLayerDescs a = a_visibleLayerDescs a0"
    "length (a_visibleLayers a) = length (a_visibleLayers a0)"
  shows "sample_holds a s st = sample_holds a0 s st"
  by (simp add: sample_holds_def assms)

lemma a_written_sample_sizes:
  assumes "a_hiddenSize a = a_hiddenSize a0" "a_visibleLayerDescs a = a_visibleLayerDescs a0"
    "length (a_visibleLayers a) = length (a_visibleLayers a0)"
  shows "a_written_sample a = a_written_sample a0"
  by (intro ext) (simp add: a_written_sample_def assms)

lemma a_sample_allocated_sizes:
  assumes "a_hiddenSize a = a_hiddenSize a0" "a_visibleLayerDescs a = a_visibleLayerDescs a0"
    "length (a_visibleLayers a) = length (a_visibleLayers a0)"
  shows "a_sample_allocated a = a_sample_allocated a0"
  by (intro ext) (simp add: a_sample_allocated_def assms)

lemma fold_update_length: "length (fold (\<lambda>i l. l[i := f i l]) ns l) = length l"
  by (induction ns arbitrary: l) simp_all

lemma a_written_sample_allocated:
  assumes "a_sample_allocated a s"
  shows "a_sample_allocated a (a_written_sample a inputCs hiddenCs feedBackCs s)"
  using assms
  by (simp add: a_sample_allocated_def a_written_sample_def Let_def fold_update_length)

lemma a_add_sample_inv:
  assumes inv: "hist_inv a0 a pre" and cap: "a_historySamples a0 \<noteq> []"
  shows "\<exists>a2. a_add_sample inputCs hiddenCs feedBackCs a = Inr a2
            \<and> hist_inv a0 a2 (pre @ [(inputCs, hiddenCs, feedBackCs, learnEnabled)])
            \<and> a_visibleLayers a2 = a_visibleLayers a \<and> a_hiddenCs a2 = a_hiddenCs a
            \<and> a_historyIters a2 = a_historyIters a"
proof -
  let ?cap = "length (a_historySamples a0)"
  let ?st = "(inputCs, hiddenCs, feedBackCs, learnEnabled)"
  let ?hs = "a_historySamples a"
  let ?n = "length pre"
  from inv have sz: "a_hiddenSize a = a_hiddenSize a0" "a_visibleLayerDescs a = a_visibleLayerDescs a0"
      "length (a_visibleLayers a) = length (a_visibleLayers a0)"
    and len: "length ?hs = ?cap"
    and wf: "\<forall>s \<in> set ?hs. length (s_inputCs s) = length (a_visibleLayers a0)"
    and al: "\<forall>s \<in> set ?hs. a_sample_allocated a0 s"
    and hsz: "a_historySize a = int (min ?n ?cap)"
    and holds: "\<forall>j < min ?n ?cap. sample_holds a0 (?hs ! j) (pre ! (?n - min ?n ?cap + j))"
    by (simp_all add: hist_inv_def)
  from cap len have ne: "?hs \<noteq> []" and cpos: "0 < ?cap" by auto
  let ?W = "a_written_sample a0 inputCs hiddenCs feedBackCs"
  have W: "sample_holds a0 (?W s) ?st \<and> length (s_inputCs (?W s)) = length (a_visibleLayers a0)"
    if "length (s_inputCs s) = length (a_visibleLayers a0)" for s
    by (simp add: a_written_sample_holds [OF that])
  show ?thesis
  proof (cases "?cap \<le> ?n")
    case True
    then have full: "a_historySize a = int (length ?hs)" using hsz len by simp
    define hs2 where "hs2 = tl ?hs @ [?W (hd ?hs)]"
    have l2: "length hs2 = ?cap" using ne len cpos by (simp add: hs2_def)
    have a1sz: "a_written_sample (a\<lparr>a_historySamples := X\<rparr>) = a_written_sample a0"
      "a_sample_allocated (a\<lparr>a_historySamples := X\<rparr>) = a_sample_allocated a0" for X
      by (rule a_written_sample_sizes a_sample_allocated_sizes, simp_all add: sz)+
    obtain h0 rest where hs: "?hs = h0 # rest" using ne by (cases ?hs) auto
    have sh: "a_shift ?hs = rest @ [h0]" using a_shift_rotate [OF ne] by (simp add: hs)
    have al0: "a_sample_allocated a0 h0" using al hs by simp
    have r: "a_add_sample inputCs hiddenCs feedBackCs a = Inr (a\<lparr>a_historySamples := hs2\<rparr>)"
      using full al0
      by (simp add: a_add_sample_def Let_def sh a1sz hs2_def a_write_sample_eq) (simp add: hs)
    have hd_wf: "length (s_inputCs (hd ?hs)) = length (a_visibleLayers a0)"
      using wf ne by simp
    have wf2: "\<forall>s \<in> set hs2. length (s_inputCs s) = length (a_visibleLayers a0)"
      using wf ne W [OF hd_wf] by (auto simp add: hs2_def dest: list.set_sel(2))
    have al2: "\<forall>s \<in> set hs2. a_sample_allocated a0 s"
      using al ne a_written_sample_allocated [of a0 "hd ?hs" inputCs hiddenCs feedBackCs]
      by (auto simp add: hs2_def dest: list.set_sel(2))
    have holds2: "sample_holds a0 (hs2 ! j) ((pre @ [?st]) ! (Suc ?n - ?cap + j))"
      if j: "j < ?cap" for j
    proof (cases "j = ?cap - 1")
      case True
      then have "hs2 ! j = ?W (hd ?hs)" using len ne by (simp add: hs2_def nth_append)
      moreover have "Suc ?n - ?cap + j = ?n"
        using True \<open>?cap \<le> ?n\<close> cpos by arith
      then have "(pre @ [?st]) ! (Suc ?n - ?cap + j) = ?st"
        by (simp only: nth_append_length)
      ultimately show ?thesis using W [OF hd_wf] by simp
    next
      case False
      with j have j1: "Suc j < ?cap" by simp
      then have "hs2 ! j = ?hs ! Suc j" using len ne by (simp add: hs2_def nth_append nth_tl)
      moreover have "Suc ?n - ?cap + j = ?n - ?cap + Suc j" "?n - ?cap + Suc j < ?n"
        using j1 \<open>?cap \<le> ?n\<close> by arith+
      then have "(pre @ [?st]) ! (Suc ?n - ?cap + j) = pre ! (?n - ?cap + Suc j)"
        by (simp only: nth_append if_True)
      moreover have m: "min ?n ?cap = ?cap" using \<open>?cap \<le> ?n\<close> by simp
      from holds have "Suc j < min ?n ?cap \<longrightarrow>
          sample_holds a0 (?hs ! Suc j) (pre ! (?n - min ?n ?cap + Suc j))" by blast
      then have "sample_holds a0 (?hs ! Suc j) (pre ! (?n - ?cap + Suc j))"
        unfolding m using j1 by blast
      ultimately show ?thesis by (simp only:)
    qed
    have "hist_inv a0 (a\<lparr>a_historySamples := hs2\<rparr>) (pre @ [?st])"
      using sz l2 wf2 al2 hsz holds2 \<open>?cap \<le> ?n\<close>
      by (simp add: hist_inv_def)
    with r show ?thesis by simp
  next
    case False
    then have n: "?n < ?cap" by simp
    then have notfull: "a_historySize a \<noteq> int (length ?hs)" and hn: "a_historySize a = int ?n"
      using hsz len by simp_all
    define hs2 where "hs2 = ?hs[?n := ?W (?hs ! ?n)]"
    have l2: "length hs2 = ?cap" using len by (simp add: hs2_def)
    have a1sz: "a_written_sample (a\<lparr>a_historySize := X\<rparr>) = a_written_sample a0"
      "a_sample_allocated (a\<lparr>a_historySize := X\<rparr>) = a_sample_allocated a0" for X
      by (rule a_written_sample_sizes a_sample_allocated_sizes, simp_all add: sz)+
    have aln: "a_sample_allocated a0 (?hs ! ?n)" using al n len by simp
    have r: "a_add_sample inputCs hiddenCs feedBackCs a =
             Inr (a\<lparr>a_historySize := int ?n + 1, a_historySamples := hs2\<rparr>)"
      using notfull hn n len aln
      by (simp add: a_add_sample_def Let_def a1sz hs2_def a_write_sample_eq)
    have n_wf: "length (s_inputCs (?hs ! ?n)) = length (a_visibleLayers a0)"
      using wf n len by simp
    have wf2: "\<forall>s \<in> set hs2. length (s_inputCs s) = length (a_visibleLayers a0)"
      using wf W [OF n_wf] by (auto simp add: hs2_def dest!: set_update_subset_insert [THEN subsetD])
    have al2: "\<forall>s \<in> set hs2. a_sample_allocated a0 s"
      using al a_written_sample_allocated [OF aln, of inputCs hiddenCs feedBackCs]
      by (auto simp add: hs2_def dest!: set_update_subset_insert [THEN subsetD])
    have holds2: "sample_holds a0 (hs2 ! j) ((pre @ [?st]) ! j)" if j: "j < Suc ?n" for j
    proof (cases "j = ?n")
      case True
      then show ?thesis using W [OF n_wf] n len by (simp add: hs2_def nth_append)
    next
      case False
      with j have jn: "j < ?n" by simp
      have m: "min ?n ?cap = ?n" using n by simp
      from holds have "j < min ?n ?cap \<longrightarrow>
          sample_holds a0 (?hs ! j) (pre ! (?n - min ?n ?cap + j))" by blast
      then have "sample_holds a0 (?hs ! j) (pre ! j)"
        unfolding m using jn by simp
      then show ?thesis using jn False by (simp add: hs2_def nth_append)
    qed
    have "hist_inv a0 (a\<lparr>a_historySize := int ?n + 1, a_historySamples := hs2\<rparr>) (pre @ [?st])"
      using sz l2 wf2 al2 holds2 n
      by (simp add: hist_inv_def min_def)
    with r show ?thesis by simp
  qed
qed

lemma hist_inv_weights:
  assumes "hist_inv a0 a pre" and "a' = a\<lparr>a_visibleLayers := v\<rparr>"
      and "length v = length (a_visibleLayers a)"
  shows "hist_inv a0 a' pre"
  using assms by (simp add: hist_inv_def)

lemma hist_inv_hiddenCs:
  assumes "hist_inv a0 a pre"
  shows "hist_inv a0 (a\<lparr>a_hiddenCs := h\<rparr>) pre"
  using assms by (simp add: hist_inv_def)

lemma a_step_inv:
  assumes inv: "hist_inv a0 a pre" and cap: "a_historySamples a0 \<noteq> []"
      and run: "a_step sampleDist rng inputCs hiddenCs feedBackCs learnEnabled a = Inr (rng', a')"
  shows "hist_inv a0 a' (pre @ [(inputCs, hiddenCs, feedBackCs, learnEnabled)])"
proof -
  let ?af = "a_forward_pass rng inputCs a"
  have "hist_inv a0 ?af pre"
    by (subst a_forward_pass_eq) (rule hist_inv_hiddenCs [OF inv])
  from a_add_sample_inv [OF this cap, of inputCs hiddenCs feedBackCs learnEnabled]
  obtain a2 where add: "a_add_sample inputCs hiddenCs feedBackCs ?af = Inr a2"
    and inv2: "hist_inv a0 a2 (pre @ [(inputCs, hiddenCs, feedBackCs, learnEnabled)])"
    by blast
  show ?thesis
  proof (cases "learnEnabled \<and> a_historySize a2 > 2")
    case True
    with run add have "a_replay_loop (sampleDist 0 (a_historySize a2 - 2))
                         (nat (a_historyIters a2)) rng a2 = Inr (rng', a')"
      by (simp add: a_step_def)
    from a_replay_loop_frame [OF this] inv2 show ?thesis
      by (metis hist_inv_weights)
  next
    case False
    with run add have "a' = a2" by (auto simp add: a_step_def)
    with inv2 show ?thesis by simp
  qed
qed

lemma a_steps_inv:
  assumes "hist_inv a0 a pre" and "a_historySamples a0 \<noteq> []"
      and "a_steps sampleDist rng sts a = Inr (rng', a')"
  shows "hist_inv a0 a' (pre @ sts)"
  using assms
proof (induction sts arbitrary: a pre rng)
  case Nil
  then show ?case by simp
next
  case (Cons st sts)
  obtain i h f le where st: "st = (i, h, f, le)" by (metis prod.exhaust)
  from Cons.prems(3) st obtain r1 a1 where
    1: "a_step sampleDist rng i h f le a = Inr (r1, a1)"
    and 2: "a_steps sampleDist r1 sts a1 = Inr (rng', a')"
    by (auto split: sum.splits)
  from a_step_inv [OF Cons.prems(1,2) 1] have "hist_inv a0 a1 (pre @ [st])" by (simp add: st)
  from Cons.IH [OF this Cons.prems(2) 2] show ?case by simp
qed

lemma hist_inv_init:
  assumes "a_historySize a0 = 0"
      and "\<forall>s \<in> set (a_historySamples a0). length (s_inputCs s) = length (a_visibleLayers a0)"
      and "\<forall>s \<in> set (a_historySamples a0). a_sample_allocated a0 s"
  shows "hist_inv a0 a0 []"
  using assms by (simp add: hist_inv_def)

lemma a_step_no_learning:
  assumes inv: "hist_inv a0 a pre" and cap: "a_historySamples a0 \<noteq> []"
  shows "\<exists>a'. a_step sampleDist rng inputCs hiddenCs feedBackCs False a = Inr (rng, a')"
proof -
  have "hist_inv a0 (a_forward_pass rng inputCs a) pre"
    by (subst a_forward_pass_eq) (rule hist_inv_hiddenCs [OF inv])
  from a_add_sample_inv [OF this cap, of inputCs hiddenCs feedBackCs False]
  show ?thesis by (auto simp add: a_step_def)
qed

lemma a_steps_no_learning:
  assumes "hist_inv a0 a pre" and "a_historySamples a0 \<noteq> []"
      and "\<forall>st \<in> set sts. \<not> snd (snd (snd st))"
  shows "\<exists>a'. a_steps sampleDist rng sts a = Inr (rng, a')"
  using assms
proof (induction sts arbitrary: a pre)
  case Nil
  then show ?case by simp
next
  case (Cons st sts)
  obtain i h f where st: "st = (i, h, f, False)" using Cons.prems(3) by (cases st) auto
  from a_step_no_learning [OF Cons.prems(1,2), of sampleDist rng i h f]
  obtain a1 where 1: "a_step sampleDist rng i h f False a = Inr (rng, a1)" by blast
  from a_step_inv [OF Cons.prems(1,2) 1] have "hist_inv a0 a1 (pre @ [st])" by (simp add: st)
  from Cons.IH [OF this Cons.prems(2)] Cons.prems(3)
  obtain a' where "a_steps sampleDist rng sts a1 = Inr (rng, a')" by auto
  with 1 show ?case by (simp add: st)
qed



text \<open>
  The ring itself. Starting from an actor whose history is empty, has capacity
  \<open>historyCapacity > 0\<close> and has every buffer of every sample allocated, after
  \<open>historyCapacity + k\<close> steps (\<open>k > 0\<close>) exactly \<open>historyCapacity\<close> samples are
  retained; the sample at position \<open>j\<close> holds step \<open>k + j\<close>, so the oldest \<open>k\<close> samples
  are gone in first-in-first-out order and position 0 holds step \<open>k\<close>. After \<open>m\<close> steps
  the count of valid samples is \<open>min m historyCapacity\<close>.
\<close>

lemma a_history_ring_allocated:
  assumes "a_historySize a0 = 0" and "a_historySamples a0 \<noteq> []"
      and "\<forall>s \<in> set (a_historySamples a0). length (s_inputCs s) = length (a_visibleLayers a0)"
      and "\<forall>s \<in> set (a_historySamples a0). a_sample_allocated a0 s"
      and "length sts = length (a_historySamples a0) + k" and "0 < k"
      and "a_steps sampleDist rng sts a0 = Inr (rng', a')"
  shows "a_historySize a' = int (length (a_historySamples a0))
         \<and> length (a_historySamples a') = length (a_historySamples a0)
         \<and> (\<forall>j < length (a_historySamples a0).
               sample_holds a0 (a_historySamples a' ! j) (sts ! (k + j)))
         \<and> (\<forall>m \<le> length sts. \<forall>r am.
               a_steps sampleDist rng (take m sts) a0 = Inr (r, am) \<longrightarrow>
               a_historySize am = int (min m (length (a_historySamples a0))))"
proof -
  let ?cap = "length (a_historySamples a0)"
  note init = hist_inv_init [OF assms(1,3,4)]
  from a_steps_inv [OF init assms(2,7)] have inv: "hist_inv a0 a' sts" by simp
  have m: "min (length sts) ?cap = ?cap" using assms(5) by simp
  have idx: "length sts - ?cap + j = k + j" for j using assms(5) by simp
  from inv have 1: "a_historySize a' = int ?cap" and 2: "length (a_historySamples a') = ?cap"
    and 3: "\<forall>j < ?cap. sample_holds a0 (a_historySamples a' ! j) (sts ! (k + j))"
    unfolding hist_inv_def m idx by blast+
  have 4: "\<forall>m \<le> length sts. \<forall>r am.
               a_steps sampleDist rng (take m sts) a0 = Inr (r, am) \<longrightarrow>
               a_historySize am = int (min m ?cap)"
  proof (intro allI impI)
    fix m r am
    assume le: "m \<le> length sts" and run: "a_steps sampleDist rng (take m sts) a0 = Inr (r, am)"
    from a_steps_inv [OF init assms(2) run] have "hist_inv a0 am (take m sts)" by simp
    then show "a_historySize am = int (min m ?cap)"
      using le by (simp add: hist_inv_def min_absorb2)
  qed
  from 1 2 3 4 show ?thesis by blast
qed


lemma ex_history_ring:
  "\<exists>a'. a_steps (\<lambda>lo hi rng. (lo, rng)) () ex_steps ex_actor0 = Inr ((), a')
        \<and> a_historySize a' = 2 \<and> length (a_historySamples a') = 2
        \<and> s_hiddenCs (a_historySamples a' ! 0) 0 = 1 \<and> s_feedBackCs (a_historySamples a' ! 0) 0 = 1
        \<and> s_hiddenCs (a_historySamples a' ! 1) 0 = 1 \<and> s_feedBackCs (a_historySamples a' ! 1) 0 = 0"
proof -
  have h: "a_historySize ex_actor0 = 0" "a_historySamples ex_actor0 \<noteq> []"
    "\<forall>s \<in> set (a_historySamples ex_actor0). length (s_inputCs s) = length (a_visibleLayers ex_actor0)"
    "\<forall>s \<in> set (a_historySamples ex_actor0). a_sample_allocated ex_actor0 s"
    "length ex_steps = length (a_historySamples ex_actor0) + 1" "(0::nat) < 1"
    by (simp_all add: ex_actor0_def ex_steps_def ex_actor_fields ex_sample_fields
          a_sample_allocated_def copy_fits_def ex_s0_def)
  have nl: "\<forall>st \<in> set ex_steps. \<not> snd (snd (snd st))"
    by (simp add: ex_steps_def)
  from a_steps_no_learning [OF hist_inv_init [OF h(1,3,4)] h(2) nl, of "\<lambda>lo hi rng. (lo, rng)" "()"]
  obtain a' where run: "a_steps (\<lambda>lo hi rng. (lo, rng)) () ex_steps ex_actor0 = Inr ((), a')"
    by blast
  note t = a_history_ring_allocated [OF h run]
  from t have "sample_holds ex_actor0 (a_historySamples a' ! 0) (ex_steps ! (1 + 0))"
    and "sample_holds ex_actor0 (a_historySamples a' ! 1) (ex_steps ! (1 + 1))"
    by (simp_all add: ex_actor0_def)
  then have "s_hiddenCs (a_historySamples a' ! 0) 0 = 1 \<and> s_feedBackCs (a_historySamples a' ! 0) 0 = 1
        \<and> s_hiddenCs (a_historySamples a' ! 1) 0 = 1 \<and> s_feedBackCs (a_historySamples a' ! 1) 0 = 0"
    by (simp add: sample_holds_def ex_steps_def ex_actor0_def ex_actor_fields)
  moreover from t have "a_historySize a' = 2 \<and> length (a_historySamples a') = 2"
    by (simp add: ex_actor0_def)
  ultimately show ?thesis using run by blast
qed


lemma a_add_sample_unallocated:
  assumes "\<forall>s \<in> set (a_historySamples a). \<not> a_sample_allocated a s"
  shows "a_add_sample inputCs hiddenCs feedBackCs a = Inl OutOfRange"
proof (cases "a_historySize a = int (length (a_historySamples a))")
  case True
  show ?thesis
  proof (cases "a_historySamples a = []")
    case True
    with \<open>a_historySize a = int (length (a_historySamples a))\<close> show ?thesis
      by (simp add: a_add_sample_def)
  next
    case False
    let ?a1 = "a\<lparr>a_historySamples := a_shift (a_historySamples a)\<rparr>"
    have m: "a_shift (a_historySamples a) ! (length (a_historySamples a) - 1) \<in> set (a_historySamples a)"
      using False by (simp add: a_shift_rotate nth_append)
    have "a_sample_allocated ?a1 = a_sample_allocated a"
      by (rule a_sample_allocated_sizes) simp_all
    with m assms have "\<not> a_sample_allocated ?a1
                         (a_shift (a_historySamples a) ! (length (a_historySamples a) - 1))"
      by simp
    with True False show ?thesis
      by (simp add: a_add_sample_def Let_def a_write_sample_eq nat_diff_distrib')
  qed
next
  case False
  let ?a1 = "a\<lparr>a_historySize := a_historySize a + 1\<rparr>"
  have "a_sample_allocated ?a1 = a_sample_allocated a"
    by (rule a_sample_allocated_sizes) simp_all
  with assms have "\<not> a_sample_allocated ?a1 (a_historySamples a ! nat (a_historySize a))"
    if "0 \<le> a_historySize a" "a_historySize a < int (length (a_historySamples a))"
    using that by simp
  with False show ?thesis
    by (simp add: a_add_sample_def Let_def a_write_sample_eq)
qed

lemma a_initRandom_unallocated:
  assumes "1 \<le> fst hiddenSize * fst (snd hiddenSize)"
  shows "\<forall>s \<in> set (a_historySamples (a_initRandom hiddenSize historyCapacity visibleLayerDescs weights hiddenCounts a)).
           \<not> a_sample_allocated (a_initRandom hiddenSize historyCapacity visibleLayerDescs weights hiddenCounts a) s"
  using assms by (simp add: a_initRandom_def Let_def a_sample_allocated_def copy_fits_def)

lemma a_step_unallocated:
  assumes "\<forall>s \<in> set (a_historySamples a). \<not> a_sample_allocated a s"
  shows "a_step uniform_int_distribution rng inputCs hiddenCs feedBackCs learnEnabled a = Inl OutOfRange"
proof -
  have "a_sample_allocated (a_forward_pass rng inputCs a) = a_sample_allocated a"
    by (rule a_sample_allocated_sizes) (simp_all add: a_forward_pass_eq)
  with assms have "\<forall>s \<in> set (a_historySamples (a_forward_pass rng inputCs a)).
                     \<not> a_sample_allocated (a_forward_pass rng inputCs a) s"
    by (simp add: a_forward_pass_eq)
  from a_add_sample_unallocated [OF this] show ?thesis
    by (simp add: a_step_def)
qed

text \<open>
  C5. No run of \<open>historyCapacity + k\<close> steps on an actor built by \<open>Actor::initRandom\<close>
  retains its samples, because none returns: \<open>initRandom\<close> allocates the input and
  hidden buffers of every history sample and leaves \<open>_feedBackCs\<close> empty, and
  \<open>Actor::step\<close> copies one feedback code per hidden column into it. With at least one
  hidden column the first step writes outside the buffer, whatever the capacity, the
  inputs and \<open>learnEnabled\<close> are, and so does every non-empty run.
\<close>

theorem a_step_after_initRandom:
  assumes "1 \<le> fst hiddenSize * fst (snd hiddenSize)"
  shows "a_step uniform_int_distribution rng inputCs hiddenCs feedBackCs learnEnabled
           (a_initRandom hiddenSize historyCapacity visibleLayerDescs weights hiddenCounts a) = Inl OutOfRange
         \<and> (\<forall>st sts. a_steps uniform_int_distribution rng (st # sts)
               (a_initRandom hiddenSize historyCapacity visibleLayerDescs weights hiddenCounts a) = Inl OutOfRange)"
proof -
  let ?a0 = "a_initRandom hiddenSize historyCapacity visibleLayerDescs weights hiddenCounts a"
  note u = a_initRandom_unallocated [OF assms, of historyCapacity visibleLayerDescs weights hiddenCounts a]
  have "a_step uniform_int_distribution rng i h f le ?a0 = Inl OutOfRange" for i h f le
    by (rule a_step_unallocated [OF u])
  then show ?thesis
    by (auto split: prod.splits)
qed

theorem a_step_after_initRandom_witness:
  "a_step (\<lambda>lo hi rng. (lo, rng)) () [\<lambda>i. 0] (\<lambda>i. 0) (\<lambda>i. 0) False
     (a_initRandom (1, 1, 2) 2 [\<lparr>a_size = (1, 1, 2), a_radius = 0\<rparr>] (\<lambda>vli. ex_matrix) (\<lambda>i. 1) ex_actor)
     = Inl OutOfRange
   \<and> a_steps (\<lambda>lo hi rng. (lo, rng)) () ex_steps
       (a_initRandom (1, 1, 2) 2 [\<lparr>a_size = (1, 1, 2), a_radius = 0\<rparr>] (\<lambda>vli. ex_matrix) (\<lambda>i. 1) ex_actor)
       = Inl OutOfRange"
  using a_step_after_initRandom [of "(1, 1, 2)" "\<lambda>lo hi rng. (lo, rng)" "()" "[\<lambda>i. 0]" "\<lambda>i. 0" "\<lambda>i. 0" False
          2 "[\<lparr>a_size = (1, 1, 2), a_radius = 0\<rparr>]" "\<lambda>vli. ex_matrix" "\<lambda>i. 1" ex_actor]
  by (simp add: ex_steps_def)

section \<open>The replay of the actor\<close>

lemma a_replay_loop_spec:
  assumes "\<forall>r. 0 \<le> fst (sampleDist r) \<and> fst (sampleDist r) + 1 < int (length history)"
      and "a_historySamples a = history"
  shows "a_replay_loop sampleDist n rng a =
           (case spec_replay history (a_draws sampleDist n rng) a of
              Inl e \<Rightarrow> Inl e
            | Inr a' \<Rightarrow> Inr (snd (last ((0, rng) # a_draws sampleDist n rng)), a'))"
  using assms(2)
proof (induction n arbitrary: rng a)
  case 0
  show ?case by simp
next
  case (Suc n)
  obtain t r1 where d: "sampleDist rng = (t, r1)" by (cases "sampleDist rng")
  from assms(1) d have t: "0 \<le> t" "t + 1 < int (length history)"
    by (metis fst_conv)+
  have rp: "a_replay r1 t a = a_learn_transition r1 (history ! nat t) (history ! nat (t + 1)) a"
    using t Suc.prems
    by (simp add: a_replay_def a_replay_args_def a_learn_transition_def Let_def)
  show ?case
  proof (cases "a_learn_transition r1 (history ! nat t) (history ! nat (t + 1)) a")
    case (Inl e)
    then show ?thesis by (simp add: d rp)
  next
    case (Inr a1)
    with rp have "a_replay r1 t a = Inr a1" by simp
    from a_replay_frame [OF this] have "a_historySamples a1 = a_historySamples a"
      by (metis a_weights_only_fields(2))
    with Suc.prems have h1: "a_historySamples a1 = history" by simp
    show ?thesis
      using Suc.IH [OF h1, of r1] Inr
      by (simp add: d rp split: sum.splits)
  qed
qed

lemma a_draws_length: "length (a_draws sampleDist n rng) = n"
  by (induction n arbitrary: rng) (simp_all split: prod.splits)

lemma a_draws_range:
  assumes "\<forall>r. P (fst (sampleDist r))"
  shows "\<forall>d \<in> set (a_draws sampleDist n rng). P (fst d)"
proof (induction n arbitrary: rng)
  case 0
  show ?case by simp
next
  case (Suc n)
  obtain t r1 where d: "sampleDist rng = (t, r1)" by (cases "sampleDist rng")
  from assms d have "P t" by (metis fst_conv)
  with Suc.IH [of r1] show ?case by (simp add: d)
qed

lemma a_add_sample_effect:
  assumes "a_add_sample inputCs hiddenCs feedBackCs a = Inr a2"
  shows "a_visibleLayers a2 = a_visibleLayers a" and "a_hiddenCs a2 = a_hiddenCs a"
    and "a_historySize a2 \<le> int (length (a_historySamples a2))"
    and "a_hiddenSize a2 = a_hiddenSize a"
  using assms
  by (auto simp add: a_add_sample_def Let_def split: if_splits sum.splits)

lemma a_add_sample_returns:
  assumes "a_historySamples a \<noteq> []" and "0 \<le> a_historySize a"
      and "a_historySize a \<le> int (length (a_historySamples a))"
      and "\<forall>s \<in> set (a_historySamples a). a_sample_allocated a s"
  shows "\<exists>a2. a_add_sample inputCs hiddenCs feedBackCs a = Inr a2
           \<and> a_historySize a2 =
               (if a_historySize a = int (length (a_historySamples a)) then a_historySize a
                else a_historySize a + 1)
           \<and> a_historyIters a2 = a_historyIters a"
proof (cases "a_historySize a = int (length (a_historySamples a))")
  case True
  let ?a1 = "a\<lparr>a_historySamples := a_shift (a_historySamples a)\<rparr>"
  have l: "length (a_shift (a_historySamples a)) = length (a_historySamples a)"
    using assms(1) by (simp add: a_shift_rotate)
  have m: "a_shift (a_historySamples a) ! (length (a_historySamples a) - 1) \<in> set (a_historySamples a)"
    using assms(1) by (simp add: a_shift_rotate nth_append)
  have "a_sample_allocated ?a1 = a_sample_allocated a"
    by (rule a_sample_allocated_sizes) simp_all
  with m assms(4) have "a_sample_allocated ?a1
                          (a_shift (a_historySamples a) ! (length (a_historySamples a) - 1))"
    by simp
  with True assms(1) l show ?thesis
    by (simp add: a_add_sample_def Let_def a_write_sample_eq nat_diff_distrib')
next
  case False
  let ?a1 = "a\<lparr>a_historySize := a_historySize a + 1\<rparr>"
  have "a_sample_allocated ?a1 = a_sample_allocated a"
    by (rule a_sample_allocated_sizes) simp_all
  with assms(2-4) False have "a_sample_allocated ?a1 (a_historySamples a ! nat (a_historySize a))"
    by simp
  with False assms(1-3) show ?thesis
    by (simp add: a_add_sample_def Let_def a_write_sample_eq)
qed

lemma ex_actor_allocated:
  "\<forall>s \<in> set (a_historySamples (a_forward_pass () inputCs ex_actor)).
     a_sample_allocated (a_forward_pass () inputCs ex_actor) s"
  by (simp add: a_forward_pass_eq ex_actor_fields a_sample_allocated_def copy_fits_def
        ex_s0_def ex_s1_def)

text \<open>
  C4. Let \<open>a2\<close> be the actor once \<open>Actor::step\<close> has run the forward pass and added
  the sample. If \<open>learnEnabled\<close> holds and at least 3 samples are valid, the step is the
  replay of the spec: \<open>historyIters\<close> draws from the distribution on
  \<open>[0, historySize - 2]\<close>, each followed by the learn update on the transition from
  \<open>history[t]\<close> to \<open>history[t + 1]\<close>; every draw lies in \<open>[0, historySize - 2]\<close> and both
  samples exist. Otherwise the step returns \<open>a2\<close> and no weight is modified.
\<close>

theorem a_step_replay:
  assumes add: "a_add_sample inputCs hiddenCs feedBackCs (a_forward_pass rng inputCs a) = Inr a2"
      and lib: "\<forall>lo hi r. lo \<le> hi \<longrightarrow>
                  lo \<le> fst (uniform_int_distribution lo hi r)
                  \<and> fst (uniform_int_distribution lo hi r) \<le> hi"
  shows "(learnEnabled \<and> 3 \<le> a_historySize a2 \<longrightarrow>
           (let draws = a_draws (uniform_int_distribution 0 (a_historySize a2 - 2))
                          (nat (a_historyIters a2)) rng
            in a_step uniform_int_distribution rng inputCs hiddenCs feedBackCs learnEnabled a =
                 (case spec_replay (a_historySamples a2) draws a2 of
                    Inl e \<Rightarrow> Inl e
                  | Inr a' \<Rightarrow> Inr (snd (last ((0, rng) # draws)), a'))
               \<and> length draws = nat (a_historyIters a2)
               \<and> (\<forall>d \<in> set draws. 0 \<le> fst d \<and> fst d \<le> a_historySize a2 - 2
                                     \<and> fst d + 1 < int (length (a_historySamples a2)))))
         \<and> (\<not> (learnEnabled \<and> 3 \<le> a_historySize a2) \<longrightarrow>
              a_step uniform_int_distribution rng inputCs hiddenCs feedBackCs learnEnabled a = Inr (rng, a2)
              \<and> a_visibleLayers a2 = a_visibleLayers a)"
proof (intro conjI impI)
  assume c: "learnEnabled \<and> 3 \<le> a_historySize a2"
  let ?sd = "uniform_int_distribution 0 (a_historySize a2 - 2)"
  from a_add_sample_effect(3) [OF add] have le: "a_historySize a2 \<le> int (length (a_historySamples a2))" .
  have rng: "0 \<le> fst (?sd r) \<and> fst (?sd r) \<le> a_historySize a2 - 2
             \<and> fst (?sd r) + 1 < int (length (a_historySamples a2))" for r
    using lib [rule_format, of 0 "a_historySize a2 - 2" r] c le by simp
  then have r1: "\<forall>r. 0 \<le> fst (?sd r) \<and> fst (?sd r) + 1 < int (length (a_historySamples a2))"
    by blast
  have st: "a_step uniform_int_distribution rng inputCs hiddenCs feedBackCs learnEnabled a =
            a_replay_loop ?sd (nat (a_historyIters a2)) rng a2"
    using c add by (simp add: a_step_def)
  show "let draws = a_draws ?sd (nat (a_historyIters a2)) rng
        in a_step uniform_int_distribution rng inputCs hiddenCs feedBackCs learnEnabled a =
                 (case spec_replay (a_historySamples a2) draws a2 of
                    Inl e \<Rightarrow> Inl e
                  | Inr a' \<Rightarrow> Inr (snd (last ((0, rng) # draws)), a'))
               \<and> length draws = nat (a_historyIters a2)
               \<and> (\<forall>d \<in> set draws. 0 \<le> fst d \<and> fst d \<le> a_historySize a2 - 2
                                     \<and> fst d + 1 < int (length (a_historySamples a2)))"
    unfolding Let_def st
    using a_replay_loop_spec [OF r1 refl, of "nat (a_historyIters a2)" rng]
          a_draws_range [of "\<lambda>t. 0 \<le> t \<and> t \<le> a_historySize a2 - 2
                                     \<and> t + 1 < int (length (a_historySamples a2))" ?sd
                           "nat (a_historyIters a2)" rng] rng
    by (simp add: a_draws_length)
next
  assume c: "\<not> (learnEnabled \<and> 3 \<le> a_historySize a2)"
  show "a_step uniform_int_distribution rng inputCs hiddenCs feedBackCs learnEnabled a = Inr (rng, a2)"
    using c add by (auto simp add: a_step_def)
  show "a_visibleLayers a2 = a_visibleLayers a"
    using a_add_sample_effect(1) [OF add] by (simp add: a_forward_pass_eq)
qed

theorem a_step_replay_witness:
  "\<exists>a2. a_add_sample [\<lambda>i. 1] (\<lambda>i. 1) (\<lambda>i. 1) (a_forward_pass () [\<lambda>i. 1] ex_actor) = Inr a2
      \<and> 3 \<le> a_historySize a2
      \<and> a_step (\<lambda>lo hi rng. (lo, rng)) () [\<lambda>i. 1] (\<lambda>i. 1) (\<lambda>i. 1) True ex_actor =
          (case spec_replay (a_historySamples a2) [(0, ())] a2 of
             Inl e \<Rightarrow> Inl e | Inr a' \<Rightarrow> Inr ((), a'))
      \<and> a_step (\<lambda>lo hi rng. (lo, rng)) () [\<lambda>i. 1] (\<lambda>i. 1) (\<lambda>i. 1) False ex_actor = Inr ((), a2)
      \<and> a_visibleLayers a2 = a_visibleLayers ex_actor"
proof -
  let ?af = "a_forward_pass () [\<lambda>i. 1] ex_actor"
  have f: "a_historySamples ?af = a_historySamples ex_actor" "a_historySize ?af = a_historySize ex_actor"
    "a_historyIters ?af = a_historyIters ex_actor"
    by (simp_all add: a_forward_pass_eq)
  have "a_historySamples ?af \<noteq> []" "0 \<le> a_historySize ?af"
    "a_historySize ?af \<le> int (length (a_historySamples ?af))"
    by (simp_all add: f ex_actor_fields)
  from a_add_sample_returns [OF this ex_actor_allocated, of "[\<lambda>i. 1]" "\<lambda>i. 1" "\<lambda>i. 1"]
  obtain a2 where add: "a_add_sample [\<lambda>i. 1] (\<lambda>i. 1) (\<lambda>i. 1) ?af = Inr a2"
    and hs: "a_historySize a2 = 3" and it: "a_historyIters a2 = 1"
    by (auto simp add: f ex_actor_fields)
  have lib: "\<forall>lo hi r. lo \<le> hi \<longrightarrow>
                  lo \<le> fst ((\<lambda>(lo::int) (hi::int) rng. (lo, rng)) lo hi (r::unit))
                  \<and> fst ((\<lambda>(lo::int) (hi::int) rng. (lo, rng)) lo hi r) \<le> hi"
    by simp
  note t = a_step_replay [OF add lib]
  have d: "a_draws ((\<lambda>lo hi rng. (lo, rng)) 0 (a_historySize a2 - 2)) (nat (a_historyIters a2)) ()
           = [(0, ())]"
    by (simp add: hs it)
  have c: "True \<and> 3 \<le> a_historySize a2" by (simp add: hs)
  note u = t [of True, THEN conjunct1, THEN mp, OF c, unfolded Let_def d]
  from u [THEN conjunct1] have 1: "a_step (\<lambda>lo hi rng. (lo, rng)) () [\<lambda>i. 1] (\<lambda>i. 1) (\<lambda>i. 1) True ex_actor =
          (case spec_replay (a_historySamples a2) [(0, ())] a2 of
             Inl e \<Rightarrow> Inl e | Inr a' \<Rightarrow> Inr ((), a'))"
    by (simp cong: sum.case_cong)
  from t [of False] have 2: "a_step (\<lambda>lo hi rng. (lo, rng)) () [\<lambda>i. 1] (\<lambda>i. 1) (\<lambda>i. 1) False ex_actor = Inr ((), a2)"
    and 3: "a_visibleLayers a2 = a_visibleLayers ex_actor"
    by simp_all
  from add hs 1 2 3 show ?thesis by auto
qed

section \<open>Codes of every CSDR in range\<close>

lemma fold_writes_in_range:
  assumes "\<And>p s. P (val p s)" and "\<And>p s. cs (step p s) = (cs s)(addr p := val p s)"
  shows "\<forall>p \<in> set ps. P (cs (fold step ps s) (addr p))"
proof (induction ps arbitrary: s rule: rev_induct)
  case Nil
  show ?case by simp
next
  case (snoc q qs)
  have e: "cs (fold step (qs @ [q]) s) = (cs (fold step qs s))(addr q := val q (fold step qs s))"
    by (simp add: assms(2))
  show ?case
  proof
    fix p assume p: "p \<in> set (qs @ [q])"
    show "P (cs (fold step (qs @ [q]) s) (addr p))"
    proof (cases "addr p = addr q")
      case True
      then show ?thesis unfolding e using assms(1) by simp
    next
      case False
      with p have "p \<in> set qs" by auto
      with snoc.IH [of s] False show ?thesis unfolding e by simp
    qed
  qed
qed

lemma argmax_fold_range:
  assumes "\<And>hc st. fst (f hc st) = hc \<or> fst (f hc st) = fst st"
  shows "fst (fold f hcs st) = fst st \<or> fst (fold f hcs st) \<in> set hcs"
proof (induction hcs arbitrary: st)
  case Nil
  show ?case by simp
next
  case (Cons hc hcs)
  from Cons.IH [of "f hc st"] assms [of hc st] show ?case by auto
qed

lemma a_maxIndex_range:
  assumes "1 \<le> size_z (a_hiddenSize a)"
  shows "0 \<le> a_maxIndex a inputCs pos \<and> a_maxIndex a inputCs pos < size_z (a_hiddenSize a)"
proof -
  have "fst (a_forward_hc a inputCs pos hc st) = hc \<or> fst (a_forward_hc a inputCs pos hc st) = fst st"
    for hc st
    by (simp add: a_forward_hc_def Let_def)
  from argmax_fold_range [of "a_forward_hc a inputCs pos", OF this,
        of "[0..size_z (a_hiddenSize a) - 1]" "(0, - 999999)"]
  show ?thesis using assms by (auto simp add: a_maxIndex_def)
qed

lemma a_forward_pass_in_range:
  assumes "1 \<le> size_z (a_hiddenSize a)"
  shows "csdr_in_range (a_hiddenCs (a_forward_pass rng inputCs a))
           (\<lambda>pos. address2C pos (size_xy (a_hiddenSize a))) (a_hiddenSize a)"
proof -
  let ?step = "\<lambda>pos h. h(address2C pos (size_xy (a_hiddenSize a)) := a_maxIndex a inputCs pos)"
  have "\<forall>p \<in> set ps. 0 \<le> fold ?step ps h (address2C p (size_xy (a_hiddenSize a)))
                     \<and> fold ?step ps h (address2C p (size_xy (a_hiddenSize a))) < size_z (a_hiddenSize a)"
    for ps h
    by (rule fold_writes_in_range
          [of "\<lambda>v. 0 \<le> v \<and> v < size_z (a_hiddenSize a)" "\<lambda>p s. a_maxIndex a inputCs p"
              "\<lambda>h. h" ?step "\<lambda>pos. address2C pos (size_xy (a_hiddenSize a))"])
       (simp_all add: a_maxIndex_range [OF assms])
  then show ?thesis
    by (simp add: csdr_in_range_def a_forward_pass_eq)
qed

lemma a_step_hiddenCs:
  assumes "a_step sampleDist rng inputCs hiddenCs feedBackCs learnEnabled a = Inr (rng', a')"
  shows "a_hiddenCs a' = a_hiddenCs (a_forward_pass rng inputCs a)"
    and "a_hiddenSize a' = a_hiddenSize a"
proof -
  from assms obtain a2 where
    add: "a_add_sample inputCs hiddenCs feedBackCs (a_forward_pass rng inputCs a) = Inr a2"
    by (auto simp add: a_step_def split: sum.splits)
  note e = a_add_sample_effect [OF add]
  have "a_hiddenCs a' = a_hiddenCs a2 \<and> a_hiddenSize a' = a_hiddenSize a2"
  proof (cases "learnEnabled \<and> a_historySize a2 > 2")
    case True
    with assms add have "a_replay_loop (sampleDist 0 (a_historySize a2 - 2))
                           (nat (a_historyIters a2)) rng a2 = Inr (rng', a')"
      by (simp add: a_step_def)
    from a_replay_loop_frame [OF this] show ?thesis
      by (metis a_weights_only_fields(3,5))
  next
    case False
    with assms add show ?thesis by (auto simp add: a_step_def)
  qed
  with e show "a_hiddenCs a' = a_hiddenCs (a_forward_pass rng inputCs a)"
    and "a_hiddenSize a' = a_hiddenSize a"
    by (simp_all add: a_forward_pass_eq)
qed


lemma fold_writes_in_range_inv:
  assumes "\<And>p s. I s \<Longrightarrow> I (step p s)"
      and "\<And>p s. I s \<Longrightarrow> P (val p s)"
      and "\<And>p s. I s \<Longrightarrow> cs (step p s) = (cs s)(addr p := val p s)"
      and "I s"
  shows "I (fold step ps s) \<and> (\<forall>p \<in> set ps. P (cs (fold step ps s) (addr p)))"
proof (induction ps rule: rev_induct)
  case Nil
  show ?case using assms(4) by simp
next
  case (snoc q qs)
  let ?s = "fold step qs s"
  from snoc have i: "I ?s" and r: "\<forall>p \<in> set qs. P (cs ?s (addr p))" by simp_all
  have e: "cs (fold step (qs @ [q]) s) = (cs ?s)(addr q := val q ?s)"
    by (simp add: assms(3) [OF i])
  have "P (cs (fold step (qs @ [q]) s) (addr p))" if p: "p \<in> set (qs @ [q])" for p
  proof (cases "addr p = addr q")
    case True
    then show ?thesis unfolding e using assms(2) [OF i] by simp
  next
    case False
    with p have "p \<in> set qs" by auto
    with r False show ?thesis unfolding e by simp
  qed
  moreover have "I (fold step (qs @ [q]) s)" using assms(1) [OF i] by simp
  ultimately show ?case by blast
qed

lemma argmax_fold_range_proj:
  assumes "\<And>hc st. idx (f hc st) = hc \<or> idx (f hc st) = idx st"
  shows "idx (fold f hcs st) = idx st \<or> idx (fold f hcs st) \<in> set hcs"
proof (induction hcs arbitrary: st)
  case Nil
  show ?case by simp
next
  case (Cons hc hcs)
  from Cons.IH [of "f hc st"] assms [of hc st] show ?case by auto
qed

lemma sc_forward_maxIndex_range:
  assumes "1 \<le> size_z (sc_hiddenSize sc)"
  shows "0 \<le> sc_forward_maxIndex sc inputCs firstIter pos
         \<and> sc_forward_maxIndex sc inputCs firstIter pos < size_z (sc_hiddenSize sc)"
proof -
  have "fst (snd (sc_forward_hc sc inputCs pos firstIter hc st)) = hc
        \<or> fst (snd (sc_forward_hc sc inputCs pos firstIter hc st)) = fst (snd st)" for hc st
    by (cases st) (simp add: sc_forward_hc_def Let_def)
  from argmax_fold_range_proj [of "\<lambda>st. fst (snd st)" "sc_forward_hc sc inputCs pos firstIter", OF this,
        of "[0..size_z (sc_hiddenSize sc) - 1]" "(sc_hiddenActivations sc, 0, - 999999)"]
  show ?thesis using assms by (auto simp add: sc_forward_maxIndex_def)
qed

lemma sc_forward_frame:
  "sc_hiddenSize (sc_forward pos rng inputCs firstIter sc) = sc_hiddenSize sc"
  "sc_visibleLayerDescs (sc_forward pos rng inputCs firstIter sc) = sc_visibleLayerDescs sc"
  "sc_visibleLayers (sc_forward pos rng inputCs firstIter sc) = sc_visibleLayers sc"
  "sc_hiddenCs (sc_forward pos rng inputCs firstIter sc) =
     (sc_hiddenCs sc)(address2 pos (fst (sc_hiddenSize sc)) := sc_forward_maxIndex sc inputCs firstIter pos)"
  by (simp_all add: sc_forward_eq)

lemma sc_forward_fold_frame:
  "sc_hiddenSize (fold (\<lambda>pos. sc_forward pos rng inputCs firstIter) ps sc) = sc_hiddenSize sc
   \<and> sc_visibleLayerDescs (fold (\<lambda>pos. sc_forward pos rng inputCs firstIter) ps sc) = sc_visibleLayerDescs sc
   \<and> sc_visibleLayers (fold (\<lambda>pos. sc_forward pos rng inputCs firstIter) ps sc) = sc_visibleLayers sc"
  by (induction ps arbitrary: sc) (simp_all add: sc_forward_frame(1,2,3))

lemma sc_forward_pass_frame:
  "sc_hiddenSize (sc_forward_pass rng inputCs firstIter sc) = sc_hiddenSize sc"
  "sc_visibleLayerDescs (sc_forward_pass rng inputCs firstIter sc) = sc_visibleLayerDescs sc"
  "sc_visibleLayers (sc_forward_pass rng inputCs firstIter sc) = sc_visibleLayers sc"
  by (simp_all add: sc_forward_pass_def sc_forward_fold_frame)

lemma sc_forward_pass_in_range:
  assumes "1 \<le> size_z (sc_hiddenSize sc)"
  shows "csdr_in_range (sc_hiddenCs (sc_forward_pass rng inputCs firstIter sc))
           (\<lambda>pos. address2 pos (fst (sc_hiddenSize sc))) (sc_hiddenSize sc)"
proof -
  have "sc_hiddenSize (fold (\<lambda>pos. sc_forward pos rng inputCs firstIter) ps sc) = sc_hiddenSize sc
        \<and> (\<forall>p \<in> set ps.
             0 \<le> sc_hiddenCs (fold (\<lambda>pos. sc_forward pos rng inputCs firstIter) ps sc)
                    (address2 p (fst (sc_hiddenSize sc)))
             \<and> sc_hiddenCs (fold (\<lambda>pos. sc_forward pos rng inputCs firstIter) ps sc)
                    (address2 p (fst (sc_hiddenSize sc))) < size_z (sc_hiddenSize sc))" for ps
    by (rule fold_writes_in_range_inv
          [of "\<lambda>s. sc_hiddenSize s = sc_hiddenSize sc" "\<lambda>pos. sc_forward pos rng inputCs firstIter"
              "\<lambda>v. 0 \<le> v \<and> v < size_z (sc_hiddenSize sc)"
              "\<lambda>p s. sc_forward_maxIndex s inputCs firstIter p" sc_hiddenCs
              "\<lambda>p. address2 p (fst (sc_hiddenSize sc))"])
       (use assms in \<open>simp_all add: sc_forward_frame\<close>,
        metis assms sc_forward_maxIndex_range)
  then show ?thesis
    by (simp add: csdr_in_range_def sc_forward_pass_def)
qed

lemma sc_backward_maxIndex_range:
  assumes "1 \<le> vz"
  shows "0 \<le> snd (fold (sc_backward_vc sc vli pos) [0..vz - 1] (- 999999, 0))
         \<and> snd (fold (sc_backward_vc sc vli pos) [0..vz - 1] (- 999999, 0)) < vz"
proof -
  have "snd (sc_backward_vc sc vli pos vc st) = vc \<or> snd (sc_backward_vc sc vli pos vc st) = snd st"
    for vc st
    by (cases st) (simp add: sc_backward_vc_def Let_def)
  from argmax_fold_range_proj [of snd "sc_backward_vc sc vli pos", OF this,
        of "[0..vz - 1]" "(- 999999, 0)"]
  show ?thesis using assms by auto
qed

lemma sc_backward_reconCs:
  assumes "vli < length (sc_visibleLayers sc)"
  shows "sc_reconCs (sc_visibleLayers (sc_backward pos rng inputCs vli sc) ! vli) =
           (sc_reconCs (sc_visibleLayers sc ! vli))
             (address2 pos (fst (sc_size (sc_visibleLayerDescs sc ! vli))) :=
                snd (fold (sc_backward_vc sc vli pos)
                       [0..size_z (sc_size (sc_visibleLayerDescs sc ! vli)) - 1] (- 999999, 0)))"
  using assms by (simp add: sc_backward_def Let_def)

lemma sc_backward_other_layer:
  assumes "u \<noteq> vli"
  shows "sc_visibleLayers (sc_backward pos rng inputCs vli sc) ! u = sc_visibleLayers sc ! u"
  using assms by (simp add: sc_backward_def Let_def)

lemma sc_backward_fold_other_layer:
  assumes "u \<noteq> vli"
  shows "sc_visibleLayers (fold (\<lambda>pos. sc_backward pos rng inputCs vli) ps sc) ! u = sc_visibleLayers sc ! u"
  by (induction ps arbitrary: sc) (simp_all add: sc_backward_other_layer [OF assms])

lemma sc_backward_pass_other_layer:
  assumes "u \<noteq> vli"
  shows "sc_visibleLayers (sc_backward_pass rng inputCs vli sc) ! u = sc_visibleLayers sc ! u"
  by (simp add: sc_backward_pass_def Let_def sc_backward_fold_other_layer [OF assms])

lemma sc_backward_passes_other_layer:
  assumes "u \<notin> set vlis"
  shows "sc_visibleLayers (fold (sc_backward_pass rng inputCs) vlis sc) ! u = sc_visibleLayers sc ! u"
  using assms by (induction vlis arbitrary: sc) (simp_all add: sc_backward_pass_other_layer)

lemma sc_backward_pass_in_range:
  assumes z: "1 \<le> size_z (sc_size (sc_visibleLayerDescs sc ! vli))"
      and v: "vli < length (sc_visibleLayers sc)"
  shows "csdr_in_range (sc_reconCs (sc_visibleLayers (sc_backward_pass rng inputCs vli sc) ! vli))
           (\<lambda>pos. address2 pos (fst (sc_size (sc_visibleLayerDescs sc ! vli))))
           (sc_size (sc_visibleLayerDescs sc ! vli))"
proof -
  let ?I = "\<lambda>s. sc_visibleLayerDescs s = sc_visibleLayerDescs sc
                \<and> length (sc_visibleLayers s) = length (sc_visibleLayers sc)"
  let ?step = "\<lambda>pos. sc_backward pos rng inputCs vli"
  let ?vz = "size_z (sc_size (sc_visibleLayerDescs sc ! vli))"
  have "?I (fold ?step ps sc)
        \<and> (\<forall>p \<in> set ps.
             0 \<le> sc_reconCs (sc_visibleLayers (fold ?step ps sc) ! vli)
                    (address2 p (fst (sc_size (sc_visibleLayerDescs sc ! vli))))
             \<and> sc_reconCs (sc_visibleLayers (fold ?step ps sc) ! vli)
                    (address2 p (fst (sc_size (sc_visibleLayerDescs sc ! vli)))) < ?vz)" for ps
  proof (rule fold_writes_in_range_inv
          [of ?I ?step "\<lambda>v. 0 \<le> v \<and> v < ?vz"
              "\<lambda>p s. snd (fold (sc_backward_vc s vli p) [0..?vz - 1] (- 999999, 0))"
              "\<lambda>s. sc_reconCs (sc_visibleLayers s ! vli)"
              "\<lambda>p. address2 p (fst (sc_size (sc_visibleLayerDescs sc ! vli)))"])
    show "?I (?step p s)" if "?I s" for p s
      using that by (simp add: sc_backward_frame)
    show "0 \<le> snd (fold (sc_backward_vc s vli p) [0..?vz - 1] (- 999999, 0))
          \<and> snd (fold (sc_backward_vc s vli p) [0..?vz - 1] (- 999999, 0)) < ?vz" for p s
      by (rule sc_backward_maxIndex_range [OF z])
    show "sc_reconCs (sc_visibleLayers (?step p s) ! vli) =
            (sc_reconCs (sc_visibleLayers s ! vli))
              (address2 p (fst (sc_size (sc_visibleLayerDescs sc ! vli))) :=
                 snd (fold (sc_backward_vc s vli p) [0..?vz - 1] (- 999999, 0)))" if "?I s" for p s
      using that v sc_backward_reconCs [of vli s p rng inputCs] by simp
    show "?I sc" by simp
  qed
  then show ?thesis
    by (simp add: csdr_in_range_def sc_backward_pass_def Let_def)
qed

lemma sc_backward_passes_in_range:
  assumes z: "1 \<le> size_z (sc_size (sc_visibleLayerDescs sc ! vli))"
      and v: "vli < length (sc_visibleLayers sc)"
  shows "csdr_in_range
           (sc_reconCs (sc_visibleLayers
              (fold (sc_backward_pass rng inputCs) [0..<length (sc_visibleLayers sc)] sc) ! vli))
           (\<lambda>pos. address2 pos (fst (sc_size (sc_visibleLayerDescs sc ! vli))))
           (sc_size (sc_visibleLayerDescs sc ! vli))"
proof -
  let ?n = "length (sc_visibleLayers sc)"
  let ?s1 = "fold (sc_backward_pass rng inputCs) [0..<vli] sc"
  let ?s2 = "sc_backward_pass rng inputCs vli ?s1"
  from v have u: "[0..<?n] = [0..<vli] @ vli # [Suc vli..<?n]"
    by (metis le_add1 le_add_same_cancel1 less_imp_add_positive upt_add_eq_append upt_conv_Cons)
  have f: "sc_visibleLayerDescs ?s1 = sc_visibleLayerDescs sc"
          "length (sc_visibleLayers ?s1) = length (sc_visibleLayers sc)"
    by (simp_all add: sc_backward_passes_frame)
  have "csdr_in_range (sc_reconCs (sc_visibleLayers ?s2 ! vli))
           (\<lambda>pos. address2 pos (fst (sc_size (sc_visibleLayerDescs ?s1 ! vli))))
           (sc_size (sc_visibleLayerDescs ?s1 ! vli))"
    by (rule sc_backward_pass_in_range) (use z v f in simp_all)
  moreover have "sc_visibleLayers (fold (sc_backward_pass rng inputCs) [Suc vli..<?n] ?s2) ! vli
                 = sc_visibleLayers ?s2 ! vli"
    by (rule sc_backward_passes_other_layer) simp
  ultimately show ?thesis
    by (simp add: u f)
qed

lemma sc_iteration_frame:
  "sc_hiddenSize (sc_iteration rng inputCs firstIter sc) = sc_hiddenSize sc"
  "sc_visibleLayerDescs (sc_iteration rng inputCs firstIter sc) = sc_visibleLayerDescs sc"
  "length (sc_visibleLayers (sc_iteration rng inputCs firstIter sc)) = length (sc_visibleLayers sc)"
  by (simp_all add: sc_iteration_def sc_backward_passes_frame sc_forward_pass_frame)

lemma sc_iterations_frame:
  "sc_hiddenSize ((sc_iteration rng inputCs firstIter ^^ n) sc) = sc_hiddenSize sc
   \<and> sc_visibleLayerDescs ((sc_iteration rng inputCs firstIter ^^ n) sc) = sc_visibleLayerDescs sc
   \<and> length (sc_visibleLayers ((sc_iteration rng inputCs firstIter ^^ n) sc)) = length (sc_visibleLayers sc)"
  by (induction n) (simp_all add: sc_iteration_frame)

lemma sc_iteration_in_range:
  "1 \<le> size_z (sc_hiddenSize sc) \<Longrightarrow>
     csdr_in_range (sc_hiddenCs (sc_iteration rng inputCs firstIter sc))
       (\<lambda>pos. address2 pos (fst (sc_hiddenSize sc))) (sc_hiddenSize sc)"
  "1 \<le> size_z (sc_size (sc_visibleLayerDescs sc ! vli)) \<Longrightarrow> vli < length (sc_visibleLayers sc) \<Longrightarrow>
     csdr_in_range (sc_reconCs (sc_visibleLayers (sc_iteration rng inputCs firstIter sc) ! vli))
       (\<lambda>pos. address2 pos (fst (sc_size (sc_visibleLayerDescs sc ! vli))))
       (sc_size (sc_visibleLayerDescs sc ! vli))"
proof -
  show "csdr_in_range (sc_hiddenCs (sc_iteration rng inputCs firstIter sc))
       (\<lambda>pos. address2 pos (fst (sc_hiddenSize sc))) (sc_hiddenSize sc)"
    if "1 \<le> size_z (sc_hiddenSize sc)"
    using sc_forward_pass_in_range [OF that, of rng inputCs firstIter]
    by (simp add: sc_iteration_def sc_backward_passes_frame)
next
  let ?s = "sc_forward_pass rng inputCs firstIter sc"
  assume z: "1 \<le> size_z (sc_size (sc_visibleLayerDescs sc ! vli))" and v: "vli < length (sc_visibleLayers sc)"
  have "csdr_in_range
           (sc_reconCs (sc_visibleLayers
              (fold (sc_backward_pass rng inputCs) [0..<length (sc_visibleLayers ?s)] ?s) ! vli))
           (\<lambda>pos. address2 pos (fst (sc_size (sc_visibleLayerDescs ?s ! vli))))
           (sc_size (sc_visibleLayerDescs ?s ! vli))"
    by (rule sc_backward_passes_in_range) (use z v in \<open>simp_all add: sc_forward_pass_frame\<close>)
  then show "csdr_in_range (sc_reconCs (sc_visibleLayers (sc_iteration rng inputCs firstIter sc) ! vli))
       (\<lambda>pos. address2 pos (fst (sc_size (sc_visibleLayerDescs sc ! vli))))
       (sc_size (sc_visibleLayerDescs sc ! vli))"
    by (simp add: sc_iteration_def sc_forward_pass_frame)
qed

lemma sc_activate_last_iteration:
  assumes "1 \<le> sc_explainIters sc"
  shows "\<exists>firstIter s. sc_activate rng visibleCs sc = sc_iteration rng visibleCs firstIter s
           \<and> sc_hiddenSize s = sc_hiddenSize sc \<and> sc_visibleLayerDescs s = sc_visibleLayerDescs sc
           \<and> length (sc_visibleLayers s) = length (sc_visibleLayers sc)"
proof (cases "nat (sc_explainIters sc - 1)")
  case 0
  with assms have "sc_activate rng visibleCs sc = sc_iteration rng visibleCs True sc"
    by (simp add: sc_activate_iterations)
  then show ?thesis by blast
next
  case (Suc m)
  let ?s = "(sc_iteration rng visibleCs False ^^ m) (sc_iteration rng visibleCs True sc)"
  from Suc assms have "sc_activate rng visibleCs sc = sc_iteration rng visibleCs False ?s"
    by (simp add: sc_activate_iterations)
  moreover have "sc_hiddenSize ?s = sc_hiddenSize sc \<and> sc_visibleLayerDescs ?s = sc_visibleLayerDescs sc
           \<and> length (sc_visibleLayers ?s) = length (sc_visibleLayers sc)"
    by (simp add: sc_iterations_frame sc_iteration_frame)
  ultimately show ?thesis by blast
qed

lemma sc_activate_in_range:
  assumes e: "1 \<le> sc_explainIters sc"
  shows "1 \<le> size_z (sc_hiddenSize sc) \<Longrightarrow>
     csdr_in_range (sc_hiddenCs (sc_activate rng visibleCs sc))
       (\<lambda>pos. address2 pos (fst (sc_hiddenSize sc))) (sc_hiddenSize sc)"
  "1 \<le> size_z (sc_size (sc_visibleLayerDescs sc ! vli)) \<Longrightarrow> vli < length (sc_visibleLayers sc) \<Longrightarrow>
     csdr_in_range (sc_reconCs (sc_visibleLayers (sc_activate rng visibleCs sc) ! vli))
       (\<lambda>pos. address2 pos (fst (sc_size (sc_visibleLayerDescs sc ! vli))))
       (sc_size (sc_visibleLayerDescs sc ! vli))"
proof -
  from sc_activate_last_iteration [OF e, of rng visibleCs] obtain firstIter s where
    a: "sc_activate rng visibleCs sc = sc_iteration rng visibleCs firstIter s"
    and f: "sc_hiddenSize s = sc_hiddenSize sc" "sc_visibleLayerDescs s = sc_visibleLayerDescs sc"
           "length (sc_visibleLayers s) = length (sc_visibleLayers sc)"
    by blast
  show "csdr_in_range (sc_hiddenCs (sc_activate rng visibleCs sc))
       (\<lambda>pos. address2 pos (fst (sc_hiddenSize sc))) (sc_hiddenSize sc)"
    if "1 \<le> size_z (sc_hiddenSize sc)"
    using sc_iteration_in_range(1) [of s rng visibleCs firstIter] that by (simp add: a f)
  show "csdr_in_range (sc_reconCs (sc_visibleLayers (sc_activate rng visibleCs sc) ! vli))
       (\<lambda>pos. address2 pos (fst (sc_size (sc_visibleLayerDescs sc ! vli))))
       (sc_size (sc_visibleLayerDescs sc ! vli))"
    if "1 \<le> size_z (sc_size (sc_visibleLayerDescs sc ! vli))" "vli < length (sc_visibleLayers sc)"
    using sc_iteration_in_range(2) [of s vli rng visibleCs firstIter] that by (simp add: a f)
qed


lemma sc_activate_frame:
  "sc_hiddenSize (sc_activate rng visibleCs sc) = sc_hiddenSize sc"
  "sc_visibleLayerDescs (sc_activate rng visibleCs sc) = sc_visibleLayerDescs sc"
  "length (sc_visibleLayers (sc_activate rng visibleCs sc)) = length (sc_visibleLayers sc)"
  by (simp_all add: sc_activate_iterations sc_iterations_frame sc_iteration_frame)

lemma sc_activate_no_iterations:
  "sc_explainIters sc \<le> 0 \<Longrightarrow> sc_activate rng visibleCs sc = sc"
  by (simp add: sc_activate_iterations)

text \<open>
  C7. A CSDR is stored as one integer per column, so a column holds exactly one code; the
  code lies in \<open>[0, depth)\<close> on every column of the grid. For a sparse coder whose hidden
  depth is at least 1, the hidden codes are in range after \<open>SparseCoder::activate\<close> when
  it runs at least one iteration, or when they were in range before the call; likewise the
  reconstruction codes of every visible layer whose depth is at least 1. For an actor whose
  hidden depth is at least 1, the action codes are in range after every \<open>Actor::step\<close>
  that returns. Neither call changes the sizes.
\<close>

theorem csdr_codes_in_range:
  "(1 \<le> size_z (sc_hiddenSize sc)
      \<and> (1 \<le> sc_explainIters sc
           \<or> csdr_in_range (sc_hiddenCs sc) (\<lambda>pos. address2 pos (fst (sc_hiddenSize sc))) (sc_hiddenSize sc))
      \<longrightarrow> csdr_in_range (sc_hiddenCs (sc_activate rng visibleCs sc))
             (\<lambda>pos. address2 pos (fst (sc_hiddenSize sc))) (sc_hiddenSize sc))
   \<and> (vli < length (sc_visibleLayers sc) \<and> 1 \<le> size_z (sc_size (sc_visibleLayerDescs sc ! vli))
      \<and> (1 \<le> sc_explainIters sc
           \<or> csdr_in_range (sc_reconCs (sc_visibleLayers sc ! vli))
                (\<lambda>pos. address2 pos (fst (sc_size (sc_visibleLayerDescs sc ! vli))))
                (sc_size (sc_visibleLayerDescs sc ! vli)))
      \<longrightarrow> csdr_in_range (sc_reconCs (sc_visibleLayers (sc_activate rng visibleCs sc) ! vli))
             (\<lambda>pos. address2 pos (fst (sc_size (sc_visibleLayerDescs sc ! vli))))
             (sc_size (sc_visibleLayerDescs sc ! vli)))
   \<and> sc_hiddenSize (sc_activate rng visibleCs sc) = sc_hiddenSize sc
   \<and> sc_visibleLayerDescs (sc_activate rng visibleCs sc) = sc_visibleLayerDescs sc
   \<and> (1 \<le> size_z (a_hiddenSize a)
      \<and> a_step uniform_int_distribution arng inputCs hiddenCs feedBackCs learnEnabled a = Inr (arng', a')
      \<longrightarrow> csdr_in_range (a_hiddenCs a') (\<lambda>pos. address2C pos (size_xy (a_hiddenSize a))) (a_hiddenSize a)
          \<and> a_hiddenSize a' = a_hiddenSize a)"
proof (intro conjI impI)
  assume h: "1 \<le> size_z (sc_hiddenSize sc)
      \<and> (1 \<le> sc_explainIters sc
           \<or> csdr_in_range (sc_hiddenCs sc) (\<lambda>pos. address2 pos (fst (sc_hiddenSize sc))) (sc_hiddenSize sc))"
  show "csdr_in_range (sc_hiddenCs (sc_activate rng visibleCs sc))
             (\<lambda>pos. address2 pos (fst (sc_hiddenSize sc))) (sc_hiddenSize sc)"
  proof (cases "1 \<le> sc_explainIters sc")
    case True
    with h show ?thesis by (simp add: sc_activate_in_range(1))
  next
    case False
    with h show ?thesis by (simp add: sc_activate_no_iterations)
  qed
next
  assume h: "vli < length (sc_visibleLayers sc) \<and> 1 \<le> size_z (sc_size (sc_visibleLayerDescs sc ! vli))
      \<and> (1 \<le> sc_explainIters sc
           \<or> csdr_in_range (sc_reconCs (sc_visibleLayers sc ! vli))
                (\<lambda>pos. address2 pos (fst (sc_size (sc_visibleLayerDescs sc ! vli))))
                (sc_size (sc_visibleLayerDescs sc ! vli)))"
  show "csdr_in_range (sc_reconCs (sc_visibleLayers (sc_activate rng visibleCs sc) ! vli))
             (\<lambda>pos. address2 pos (fst (sc_size (sc_visibleLayerDescs sc ! vli))))
             (sc_size (sc_visibleLayerDescs sc ! vli))"
  proof (cases "1 \<le> sc_explainIters sc")
    case True
    with h show ?thesis by (simp add: sc_activate_in_range(2))
  next
    case False
    with h show ?thesis by (simp add: sc_activate_no_iterations)
  qed
next
  show "sc_hiddenSize (sc_activate rng visibleCs sc) = sc_hiddenSize sc"
    by (rule sc_activate_frame)
  show "sc_visibleLayerDescs (sc_activate rng visibleCs sc) = sc_visibleLayerDescs sc"
    by (rule sc_activate_frame)
next
  assume h: "1 \<le> size_z (a_hiddenSize a)
      \<and> a_step uniform_int_distribution arng inputCs hiddenCs feedBackCs learnEnabled a = Inr (arng', a')"
  then have s: "a_step uniform_int_distribution arng inputCs hiddenCs feedBackCs learnEnabled a = Inr (arng', a')"
    by simp
  from a_step_hiddenCs [OF s] a_forward_pass_in_range [of a arng inputCs] h
  show "csdr_in_range (a_hiddenCs a') (\<lambda>pos. address2C pos (size_xy (a_hiddenSize a))) (a_hiddenSize a)"
    by simp
  from a_step_hiddenCs [OF s] show "a_hiddenSize a' = a_hiddenSize a" by simp
qed

lemma ex_actor_add_sample:
  "\<exists>a2. a_add_sample [\<lambda>i. 0] (\<lambda>i. 0) (\<lambda>i. 0) (a_forward_pass () [\<lambda>i. 0] ex_actor) = Inr a2"
proof -
  have "\<exists>a2. a_add_sample [\<lambda>i. 0] (\<lambda>i. 0) (\<lambda>i. 0) (a_forward_pass () [\<lambda>i. 0] ex_actor) = Inr a2
           \<and> a_historySize a2 =
               (if a_historySize (a_forward_pass () [\<lambda>i. 0] ex_actor)
                     = int (length (a_historySamples (a_forward_pass () [\<lambda>i. 0] ex_actor)))
                then a_historySize (a_forward_pass () [\<lambda>i. 0] ex_actor)
                else a_historySize (a_forward_pass () [\<lambda>i. 0] ex_actor) + 1)
           \<and> a_historyIters a2 = a_historyIters (a_forward_pass () [\<lambda>i. 0] ex_actor)"
    by (rule a_add_sample_returns [OF _ _ _ ex_actor_allocated])
       (simp_all add: a_forward_pass_eq ex_actor_fields)
  then show ?thesis by blast
qed

theorem csdr_codes_in_range_witness:
  "csdr_in_range (sc_hiddenCs (sc_activate () [\<lambda>i. 0] ex_coder)) (\<lambda>pos. address2 pos 1) (1, 1, 2)
   \<and> csdr_in_range (sc_reconCs (sc_visibleLayers (sc_activate () [\<lambda>i. 0] ex_coder) ! 0))
       (\<lambda>pos. address2 pos 1) (1, 1, 2)
   \<and> (\<exists>a'. a_step (\<lambda>(lo::int) (hi::int) rng. (lo, rng)) () [\<lambda>i. 0] (\<lambda>i. 0) (\<lambda>i. 0) False ex_actor
              = Inr ((), a')
          \<and> csdr_in_range (a_hiddenCs a') (\<lambda>pos. address2C pos (1, 1)) (1, 1, 2))"
proof -
  from ex_actor_add_sample obtain a2 where
    a2: "a_add_sample [\<lambda>i. 0] (\<lambda>i. 0) (\<lambda>i. 0) (a_forward_pass () [\<lambda>i. 0] ex_actor) = Inr a2"
    by blast
  then have s: "a_step (\<lambda>(lo::int) (hi::int) rng. (lo, rng)) () [\<lambda>i. 0] (\<lambda>i. 0) (\<lambda>i. 0) False ex_actor
                  = Inr ((), a2)"
    by (simp add: a_step_def)
  note t = csdr_codes_in_range [where sc = ex_coder and vli = 0 and rng = "()"
      and visibleCs = "[\<lambda>i. 0]" and a = ex_actor
      and uniform_int_distribution = "\<lambda>(lo::int) (hi::int) rng. (lo, rng)" and arng = "()"
      and inputCs = "[\<lambda>i. 0]" and hiddenCs = "\<lambda>i. 0" and feedBackCs = "\<lambda>i. 0"
      and learnEnabled = False and arng' = "()" and a' = a2]
  have c1: "csdr_in_range (sc_hiddenCs (sc_activate () [\<lambda>i. 0] ex_coder)) (\<lambda>pos. address2 pos 1) (1, 1, 2)"
    using t [THEN conjunct1] by (simp add: ex_coder_fields size_z_def)
  have c2: "csdr_in_range (sc_reconCs (sc_visibleLayers (sc_activate () [\<lambda>i. 0] ex_coder) ! 0))
       (\<lambda>pos. address2 pos 1) (1, 1, 2)"
    using t [THEN conjunct2, THEN conjunct1] by (simp add: ex_coder_fields size_z_def)
  have c3: "csdr_in_range (a_hiddenCs a2) (\<lambda>pos. address2C pos (1, 1)) (1, 1, 2)"
    using t [THEN conjunct2, THEN conjunct2, THEN conjunct2, THEN conjunct2] s
    by (simp add: ex_actor_fields size_z_def size_xy_def)
  from c1 c2 c3 s show ?thesis by blast
qed

section \<open>Divisions of the passes\<close>

lemma fold_fault_total:
  assumes "\<And>x s. f x s = Inr (g x s)"
  shows "fold_fault f xs s = Inr (fold g xs s)"
  by (induction xs arbitrary: s) (simp_all add: assms)

lemma sc_divisor_ge_1: "1 \<le> sc_divisor sc vli pos"
  by (simp add: sc_divisor_def)

lemma a_learn_divisor_ge_1: "1 \<le> a_learn_divisor a pos"
  by (simp add: a_learn_divisor_def)

lemma sc_avg_checked_eq: "sc_avg_checked sc vli pos vc weights = Inr (sc_avg sc vli pos vc weights)"
  using sc_divisor_ge_1 [of sc vli pos]
  by (simp add: sc_avg_checked_def divide_checked_def sc_avg_def)

lemma a_learn_sum_checked_eq: "a_learn_sum_checked a inputCs pos hc = Inr (a_learn_sum a inputCs pos hc)"
  using a_learn_divisor_ge_1 [of a pos]
  by (simp add: a_learn_sum_checked_def divide_checked_def a_learn_sum_def)

lemma sc_backward_checked_eq:
  "sc_backward_checked pos rng inputCs vli sc = Inr (sc_backward pos rng inputCs vli sc)"
proof -
  have "sc_backward_vc_checked sc vli pos vc st = Inr (sc_backward_vc sc vli pos vc st)" for vc st
    by (cases st) (simp add: sc_backward_vc_checked_def sc_backward_vc_def sc_avg_checked_eq Let_def)
  from fold_fault_total [of "sc_backward_vc_checked sc vli pos" "sc_backward_vc sc vli pos", OF this]
  show ?thesis
    by (simp add: sc_backward_checked_def sc_backward_def Let_def)
qed

lemma sc_backward_pass_checked_eq:
  "sc_backward_pass_checked rng visibleCs vli sc = Inr (sc_backward_pass rng visibleCs vli sc)"
  unfolding sc_backward_pass_checked_def sc_backward_pass_def Let_def
  by (rule fold_fault_total) (rule sc_backward_checked_eq)

lemma sc_learn_checked_eq:
  "sc_learn_checked pos rng inputCs vli sc = Inr (sc_learn pos rng inputCs vli sc)"
proof -
  have "sc_learn_vc_checked sc vli pos inputC vc w = Inr (sc_learn_vc sc vli pos inputC vc w)" for inputC vc w
    by (simp add: sc_learn_vc_checked_def sc_learn_vc_def sc_avg_checked_eq Let_def)
  from fold_fault_total [of "sc_learn_vc_checked sc vli pos inputC" "sc_learn_vc sc vli pos inputC" for inputC, OF this]
  show ?thesis
    by (simp add: sc_learn_checked_def sc_learn_def Let_def)
qed

lemma sc_learn_pass_checked_eq:
  "sc_learn_pass_checked rng visibleCs vli sc = Inr (sc_learn_pass rng visibleCs vli sc)"
  unfolding sc_learn_pass_checked_def sc_learn_pass_def Let_def
  by (rule fold_fault_total) (rule sc_learn_checked_eq)

lemma a_learn_checked_eq:
  "a_learn_checked pos rng inputCs hiddenCsPrev feedBackCsPrev inputCsPrev a =
     a_learn pos rng inputCs hiddenCsPrev feedBackCsPrev inputCsPrev a"
proof -
  have "a_learn_hc_checked a inputCs inputCsPrev pos tc hc l = Inr (a_learn_hc a inputCs inputCsPrev pos tc hc l)"
    for tc hc l
    by (simp add: a_learn_hc_checked_def a_learn_hc_def a_learn_sum_checked_eq Let_def)
  from fold_fault_total [of "a_learn_hc_checked a inputCs inputCsPrev pos tc"
         "a_learn_hc a inputCs inputCsPrev pos tc" for tc, OF this]
  show ?thesis
    by (simp add: a_learn_checked_def a_learn_def a_learn_loop_def Let_def)
qed

lemma a_learn_positions_fold_fault:
  "a_learn_positions rng inputCs hiddenCsPrev feedBackCsPrev inputCsPrev ps a =
     fold_fault (\<lambda>pos. a_learn pos rng inputCs hiddenCsPrev feedBackCsPrev inputCsPrev) ps a"
  by (induction ps arbitrary: a) (simp_all split: sum.splits)

lemma a_learn_pass_checked_eq:
  "a_learn_pass_checked rng inputCs hiddenCsPrev feedBackCsPrev inputCsPrev a =
     a_learn_pass rng inputCs hiddenCsPrev feedBackCsPrev inputCsPrev a"
proof -
  have "(\<lambda>pos. a_learn_checked pos rng inputCs hiddenCsPrev feedBackCsPrev inputCsPrev) =
        (\<lambda>pos. a_learn pos rng inputCs hiddenCsPrev feedBackCsPrev inputCsPrev)"
    by (intro ext) (rule a_learn_checked_eq)
  then show ?thesis
    by (simp add: a_learn_pass_checked_def a_learn_pass_def a_learn_positions_fold_fault)
qed

lemma a_learn_fault:
  "a_learn pos rng inputCs hiddenCsPrev feedBackCsPrev inputCsPrev a \<noteq> Inl DivisionByZero"
  by (simp add: a_learn_def Let_def split: option.splits)

lemma fold_fault_never:
  assumes "\<And>x s. f x s \<noteq> Inl e"
  shows "fold_fault f xs s \<noteq> Inl e"
  by (induction xs arbitrary: s) (use assms in \<open>auto split: sum.splits\<close>)

lemma a_learn_pass_fault:
  "a_learn_pass rng inputCs hiddenCsPrev feedBackCsPrev inputCsPrev a \<noteq> Inl DivisionByZero"
  unfolding a_learn_pass_def a_learn_positions_fold_fault
  by (rule fold_fault_never) (rule a_learn_fault)

text \<open>
  C8. Every division of the backward and learn passes of the coder and of the learn pass
  of the actor succeeds: run with fallible division, each pass returns what the pass
  computes and never the fault of a division by zero. The averages of the coder's backward
  and learn kernels divide by \<open>max(1, count)\<close>, where \<open>count\<close> is the number of hidden
  columns found to cover the visible column, and the actor's learn kernel divides by
  \<open>max(1, hiddenCounts[column])\<close>; each divisor is at least 1, also when no hidden column
  covers the position or the stored count is not positive. The forward kernels do not
  divide.
\<close>

theorem passes_never_divide_by_zero:
  "sc_backward_pass_checked rng visibleCs vli sc = Inr (sc_backward_pass rng visibleCs vli sc)
   \<and> sc_learn_pass_checked rng visibleCs vli sc = Inr (sc_learn_pass rng visibleCs vli sc)
   \<and> a_learn_pass_checked arng inputCs hiddenCsPrev feedBackCsPrev inputCsPrev a =
       a_learn_pass arng inputCs hiddenCsPrev feedBackCsPrev inputCsPrev a
   \<and> a_learn_pass_checked arng inputCs hiddenCsPrev feedBackCsPrev inputCsPrev a \<noteq> Inl DivisionByZero
   \<and> sc_avg_checked sc vli pos vc weights =
       Inr (sc_sum sc vli pos vc weights / max 1 (real (length (sc_covering sc vli pos))))
   \<and> a_learn_sum_checked a inputCs apos hc =
       Inr (a_sum a inputCs (address3C (fst apos, snd apos, hc) (a_hiddenSize a))
              / real_of_int (max 1 (a_hiddenCounts a (address2C apos (size_xy (a_hiddenSize a))))))
   \<and> 1 \<le> sc_divisor sc vli pos
   \<and> 1 \<le> a_learn_divisor a apos"
proof -
  have 1: "sc_avg_checked sc vli pos vc weights =
       Inr (sc_sum sc vli pos vc weights / max 1 (real (length (sc_covering sc vli pos))))"
    by (simp add: sc_avg_checked_eq sc_avg_def sc_divisor_def sc_count_length)
  have 2: "a_learn_sum_checked a inputCs apos hc =
       Inr (a_sum a inputCs (address3C (fst apos, snd apos, hc) (a_hiddenSize a))
              / real_of_int (max 1 (a_hiddenCounts a (address2C apos (size_xy (a_hiddenSize a))))))"
    by (simp add: a_learn_sum_checked_eq a_learn_sum_def a_learn_divisor_def)
  have 3: "a_learn_pass_checked arng inputCs hiddenCsPrev feedBackCsPrev inputCsPrev a \<noteq> Inl DivisionByZero"
    by (simp only: a_learn_pass_checked_eq a_learn_pass_fault not_False_eq_True)
  from 1 2 3 show ?thesis
    by (simp only: sc_backward_pass_checked_eq sc_learn_pass_checked_eq a_learn_pass_checked_eq
          sc_divisor_ge_1 a_learn_divisor_ge_1 simp_thms)
qed

lemma ex_coder_empty_fields:
  "sc_hiddenSize ex_coder_empty = (1, 1, 2)"
  "sc_hiddenCs ex_coder_empty = (\<lambda>i. 0)"
  "sc_visibleLayers ex_coder_empty =
        [\<lparr>sc_weights = (\<lambda>i. 1 / 2), sc_reconCs = (\<lambda>i. 0),
          sc_visibleToHidden = (1, 1), sc_hiddenToVisible = (1, 1), sc_reverseRadii = (0, 0)\<rparr>]"
  "sc_visibleLayerDescs ex_coder_empty = [\<lparr>sc_size = (1, 1, 2), sc_radius = - 1\<rparr>]"
  by (simp_all add: ex_coder_empty_def)

lemma ex_coder_empty_covering: "sc_covering ex_coder_empty 0 (0, 0) = []"
  by (simp add: sc_covering_def sc_window_def sc_contains_def box_def ex_coder_empty_fields Let_def)

theorem passes_never_divide_by_zero_witness:
  "sc_covering ex_coder_empty 0 (0, 0) = []
   \<and> sc_avg_checked ex_coder_empty 0 (0, 0) 1 (\<lambda>i. 1 / 2) = Inr 0
   \<and> sc_backward_pass_checked () [\<lambda>i. 1] 0 ex_coder_empty = Inr (sc_backward_pass () [\<lambda>i. 1] 0 ex_coder_empty)
   \<and> sc_learn_pass_checked () [\<lambda>i. 1] 0 ex_coder_empty = Inr (sc_learn_pass () [\<lambda>i. 1] 0 ex_coder_empty)
   \<and> a_hiddenCounts (ex_actor\<lparr>a_hiddenCounts := (\<lambda>i. 0)\<rparr>) 0 = 0
   \<and> a_learn_sum_checked (ex_actor\<lparr>a_hiddenCounts := (\<lambda>i. 0)\<rparr>) [\<lambda>i. 1] (0, 0) 1 = Inr 1"
proof -
  note t = passes_never_divide_by_zero [of "()" "[\<lambda>i. 1]" 0 ex_coder_empty "()" "[\<lambda>i. 1]" "\<lambda>i. 1" "\<lambda>i. 1"
      "[\<lambda>i. 0]" "ex_actor\<lparr>a_hiddenCounts := (\<lambda>i. 0)\<rparr>" "(0, 0)" 1 "\<lambda>i. 1 / 2" "(0, 0)" 1]
  have s: "sc_sum ex_coder_empty 0 (0, 0) 1 (\<lambda>i. 1 / 2) = 0"
    by (simp add: sc_sum_def ex_coder_empty_covering)
  have u: "a_sum (ex_actor\<lparr>a_hiddenCounts := (\<lambda>i. 0)\<rparr>) [\<lambda>i. 1]
             (address3C (0, 0, 1) (a_hiddenSize ex_actor)) = 1"
    by (simp add: a_sum_def multiplyOHVs_def ex_actor_fields ex_matrix_def)
  from t show ?thesis
    by (simp add: ex_coder_empty_covering s u size_xy_def)
qed

end
